(* ===== verification/Prelude.thy ===== *)
theory Prelude
  imports
    Main
    "HOL-Library.Word"
    "HOL-Library.Char_ord"
    "HOL-Library.List_Lexorder"
    "HOL-Library.Product_Lexorder"
    "HOL-Library.Sublist"
begin

text \<open>
  The shared vocabulary of the development: machine integers and identifiers, the result
  type and its sequencing, the part of the Rust string interface that the kernel uses, the
  ordered map that stands for \<open>BTreeMap\<close>, and the generic lemmas on them.

  Conventions.
  \<^item> A Rust \<open>String\<close> or byte slice is an Isabelle \<^typ>\<open>string\<close>: its UTF-8 bytes, one
    \<^typ>\<open>char\<close> per byte. Byte-wise operations (\<open>starts_with\<close>, \<open>strip_suffix\<close>,
    equality, \<open>Ord\<close>) agree with those on \<open>str\<close>.
  \<^item> \<open>Result<T, E>\<close> is \<open>'e + 'a\<close>: \<^const>\<open>Inr\<close> is \<open>Ok\<close>, \<^const>\<open>Inl\<close> is \<open>Err\<close>.
  \<^item> \<open>Uuid\<close> is its 128-bit value, whose numeric order is the order of its bytes.
  \<^item> \<open>DateTime<Utc>\<close> is a number of nanoseconds; the code only compares instants.
\<close>

unbundle bit_operations_syntax

section \<open>Types\<close>

type_synonym u8 = "8 word"
type_synonym u16 = "16 word"
type_synonym u32 = "32 word"
type_synonym u64 = "64 word"
type_synonym uuid = "128 word"
type_synonym utc = int

named_theorems result_simps \<open>equations that resolve sequenced results\<close>
named_theorems store_simps \<open>equations that resolve reads after writes\<close>

section \<open>Results\<close>

text \<open>\<open>bindR r f\<close> is \<open>f(r?)\<close>: the question-mark operator.\<close>

definition bindR :: "'e + 'a \<Rightarrow> ('a \<Rightarrow> 'e + 'b) \<Rightarrow> 'e + 'b" where
  "bindR r f = (case r of Inl e \<Rightarrow> Inl e | Inr x \<Rightarrow> f x)"

definition map_err :: "('e \<Rightarrow> 'f) \<Rightarrow> 'e + 'a \<Rightarrow> 'f + 'a" where
  "map_err g r = (case r of Inl e \<Rightarrow> Inl (g e) | Inr x \<Rightarrow> Inr x)"

definition ok_or :: "'e \<Rightarrow> 'a option \<Rightarrow> 'e + 'a" where
  "ok_or e x = (case x of None \<Rightarrow> Inl e | Some v \<Rightarrow> Inr v)"

definition is_ok :: "'e + 'a \<Rightarrow> bool" where
  "is_ok r = (case r of Inl _ \<Rightarrow> False | Inr _ \<Rightarrow> True)"

text \<open>\<open>iter.collect::<Result<Vec<_>, _>>()\<close>: the first error, or all values.\<close>

fun collect_results :: "('e + 'a) list \<Rightarrow> 'e + 'a list" where
  "collect_results [] = Inr []"
| "collect_results (r # rs) =
     (case r of Inl e \<Rightarrow> Inl e
      | Inr x \<Rightarrow> (case collect_results rs of Inl e \<Rightarrow> Inl e | Inr xs \<Rightarrow> Inr (x # xs)))"

lemma bindR_simps [simp, result_simps]:
  "bindR (Inl e) f = Inl e"
  "bindR (Inr x) f = f x"
  by (simp_all add: bindR_def)

lemma map_err_simps [simp, result_simps]:
  "map_err g (Inl e) = Inl (g e)"
  "map_err g (Inr x) = Inr x"
  by (simp_all add: map_err_def)

lemma ok_or_simps [simp, result_simps]:
  "ok_or e None = Inl e"
  "ok_or e (Some v) = Inr v"
  by (simp_all add: ok_or_def)

lemma is_ok_simps [simp, result_simps]:
  "is_ok (Inl e) = False"
  "is_ok (Inr x) = True"
  by (simp_all add: is_ok_def)

lemma bindR_eq_Inr [result_simps]: "bindR r f = Inr y \<longleftrightarrow> (\<exists>x. r = Inr x \<and> f x = Inr y)"
  by (cases r) auto

lemma bindR_eq_Inl [result_simps]:
  "bindR r f = Inl e \<longleftrightarrow> r = Inl e \<or> (\<exists>x. r = Inr x \<and> f x = Inl e)"
  by (cases r) auto

lemma map_err_eq_Inr [simp, result_simps]: "map_err g r = Inr x \<longleftrightarrow> r = Inr x"
  by (cases r) auto

lemma map_err_eq_Inl [result_simps]: "map_err g r = Inl e \<longleftrightarrow> (\<exists>d. r = Inl d \<and> e = g d)"
  by (cases r) auto

lemma ok_or_eq_Inr [simp, result_simps]: "ok_or e x = Inr v \<longleftrightarrow> x = Some v"
  by (cases x) auto

lemma ok_or_eq_Inl [simp, result_simps]: "ok_or e x = Inl d \<longleftrightarrow> x = None \<and> d = e"
  by (cases x) auto

lemma is_ok_iff: "is_ok r \<longleftrightarrow> (\<exists>x. r = Inr x)"
  by (cases r) auto

lemma collect_results_Inr [simp]: "collect_results (map Inr xs) = Inr xs"
  by (induction xs) auto

lemma collect_results_InrD: "collect_results rs = Inr xs \<Longrightarrow> rs = map Inr xs"
  by (induction rs arbitrary: xs) (auto split: sum.splits)

lemma collect_results_eq_Inr: "collect_results rs = Inr xs \<longleftrightarrow> rs = map Inr xs"
  by (auto dest: collect_results_InrD)

lemma collect_results_map_eq_Inr:
  "collect_results (map f xs) = Inr ys \<longleftrightarrow>
     length ys = length xs \<and> (\<forall>i < length xs. f (xs ! i) = Inr (ys ! i))"
  by (auto simp: collect_results_eq_Inr list_eq_iff_nth_eq)

section \<open>Checked arithmetic\<close>

text \<open>Rust's \<open>checked_add\<close> and \<open>checked_sub\<close> on unsigned integers.\<close>

definition checked_add :: "'a::len word \<Rightarrow> 'a word \<Rightarrow> 'a word option" where
  "checked_add a b = (if unat a + unat b < 2 ^ LENGTH('a) then Some (a + b) else None)"

definition checked_sub :: "'a::len word \<Rightarrow> 'a word \<Rightarrow> 'a word option" where
  "checked_sub a b = (if b \<le> a then Some (a - b) else None)"

lemma checked_add_Some_iff:
  "checked_add a b = Some c \<longleftrightarrow>
     unat a + unat b < 2 ^ LENGTH('a) \<and> c = a + b" for a :: "'a::len word"
  by (auto simp: checked_add_def)

lemma unat_checked_add:
  "checked_add a b = Some c \<Longrightarrow> unat c = unat a + unat b" for a :: "'a::len word"
  by (auto simp: checked_add_def unat_word_ariths split: if_splits)

lemma checked_add_None_iff:
  "checked_add a b = None \<longleftrightarrow> 2 ^ LENGTH('a) \<le> unat a + unat b" for a :: "'a::len word"
  by (auto simp: checked_add_def)

section \<open>Strings\<close>

definition starts_with :: "string \<Rightarrow> string \<Rightarrow> bool" where
  "starts_with s p = prefix p s"

definition ends_with :: "string \<Rightarrow> string \<Rightarrow> bool" where
  "ends_with s p = suffix p s"

text \<open>\<open>str::strip_suffix(char)\<close> and \<open>str::strip_prefix(char)\<close> for ASCII characters.\<close>

definition strip_suffix_char :: "string \<Rightarrow> char \<Rightarrow> string option" where
  "strip_suffix_char s c = (if s \<noteq> [] \<and> last s = c then Some (butlast s) else None)"

definition strip_prefix_char :: "string \<Rightarrow> char \<Rightarrow> string option" where
  "strip_prefix_char s c = (case s of [] \<Rightarrow> None | x # xs \<Rightarrow> if x = c then Some xs else None)"

text \<open>\<open>str::split(char)\<close>: always at least one part.\<close>

fun split_on :: "char \<Rightarrow> string \<Rightarrow> string list" where
  "split_on c [] = [[]]"
| "split_on c (x # xs) =
     (if x = c then [] # split_on c xs
      else (case split_on c xs of [] \<Rightarrow> [[x]] | w # ws \<Rightarrow> (x # w) # ws))"

text \<open>
  \<open>s.trim().is_empty()\<close>: the text consists of characters with the Unicode property
  \<open>White_Space\<close> only. Their UTF-8 encodings have one, two or three bytes.
\<close>

definition ws1 :: "char \<Rightarrow> bool" where
  "ws1 c = (c \<in> {CHR 0x09, CHR 0x0A, CHR 0x0B, CHR 0x0C, CHR 0x0D, CHR 0x20})"

definition ws2 :: "char \<Rightarrow> char \<Rightarrow> bool" where
  "ws2 c d = (c = CHR 0xC2 \<and> d \<in> {CHR 0x85, CHR 0xA0})"

definition ws3 :: "char \<Rightarrow> char \<Rightarrow> char \<Rightarrow> bool" where
  "ws3 c d e =
     ((c = CHR 0xE1 \<and> d = CHR 0x9A \<and> e = CHR 0x80) \<or>
      (c = CHR 0xE2 \<and> d = CHR 0x80 \<and>
         e \<in> {CHR 0x80, CHR 0x81, CHR 0x82, CHR 0x83, CHR 0x84, CHR 0x85, CHR 0x86,
              CHR 0x87, CHR 0x88, CHR 0x89, CHR 0x8A, CHR 0xA8, CHR 0xA9, CHR 0xAF}) \<or>
      (c = CHR 0xE2 \<and> d = CHR 0x81 \<and> e = CHR 0x9F) \<or>
      (c = CHR 0xE3 \<and> d = CHR 0x80 \<and> e = CHR 0x80))"

fun trim_is_empty :: "string \<Rightarrow> bool" where
  "trim_is_empty [] = True"
| "trim_is_empty (c # cs) =
     (if ws1 c then trim_is_empty cs
      else (case cs of [] \<Rightarrow> False
        | d # ds \<Rightarrow>
            (if ws2 c d then trim_is_empty ds
             else (case ds of [] \<Rightarrow> False
               | e # es \<Rightarrow> if ws3 c d e then trim_is_empty es else False))))"

text \<open>Decimal rendering of integers (\<open>to_string\<close>, \<open>{}\<close> in a format string).\<close>

definition digit_char :: "nat \<Rightarrow> char" where
  "digit_char d = char_of (48 + d)"

fun show_nat :: "nat \<Rightarrow> string" where
  "show_nat n = (if n < 10 then [digit_char n] else show_nat (n div 10) @ [digit_char (n mod 10)])"

declare show_nat.simps [simp del]

definition show_int :: "int \<Rightarrow> string" where
  "show_int i = (if i < 0 then CHR ''-'' # show_nat (nat (- i)) else show_nat (nat i))"

definition is_digit_char :: "char \<Rightarrow> bool" where
  "is_digit_char c = (of_char c \<in> {48::nat..57})"

fun intercalate :: "string \<Rightarrow> string list \<Rightarrow> string" where
  "intercalate sep [] = []"
| "intercalate sep [s] = s"
| "intercalate sep (s # t # ts) = s @ sep @ intercalate sep (t # ts)"

subsection \<open>Lemmas on digits\<close>

lemma of_char_digit_char: "d < 10 \<Longrightarrow> of_char (digit_char d) = (48 + d :: nat)"
  by (simp add: digit_char_def)

lemma is_digit_digit_char [simp]: "d < 10 \<Longrightarrow> is_digit_char (digit_char d)"
  by (simp add: is_digit_char_def of_char_digit_char)

lemma show_nat_digits: "c \<in> set (show_nat n) \<Longrightarrow> is_digit_char c"
proof (induction n rule: show_nat.induct)
  case (1 n)
  show ?case
    using "1.prems" "1.IH" by (cases "n < 10") (auto simp: show_nat.simps [of n])
qed

lemma show_nat_nonempty [simp]: "show_nat n \<noteq> []"
  by (subst show_nat.simps) simp

text \<open>Reading the digits back: the value of a decimal text.\<close>

definition dec_value :: "string \<Rightarrow> nat" where
  "dec_value s = foldl (\<lambda>a c. 10 * a + (of_char c - 48)) 0 s"

lemma dec_value_snoc: "dec_value (s @ [c]) = 10 * dec_value s + (of_char c - 48)"
  by (simp add: dec_value_def)

lemma dec_value_show_nat [simp]: "dec_value (show_nat n) = n"
proof (induction n rule: show_nat.induct)
  case (1 n)
  show ?case
  proof (cases "n < 10")
    case True
    then show ?thesis
      using dec_value_snoc [of "[]" "digit_char n"]
      by (simp add: show_nat.simps [of n] of_char_digit_char dec_value_def)
  next
    case False
    with "1.IH" show ?thesis
      by (simp add: show_nat.simps [of n] dec_value_snoc of_char_digit_char)
  qed
qed

lemma show_nat_inj: "show_nat m = show_nat n \<Longrightarrow> m = n"
  by (metis dec_value_show_nat)

text \<open>A decimal number is delimited by the first byte that is not a digit.\<close>

lemma digits_append_eq:
  assumes "\<forall>c \<in> set s. is_digit_char c" and "\<forall>c \<in> set t. is_digit_char c"
    and "x = [] \<or> \<not> is_digit_char (hd x)" and "y = [] \<or> \<not> is_digit_char (hd y)"
    and "s @ x = t @ y"
  shows "s = t \<and> x = y"
proof -
  have stop: "takeWhile is_digit_char z = []" if "z = [] \<or> \<not> is_digit_char (hd z)" for z
    using that by (cases z) auto
  have "takeWhile is_digit_char (s @ x) = s"
    using assms(1) stop [OF assms(3)] by (simp add: takeWhile_append2)
  moreover have "takeWhile is_digit_char (t @ y) = t"
    using assms(2) stop [OF assms(4)] by (simp add: takeWhile_append2)
  ultimately show ?thesis using assms(5) by auto
qed

lemma show_nat_append_eq:
  assumes "show_nat m @ x = show_nat n @ y"
    and "x = [] \<or> \<not> is_digit_char (hd x)" and "y = [] \<or> \<not> is_digit_char (hd y)"
  shows "m = n \<and> x = y"
  using digits_append_eq [OF _ _ assms(2,3,1)] show_nat_digits show_nat_inj by blast

section \<open>Ordered maps\<close>

text \<open>
  \<open>BTreeMap<K, V>\<close> is the association list of its entries in key order: \<open>get\<close> is
  \<^const>\<open>map_of\<close>, \<open>values()\<close> is \<open>map snd\<close>, \<open>insert\<close> is \<open>bt_insert\<close>.
\<close>

fun bt_insert :: "'k::linorder \<Rightarrow> 'v \<Rightarrow> ('k \<times> 'v) list \<Rightarrow> ('k \<times> 'v) list" where
  "bt_insert k v [] = [(k, v)]"
| "bt_insert k v (e # es) =
     (if fst e = k then (k, v) # es
      else if fst e < k then e # bt_insert k v es
      else (k, v) # e # es)"

definition bt_ok :: "('k::linorder \<times> 'v) list \<Rightarrow> bool" where
  "bt_ok m = sorted_wrt (<) (map fst m)"

abbreviation bt_values :: "('k \<times> 'v) list \<Rightarrow> 'v list" where
  "bt_values m \<equiv> map snd m"

lemma bt_ok_Nil [simp]: "bt_ok []"
  by (simp add: bt_ok_def)

lemma map_of_bt_insert [simp, store_simps]:
  "map_of (bt_insert k v m) = (map_of m)(k \<mapsto> v)"
  by (induction m) (auto simp: fun_eq_iff)

lemma fst_set_bt_insert [simp]: "fst ` set (bt_insert k v m) = insert k (fst ` set m)"
  by (induction m) auto

lemma bt_ok_insert [simp, intro]: "bt_ok m \<Longrightarrow> bt_ok (bt_insert k v m)"
  unfolding bt_ok_def
proof (induction m)
  case Nil
  then show ?case by simp
next
  case (Cons e es)
  have "fst ` set (bt_insert k v es) = insert k (fst ` set es)" by simp
  then have "set (map fst (bt_insert k v es)) = insert k (set (map fst es))" by simp
  with Cons show ?case by (auto simp del: fst_set_bt_insert)
qed

lemma bt_ok_distinct: "bt_ok m \<Longrightarrow> distinct (map fst m)"
  by (auto simp: bt_ok_def strict_sorted_iff)

lemma bt_get_iff: "bt_ok m \<Longrightarrow> map_of m k = Some v \<longleftrightarrow> (k, v) \<in> set m"
  by (simp add: bt_ok_distinct)

lemma bt_values_iff: "bt_ok m \<Longrightarrow> v \<in> set (bt_values m) \<longleftrightarrow> (\<exists>k. map_of m k = Some v)"
  by (force simp: bt_get_iff image_iff)

lemma set_bt_insert:
  assumes "bt_ok m"
  shows "set (bt_insert k v m) = insert (k, v) {e \<in> set m. fst e \<noteq> k}"
proof -
  have "bt_ok (bt_insert k v m)" using assms by simp
  then have "(a, b) \<in> set (bt_insert k v m) \<longleftrightarrow> ((map_of m)(k \<mapsto> v)) a = Some b" for a b
    by (metis bt_get_iff map_of_bt_insert)
  then show ?thesis
    using bt_get_iff [OF assms] by (auto split: if_splits)
qed

section \<open>Maximum by key\<close>

text \<open>\<open>Iterator::max_by_key\<close>: the last of the elements with the greatest key.\<close>

fun max_by_key :: "('a \<Rightarrow> 'k::linorder) \<Rightarrow> 'a list \<Rightarrow> 'a option" where
  "max_by_key f [] = None"
| "max_by_key f (x # xs) =
     (case max_by_key f xs of None \<Rightarrow> Some x | Some y \<Rightarrow> if f x \<le> f y then Some y else Some x)"

lemma max_by_key_None [simp]: "max_by_key f xs = None \<longleftrightarrow> xs = []"
  by (cases xs) (auto split: option.splits)

lemma max_by_key_Some:
  "max_by_key f xs = Some m \<Longrightarrow> m \<in> set xs \<and> (\<forall>x \<in> set xs. f x \<le> f m)"
  by (induction xs arbitrary: m) (fastforce split: option.splits if_splits)+

lemma find_SomeD: "find P xs = Some x \<Longrightarrow> x \<in> set xs \<and> P x"
  by (induction xs) (auto split: if_splits)

end
