(* ===== verification/Host.thy ===== *)
theory Host
  imports Prelude
begin

text \<open>
  What the kernel takes from code outside the repository: hashing (\<open>blake3\<close>, \<open>sha2\<close>),
  Ed25519 (\<open>ed25519_dalek\<close>), JSON text (\<open>serde_json\<close>), identifiers (\<open>uuid\<close>), time
  stamps (\<open>chrono\<close>) and the rendering of floats. All of it is one record, an argument of
  every definition that uses it. The predicates below state the documented behaviour that
  some theorems rely on; a concrete instance that satisfies them closes the development's
  witnesses.
\<close>

record host =
  host_blake3 :: "string \<Rightarrow> u8 list"
    \<comment> \<open>\<open>blake3::Hasher\<close> fed with the whole message\<close>
  host_sha256 :: "string \<Rightarrow> u8 list"
    \<comment> \<open>\<open>Sha256::digest\<close>\<close>
  host_quote :: "string \<Rightarrow> string"
    \<comment> \<open>\<open>serde_json::to_string\<close> of a string: its JSON literal\<close>
  host_lower_exp :: "u64 \<Rightarrow> string"
    \<comment> \<open>\<open>format!("{value:e}")\<close> of the float with these bits\<close>
  host_text_as_f64 :: "string \<Rightarrow> u64 option"
    \<comment> \<open>\<open>serde_json::from_str\<close> read as a number and then \<open>as_f64\<close>\<close>
  host_uuid_text :: "uuid \<Rightarrow> string"
    \<comment> \<open>hyphenated lower-case text, \<open>Display for Uuid\<close>\<close>
  host_parse_uuid :: "string \<Rightarrow> uuid option"
    \<comment> \<open>\<open>Uuid::parse_str\<close>\<close>
  host_uuid_error :: "string \<Rightarrow> string"
    \<comment> \<open>the message of the error that \<open>Uuid::parse_str\<close> returns\<close>
  host_io_error :: "string \<Rightarrow> string"
    \<comment> \<open>the message of the error of reading a file that does not exist\<close>
  host_hex_error :: "string \<Rightarrow> string"
    \<comment> \<open>the message of the error that \<open>hex::decode\<close> returns\<close>
  host_uuid_version :: "uuid \<Rightarrow> nat"
    \<comment> \<open>\<open>Uuid::get_version_num\<close>\<close>
  host_uuid_rfc4122 :: "uuid \<Rightarrow> bool"
    \<comment> \<open>\<open>Uuid::get_variant() == Variant::RFC4122\<close>\<close>
  host_utc_text :: "utc \<Rightarrow> string"
    \<comment> \<open>\<open>Serialize for DateTime<Utc>\<close>\<close>
  host_parse_utc :: "string \<Rightarrow> utc option"
    \<comment> \<open>\<open>Deserialize for DateTime<Utc>\<close>\<close>
  host_verifying_key :: "u8 list \<Rightarrow> u8 list"
    \<comment> \<open>\<open>SigningKey::verifying_key\<close>\<close>
  host_sign :: "u8 list \<Rightarrow> string \<Rightarrow> u8 list"
    \<comment> \<open>\<open>SigningKey::sign\<close>\<close>
  host_verify :: "u8 list \<Rightarrow> string \<Rightarrow> u8 list \<Rightarrow> bool"
    \<comment> \<open>\<open>VerifyingKey::verify\<close>\<close>

section \<open>Documented behaviour\<close>

text \<open>A JSON string literal opens with a quotation mark and delimits itself.\<close>

definition quote_law :: "host \<Rightarrow> bool" where
  "quote_law H \<longleftrightarrow>
     (\<forall>s. host_quote H s \<noteq> [] \<and> hd (host_quote H s) = CHR 0x22) \<and>
     (\<forall>s t x y. host_quote H s @ x = host_quote H t @ y \<longrightarrow> s = t \<and> x = y)"

text \<open>A signature has 64 bytes and verifies under the signer's public key.\<close>

definition sign_law :: "host \<Rightarrow> bool" where
  "sign_law H \<longleftrightarrow>
     (\<forall>k m. length (host_sign H k m) = 64 \<and>
            host_verify H (host_verifying_key H k) m (host_sign H k m))"

text \<open>A blake3 hash has 32 bytes.\<close>

definition hash_law :: "host \<Rightarrow> bool" where
  "hash_law H \<longleftrightarrow> (\<forall>m. length (host_blake3 H m) = 32)"

text \<open>So has a SHA-256 hash.\<close>

definition sha256_law :: "host \<Rightarrow> bool" where
  "sha256_law H \<longleftrightarrow> (\<forall>m. length (host_sha256 H m) = 32)"

text \<open>Identifiers and time stamps are read back from their text.\<close>

definition text_law :: "host \<Rightarrow> bool" where
  "text_law H \<longleftrightarrow>
     (\<forall>u. host_parse_uuid H (host_uuid_text H u) = Some u) \<and>
     (\<forall>t. host_parse_utc H (host_utc_text H t) = Some t)"

text \<open>Two different messages with the same blake3 hash.\<close>

definition blake3_collision :: "host \<Rightarrow> string \<Rightarrow> string \<Rightarrow> bool" where
  "blake3_collision H m m' \<longleftrightarrow> m \<noteq> m' \<and> host_blake3 H m = host_blake3 H m'"

section \<open>A concrete host\<close>

definition sample_escape :: "char \<Rightarrow> string" where
  "sample_escape c = (if c = CHR 0x22 \<or> c = CHR 0x5C then [CHR 0x5C, c] else [c])"

definition sample_quote :: "string \<Rightarrow> string" where
  "sample_quote s = CHR 0x22 # concat (map sample_escape s) @ [CHR 0x22]"

definition sample_signature :: "u8 list \<Rightarrow> u8 list" where
  "sample_signature k = take 64 (k @ replicate 64 0)"

definition sample_parse_int :: "string \<Rightarrow> int" where
  "sample_parse_int s =
     (case s of [] \<Rightarrow> 0 | c # r \<Rightarrow> if c = CHR ''-'' then - int (dec_value r) else int (dec_value s))"

definition sample_host :: host where
  "sample_host =
     \<lparr> host_blake3 = (\<lambda>m. of_nat (length m) # replicate 31 0),
       host_sha256 = (\<lambda>m. of_nat (length m) # replicate 31 0),
       host_quote = sample_quote,
       host_lower_exp = (\<lambda>_. ''1e0''),
       host_text_as_f64 = (\<lambda>_. None),
       host_uuid_text = (\<lambda>u. show_nat (unat u)),
       host_parse_uuid = (\<lambda>s. Some (of_nat (dec_value s))),
       host_uuid_error = (\<lambda>s. ''invalid uuid''),
       host_io_error = (\<lambda>s. ''not found''),
       host_hex_error = (\<lambda>s. ''not hexadecimal''),
       host_uuid_version = (\<lambda>u. unat (drop_bit 76 u) mod 16),
       host_uuid_rfc4122 = (\<lambda>u. unat (drop_bit 62 u) mod 4 = 2),
       host_utc_text = show_int,
       host_parse_utc = (\<lambda>s. Some (sample_parse_int s)),
       host_verifying_key = (\<lambda>k. k),
       host_sign = (\<lambda>k m. sample_signature k),
       host_verify = (\<lambda>pk m s. s = sample_signature pk) \<rparr>"

lemma sample_host_sel [simp]:
  "host_blake3 sample_host m = of_nat (length m) # replicate 31 0"
  "host_sha256 sample_host m = of_nat (length m) # replicate 31 0"
  "host_quote sample_host = sample_quote"
  "host_uuid_text sample_host u = show_nat (unat u)"
  "host_parse_uuid sample_host s = Some (of_nat (dec_value s))"
  "host_uuid_version sample_host u = unat (drop_bit 76 u) mod 16"
  "host_uuid_rfc4122 sample_host u = (unat (drop_bit 62 u) mod 4 = 2)"
  "host_utc_text sample_host t = show_int t"
  "host_parse_utc sample_host s = Some (sample_parse_int s)"
  "host_verifying_key sample_host k = k"
  "host_sign sample_host k m = sample_signature k"
  "host_verify sample_host k m g = (g = sample_signature k)"
  by (simp_all add: sample_host_def)

lemma sample_escape_append_eq:
  "sample_escape c @ x = sample_escape d @ y \<Longrightarrow> c = d \<and> x = y"
  by (simp add: sample_escape_def split: if_splits)

lemma sample_escape_not_quote: "sample_escape c @ x \<noteq> CHR 0x22 # y"
  by (simp add: sample_escape_def)

lemma sample_escaped_append_eq:
  assumes "concat (map sample_escape s) @ CHR 0x22 # x = concat (map sample_escape t) @ CHR 0x22 # y"
  shows "s = t \<and> x = y"
  using assms
proof (induction s arbitrary: t)
  case Nil
  then show ?case
    using sample_escape_not_quote [symmetric] by (cases t) simp_all
next
  case (Cons c s)
  then show ?case
  proof (cases t)
    case Nil
    with Cons.prems show ?thesis using sample_escape_not_quote by simp
  next
    case (Cons d t')
    with Cons.prems have "sample_escape c @ (concat (map sample_escape s) @ CHR 0x22 # x)
        = sample_escape d @ (concat (map sample_escape t') @ CHR 0x22 # y)" by simp
    from sample_escape_append_eq [OF this] have "c = d"
      and "concat (map sample_escape s) @ CHR 0x22 # x = concat (map sample_escape t') @ CHR 0x22 # y"
      by simp_all
    with Cons.IH Cons show ?thesis by simp
  qed
qed

lemma sample_quote_law: "quote_law sample_host"
  unfolding quote_law_def
proof (intro conjI allI impI)
  fix s t x y
  assume "host_quote sample_host s @ x = host_quote sample_host t @ y"
  then have "s = t \<and> x = y"
    by (intro sample_escaped_append_eq) (simp add: sample_quote_def)
  then show "s = t" and "x = y" by simp_all
qed (simp_all add: sample_quote_def)

lemma sample_sign_law: "sign_law sample_host"
  by (auto simp: sign_law_def sample_signature_def)

lemma sample_parse_int_show [simp]: "sample_parse_int (show_int i) = i"
proof (cases "i < 0")
  case True
  then show ?thesis by (simp add: sample_parse_int_def show_int_def)
next
  case False
  have "show_nat n = c # r \<Longrightarrow> c \<noteq> CHR ''-''" for n c r
    using show_nat_digits [of c n] by (auto simp: is_digit_char_def)
  moreover have "\<exists>c r. show_nat n = c # r" for n
    using show_nat_nonempty by (metis list.exhaust)
  ultimately obtain c r where "show_nat (nat i) = c # r" and "c \<noteq> CHR ''-''" by metis
  with False dec_value_show_nat [of "nat i"] show ?thesis
    by (simp add: sample_parse_int_def show_int_def)
qed

lemma sample_text_law: "text_law sample_host"
  by (simp add: text_law_def)

lemma sample_hash_law: "hash_law sample_host"
  by (simp add: hash_law_def)

lemma sample_sha256_law: "sha256_law sample_host"
  by (simp add: sha256_law_def)

section \<open>Identifiers of version 7\<close>

text \<open>\<open>uuid_is_v7\<close> of \<^verbatim>\<open>crates/proof-kernel/src/operator/common.rs\<close>.\<close>

definition uuid_is_v7 :: "host \<Rightarrow> uuid \<Rightarrow> bool" where
  "uuid_is_v7 H u = (host_uuid_version H u = 7 \<and> host_uuid_rfc4122 H u)"

definition sample_v7 :: "nat \<Rightarrow> uuid" where
  "sample_v7 k = of_nat (7 * 2 ^ 76 + 2 * 2 ^ 62 + k)"

lemma unat_sample_v7: "k < 100 \<Longrightarrow> unat (sample_v7 k) = 7 * 2 ^ 76 + 2 * 2 ^ 62 + k"
  unfolding sample_v7_def unsigned_of_nat of_nat_id by (rule take_bit_nat_eq_self) simp

lemma sample_v7_is_v7:
  assumes "k < 100"
  shows "uuid_is_v7 sample_host (sample_v7 k)"
proof -
  have "unat (drop_bit 76 (sample_v7 k)) = (7 * 2 ^ 76 + 2 * 2 ^ 62 + k) div 2 ^ 76"
    by (simp only: unat_drop_bit_eq unat_sample_v7 [OF assms]) (simp only: drop_bit_eq_div)
  also have "\<dots> = 7" using assms by (intro div_nat_eqI) simp_all
  finally have version: "unat (drop_bit 76 (sample_v7 k)) = 7" .
  have "unat (drop_bit 62 (sample_v7 k)) = (7 * 2 ^ 76 + 2 * 2 ^ 62 + k) div 2 ^ 62"
    by (simp only: unat_drop_bit_eq unat_sample_v7 [OF assms]) (simp only: drop_bit_eq_div)
  also have "\<dots> = 7 * 2 ^ 14 + 2" using assms by (intro div_nat_eqI) simp_all
  finally show ?thesis using version by (simp add: uuid_is_v7_def)
qed

lemma sample_v7_eq: "i < 100 \<Longrightarrow> j < 100 \<Longrightarrow> sample_v7 i = sample_v7 j \<longleftrightarrow> i = j"
  by (metis unat_sample_v7 add_left_cancel)

end
