(* ===== verification/Canonical.thy ===== *)
theory Canonical
  imports Host
begin

text \<open>
  Canonical JSON and domain-separated digests:
  \<^verbatim>\<open>crates/proof-kernel/src/canonical.rs\<close>.
\<close>

section \<open>Data\<close>

datatype ArtifactKind =
    KOperationInput | KOperationOutput | KProof | KDelegation | KApprovalRequest
  | KApprovalDecision | KAgentCheckpoint | KAgentEvent | KGeneric

fun artifact_kind_as_str :: "ArtifactKind \<Rightarrow> string" where
  "artifact_kind_as_str KOperationInput = ''operation-input''"
| "artifact_kind_as_str KOperationOutput = ''operation-output''"
| "artifact_kind_as_str KProof = ''proof''"
| "artifact_kind_as_str KDelegation = ''delegation''"
| "artifact_kind_as_str KApprovalRequest = ''approval-request''"
| "artifact_kind_as_str KApprovalDecision = ''approval-decision''"
| "artifact_kind_as_str KAgentCheckpoint = ''agent-checkpoint''"
| "artifact_kind_as_str KAgentEvent = ''agent-event''"
| "artifact_kind_as_str KGeneric = ''generic''"

datatype CanonicalizationError = NonFiniteNumber | NonExactNumber | UnsafeInteger

fun canonicalization_error_text :: "CanonicalizationError \<Rightarrow> string" where
  "canonicalization_error_text NonFiniteNumber = ''non-finite JSON number''"
| "canonicalization_error_text NonExactNumber = ''number cannot be represented exactly in canonical JSON''"
| "canonicalization_error_text UnsafeInteger = ''integer exceeds the canonical JSON safe range''"

text \<open>
  \<open>serde_json::Value\<close>. A number is a non-negative 64-bit integer, a negative one in two's
  complement, or a finite double given by its bits. An object is a \<open>BTreeMap\<close>: its
  entries in key order.
\<close>

datatype json_number = PosInt u64 | NegInt u64 | Float u64

datatype json =
    JNull
  | JBool bool
  | JNumber json_number
  | JString string
  | JArray "json list"
  | JObject "(string \<times> json) list"

text \<open>The \<open>json!\<close> macro and \<open>to_value\<close> insert the fields one by one.\<close>

definition jobject :: "(string \<times> json) list \<Rightarrow> json" where
  "jobject members = JObject (fold (\<lambda>(k, v). bt_insert k v) members [])"

definition json_get :: "json \<Rightarrow> string \<Rightarrow> json option" where
  "json_get v k = (case v of JObject kvs \<Rightarrow> map_of kvs k | _ \<Rightarrow> None)"

definition json_as_str :: "json \<Rightarrow> string option" where
  "json_as_str v = (case v of JString s \<Rightarrow> Some s | _ \<Rightarrow> None)"

section \<open>Canonical text\<close>

definition f64_is_finite :: "u64 \<Rightarrow> bool" where
  "f64_is_finite bits = (unat (drop_bit 52 bits) mod 2048 \<noteq> 2047)"

definition f64_is_zero :: "u64 \<Rightarrow> bool" where
  "f64_is_zero bits = (unat bits mod 2 ^ 63 = 0)"

definition trim_end_matches :: "char \<Rightarrow> string \<Rightarrow> string" where
  "trim_end_matches c s = rev (dropWhile (\<lambda>x. x = c) (rev s))"

text \<open>\<open>text.replace(".0e", "e")\<close>\<close>

fun replace_dot0e :: "string \<Rightarrow> string" where
  "replace_dot0e (a # b # c # s) =
     (if [a, b, c] = ''.0e'' then CHR ''e'' # replace_dot0e s else a # replace_dot0e (b # c # s))"
| "replace_dot0e s = s"

definition canonical_exact :: "host \<Rightarrow> u64 \<Rightarrow> string \<Rightarrow> string \<Rightarrow> CanonicalizationError + string" where
  "canonical_exact H bits text rendered =
     (if host_text_as_f64 H text = Some bits then Inr rendered else Inl NonExactNumber)"

definition canonical_float :: "host \<Rightarrow> u64 \<Rightarrow> CanonicalizationError + string" where
  "canonical_float H bits =
     (if \<not> f64_is_finite bits then Inl NonFiniteNumber
      else if f64_is_zero bits then Inr ''0''
      else
        let text = host_lower_exp H bits;
            is_e = (\<lambda>c. c = CHR ''e'' \<or> c = CHR ''E'') in
        if \<exists>c \<in> set text. is_e c then
          let mantissa = takeWhile (\<lambda>c. \<not> is_e c) text;
              exponent = dropWhile (\<lambda>c. \<not> is_e c) text;
              integer = trim_end_matches CHR ''.'' (trim_end_matches CHR ''0'' mantissa) in
          if exponent = ''e0''
             \<and> list_all (\<lambda>c. is_digit_char c \<or> c = CHR ''-'' \<or> c = CHR ''.'') mantissa
             \<and> integer \<noteq> []
          then Inr integer
          else
            let digits = dropWhile (\<lambda>c. c = CHR ''0'') (drop 1 exponent);
                exponent' = (if digits = [] then ''0'' else digits) in
            if exponent' = ''0'' \<and> ends_with mantissa ''.0''
            then canonical_exact H bits integer integer
            else
              let text' = mantissa @ ''e'' @ exponent' in
              canonical_exact H bits text' (replace_dot0e text')
        else canonical_exact H bits text (replace_dot0e text))"

text \<open>
  \<open>as_i64\<close> succeeds for negative integers and for non-negative ones below \<open>2^63\<close>;
  \<open>as_u64\<close> for every non-negative one. Either way the decimal value is printed.
\<close>

fun number_as_i64 :: "json_number \<Rightarrow> int option" where
  "number_as_i64 (PosInt n) = (if unat n < 2 ^ 63 then Some (int (unat n)) else None)"
| "number_as_i64 (NegInt n) = Some (sint n)"
| "number_as_i64 (Float b) = None"

fun number_as_u64 :: "json_number \<Rightarrow> nat option" where
  "number_as_u64 (PosInt n) = Some (unat n)"
| "number_as_u64 _ = None"

definition canonical_number :: "host \<Rightarrow> json_number \<Rightarrow> CanonicalizationError + string" where
  "canonical_number H n =
     (case number_as_i64 n of
        Some i \<Rightarrow> Inr (show_int i)
      | None \<Rightarrow>
          (case number_as_u64 n of
             Some u \<Rightarrow> Inr (show_nat u)
           | None \<Rightarrow> (case n of Float bits \<Rightarrow> canonical_float H bits | _ \<Rightarrow> Inl NonFiniteNumber)))"

definition canonical_member :: "host \<Rightarrow> string \<times> (CanonicalizationError + string)
    \<Rightarrow> CanonicalizationError + string" where
  "canonical_member H kr =
     (case snd kr of Inl e \<Rightarrow> Inl e | Inr v \<Rightarrow> Inr (host_quote H (fst kr) @ '':'' @ v))"

primrec canonical_value :: "host \<Rightarrow> json \<Rightarrow> CanonicalizationError + string" where
  "canonical_value H JNull = Inr ''null''"
| "canonical_value H (JBool b) = Inr (if b then ''true'' else ''false'')"
| "canonical_value H (JNumber n) = canonical_number H n"
| "canonical_value H (JString s) = Inr (host_quote H s)"
| "canonical_value H (JArray items) =
     bindR (collect_results (map (canonical_value H) items))
       (\<lambda>rendered. Inr (''['' @ intercalate '','' rendered @ '']''))"
| "canonical_value H (JObject members) =
     bindR (collect_results (map (canonical_member H)
              (sort_key fst (map (map_prod id (canonical_value H)) members))))
       (\<lambda>rendered. Inr (''{'' @ intercalate '','' rendered @ ''}''))"

definition canonicalize :: "host \<Rightarrow> json \<Rightarrow> CanonicalizationError + string" where
  "canonicalize H v = canonical_value H v"

section \<open>Digests\<close>

datatype ContentDigest = ContentDigest (digest_bytes: "u8 list")

definition DOMAIN_LABEL :: string where
  "DOMAIN_LABEL = ''Proof-Canonical-JSON-v1''"

definition digest_message :: "ArtifactKind \<Rightarrow> string \<Rightarrow> string" where
  "digest_message kind text =
     DOMAIN_LABEL @ [CHR 0x00] @ artifact_kind_as_str kind @ [CHR 0x00] @ text"

definition digest :: "host \<Rightarrow> ArtifactKind \<Rightarrow> string \<Rightarrow> ContentDigest" where
  "digest H kind text = ContentDigest (host_blake3 H (digest_message kind text))"

definition hex_char :: "nat \<Rightarrow> char" where
  "hex_char n = (if n < 10 then char_of (48 + n) else char_of (87 + n))"

definition digest_hex :: "ContentDigest \<Rightarrow> string" where
  "digest_hex d =
     concat (map (\<lambda>b. [hex_char (unat (drop_bit 4 b)), hex_char (unat (b AND 15))]) (digest_bytes d))"

definition is_lower_hex :: "char \<Rightarrow> bool" where
  "is_lower_hex c = (of_char c \<in> {48::nat..57} \<or> of_char c \<in> {97::nat..102})"

text \<open>\<open>char::to_digit(16).unwrap_or(0)\<close>\<close>

definition hex_value :: "char \<Rightarrow> nat" where
  "hex_value c =
     (let n = of_char c in
      if 48 \<le> n \<and> n \<le> 57 then n - 48
      else if 97 \<le> n \<and> n \<le> 102 then n - 87
      else if 65 \<le> n \<and> n \<le> 70 then n - 55 else 0)"

fun hex_pairs :: "string \<Rightarrow> u8 list" where
  "hex_pairs (a # b # s) =
     (push_bit 4 (of_nat (hex_value a)) OR of_nat (hex_value b)) # hex_pairs s"
| "hex_pairs _ = []"

definition deserialize_digest :: "string \<Rightarrow> ContentDigest option" where
  "deserialize_digest hex =
     (if length hex \<noteq> 64 \<or> \<not> list_all is_lower_hex hex then None
      else Some (ContentDigest (hex_pairs hex)))"

subsection \<open>Digest lemmas\<close>

lemma artifact_kind_as_str_no_nul: "CHR 0x00 \<notin> set (artifact_kind_as_str k)"
  by (cases k) simp_all

lemma artifact_kind_as_str_inj: "artifact_kind_as_str k = artifact_kind_as_str k' \<Longrightarrow> k = k'"
  by (cases k; cases k') simp_all

lemma takeWhile_neq_append: "c \<notin> set a \<Longrightarrow> takeWhile (\<lambda>z. z \<noteq> c) (a @ c # x) = a"
  by (induction a) auto

lemma nul_separated_eq:
  assumes "a @ c # x = b @ c # y" and "c \<notin> set a" and "c \<notin> set b"
  shows "a = b \<and> x = y"
  using assms takeWhile_neq_append [of c a x] takeWhile_neq_append [of c b y] by auto

lemma digest_message_inj:
  assumes "digest_message k s = digest_message k' s'"
  shows "k = k' \<and> s = s'"
proof -
  from assms have
    "artifact_kind_as_str k @ CHR 0x00 # s = artifact_kind_as_str k' @ CHR 0x00 # s'"
    by (simp add: digest_message_def)
  from nul_separated_eq [OF this artifact_kind_as_str_no_nul artifact_kind_as_str_no_nul]
  show ?thesis by (auto intro: artifact_kind_as_str_inj)
qed

lemma hex_value_hex_char: "n < 16 \<Longrightarrow> hex_value (hex_char n) = n"
  by (simp add: hex_value_def hex_char_def Let_def)

lemma is_lower_hex_hex_char: "n < 16 \<Longrightarrow> is_lower_hex (hex_char n)"
  by (simp add: is_lower_hex_def hex_char_def)

lemma hex_char_hex_value: "is_lower_hex c \<Longrightarrow> hex_char (hex_value c) = c"
  by (auto simp: is_lower_hex_def hex_value_def hex_char_def Let_def)

lemma hex_value_less: "hex_value c < 16"
  by (auto simp: hex_value_def Let_def)

lemma byte_high_less: "unat (drop_bit 4 b) < 16" for b :: u8
  unfolding unat_drop_bit_eq
  using unsigned_less [of b, where ?'a = nat] by (simp add: drop_bit_eq_div)

lemma byte_low_less: "unat (b AND 15) < 16" for b :: u8
proof -
  have "unat (b AND 15) \<le> unat (15 :: u8)"
    by (rule word_and_le1 [THEN word_le_nat_alt [THEN iffD1]])
  then show ?thesis by simp
qed

lemma byte_split: "push_bit 4 (drop_bit 4 b) OR (b AND 15) = b" for b :: u8
proof -
  have "(15 :: u8) = mask 4" by (simp add: mask_eq_exp_minus_1)
  then show ?thesis
    by (simp add: bit_eq_iff bit_simps) (auto simp: not_less)
qed

lemma length_hex_bytes: "length (digest_hex d) = 2 * length (digest_bytes d)"
  unfolding digest_hex_def by (induction "digest_bytes d" arbitrary: d) (auto simp: length_concat comp_def sum_list_triv)

lemma hex_pairs_hex: "hex_pairs (digest_hex (ContentDigest bs)) = bs"
  by (induction bs)
    (simp_all add: digest_hex_def hex_value_hex_char byte_high_less byte_low_less byte_split)

lemma list_all_hex: "list_all is_lower_hex (digest_hex d)"
  by (auto simp: digest_hex_def list_all_iff is_lower_hex_hex_char byte_high_less byte_low_less)

lemma nibble_bit: "n < 16 \<Longrightarrow> 4 \<le> i \<Longrightarrow> \<not> bit n i" for n :: nat
proof -
  assume "n < 16" and "4 \<le> i"
  then have "n < 2 ^ i" using power_increasing [of 4 i "2 :: nat"] by simp
  then show ?thesis by (simp add: bit_iff_odd)
qed

lemma byte_join:
  assumes "h < 16" and "l < 16"
  shows "unat (drop_bit 4 (push_bit 4 (of_nat h) OR of_nat l :: u8)) = h"
    and "unat ((push_bit 4 (of_nat h) OR of_nat l :: u8) AND 15) = l"
proof -
  have "drop_bit 4 (push_bit 4 (of_nat h) OR of_nat l :: u8) = of_nat h"
    using assms by (auto simp: bit_eq_iff bit_simps not_less nibble_bit dest: nibble_bit)
  moreover have "(push_bit 4 (of_nat h) OR of_nat l :: u8) AND mask 4 = of_nat l"
    using assms by (auto simp: bit_eq_iff bit_simps not_less nibble_bit dest: nibble_bit)
  ultimately show "unat (drop_bit 4 (push_bit 4 (of_nat h) OR of_nat l :: u8)) = h"
    and "unat ((push_bit 4 (of_nat h) OR of_nat l :: u8) AND 15) = l"
    using assms by (simp_all add: mask_eq_exp_minus_1 unat_of_nat)
qed

lemma hex_hex_pairs:
  "even (length s) \<Longrightarrow> list_all is_lower_hex s \<Longrightarrow> digest_hex (ContentDigest (hex_pairs s)) = s"
  by (induction s rule: hex_pairs.induct)
    (auto simp: digest_hex_def byte_join hex_value_less hex_char_hex_value simp del: drop_bit_or)

lemma length_hex_pairs: "even (length s) \<Longrightarrow> length (hex_pairs s) = length s div 2"
  by (induction s rule: hex_pairs.induct) auto

section \<open>Well-formed values\<close>

text \<open>
  The representation invariant of \<open>serde_json::Value\<close>: the keys of an object are in
  strictly ascending order, and a negative integer is negative.
\<close>

fun number_ok :: "json_number \<Rightarrow> bool" where
  "number_ok (NegInt n) = (sint n < 0)"
| "number_ok _ = True"

fun is_float :: "json_number \<Rightarrow> bool" where
  "is_float (Float _) = True"
| "is_float _ = False"

primrec wf_json :: "json \<Rightarrow> bool" where
  "wf_json JNull = True"
| "wf_json (JBool b) = True"
| "wf_json (JNumber n) = number_ok n"
| "wf_json (JString s) = True"
| "wf_json (JArray items) = list_all id (map wf_json items)"
| "wf_json (JObject members) = (bt_ok members \<and> list_all snd (map (map_prod id wf_json) members))"

primrec float_free :: "json \<Rightarrow> bool" where
  "float_free JNull = True"
| "float_free (JBool b) = True"
| "float_free (JNumber n) = (\<not> is_float n)"
| "float_free (JString s) = True"
| "float_free (JArray items) = list_all id (map float_free items)"
| "float_free (JObject members) = list_all snd (map (map_prod id float_free) members)"

text \<open>The text of a well-formed value without floats, as a total function.\<close>

fun number_int :: "json_number \<Rightarrow> int" where
  "number_int (PosInt n) = int (unat n)"
| "number_int (NegInt n) = sint n"
| "number_int (Float _) = 0"

definition render_member :: "host \<Rightarrow> string \<times> string \<Rightarrow> string" where
  "render_member H kt = host_quote H (fst kt) @ '':'' @ snd kt"

primrec render :: "host \<Rightarrow> json \<Rightarrow> string" where
  "render H JNull = ''null''"
| "render H (JBool b) = (if b then ''true'' else ''false'')"
| "render H (JNumber n) = show_int (number_int n)"
| "render H (JString s) = host_quote H s"
| "render H (JArray items) = ''['' @ intercalate '','' (map (render H) items) @ '']''"
| "render H (JObject members) =
     ''{'' @ intercalate '','' (map (render_member H) (map (map_prod id (render H)) members)) @ ''}''"

lemma canonical_number_exact:
  "number_ok n \<Longrightarrow> \<not> is_float n \<Longrightarrow> canonical_number H n = Inr (show_int (number_int n))"
  by (cases n) (auto simp: canonical_number_def show_int_def)

lemma sort_key_bt_ok:
  assumes "bt_ok members"
  shows "sort_key fst (map (map_prod id f) members) = map (map_prod id f) members"
proof (rule sort_key_id_if_sorted)
  have "map fst (map (map_prod id f) members) = map fst members" by (simp add: comp_def)
  then show "sorted (map fst (map (map_prod id f) members))"
    using assms by (simp only: bt_ok_def strict_sorted_iff)
qed

lemma canonical_value_render:
  "wf_json v \<Longrightarrow> float_free v \<Longrightarrow> canonical_value H v = Inr (render H v)"
proof (induction v)
  case (JNumber n)
  then show ?case by (simp add: canonical_number_exact)
next
  case (JArray items)
  then have "map (canonical_value H) items = map Inr (map (render H) items)"
    by (auto simp: list_all_iff)
  then show ?case by (simp only: canonical_value.simps collect_results_Inr bindR_simps render.simps)
next
  case (JObject members)
  then have v: "canonical_value H (snd m) = Inr (render H (snd m))" if "m \<in> set members" for m
    using that by (cases m) (fastforce simp: list_all_iff)
  have "map (canonical_member H) (map (map_prod id (canonical_value H)) members)
      = map Inr (map (render_member H) (map (map_prod id (render H)) members))"
    using v by (auto simp: canonical_member_def render_member_def)
  with JObject.prems show ?case
    by (simp only: canonical_value.simps wf_json.simps sort_key_bt_ok collect_results_Inr
        bindR_simps render.simps)
qed simp_all

text \<open>Objects built field by field.\<close>

lemma map_of_fold_bt_insert:
  "map_of (fold (\<lambda>(k, v). bt_insert k v) members m) = map_of m ++ map_of (rev members)"
  by (induction members arbitrary: m) (auto simp: map_add_def fun_eq_iff split: option.splits)

lemma json_get_jobject [simp]: "json_get (jobject members) k = map_of (rev members) k"
  by (simp add: json_get_def jobject_def map_of_fold_bt_insert)

lemma bt_ok_fold_bt_insert: "bt_ok m \<Longrightarrow> bt_ok (fold (\<lambda>(k, v). bt_insert k v) members m)"
  by (induction members arbitrary: m) auto

lemma snd_set_bt_insert: "snd ` set (bt_insert k v m) \<subseteq> insert v (snd ` set m)"
  by (induction m) auto

lemma snd_set_fold_bt_insert:
  "snd ` set (fold (\<lambda>(k, v). bt_insert k v) members m) \<subseteq> snd ` set members \<union> snd ` set m"
proof (induction members arbitrary: m)
  case (Cons e members)
  show ?case
    using Cons.IH [of "bt_insert (fst e) (snd e) m"] snd_set_bt_insert [of "fst e" "snd e" m]
    by (auto simp: case_prod_unfold)
qed simp

lemma wf_jobject:
  assumes "\<forall>v \<in> snd ` set members. wf_json v"
  shows "wf_json (jobject members)"
  using assms snd_set_fold_bt_insert [of members "[]"] bt_ok_fold_bt_insert [of "[]" members]
  by (fastforce simp: jobject_def list_all_iff)

lemma float_free_jobject:
  assumes "\<forall>v \<in> snd ` set members. float_free v"
  shows "float_free (jobject members)"
  using assms snd_set_fold_bt_insert [of members "[]"]
  by (fastforce simp: jobject_def list_all_iff)

section \<open>Unique readability\<close>

definition delimited :: "string \<Rightarrow> bool" where
  "delimited x \<longleftrightarrow> x = [] \<or> hd x \<in> {CHR '','', CHR '']'', CHR ''}''}"

fun json_shape :: "json \<Rightarrow> nat" where
  "json_shape JNull = 0"
| "json_shape (JBool _) = 1"
| "json_shape (JNumber _) = 2"
| "json_shape (JString _) = 3"
| "json_shape (JArray _) = 4"
| "json_shape (JObject _) = 5"

definition lead_shape :: "char \<Rightarrow> nat" where
  "lead_shape c =
     (if c = CHR ''n'' then 0 else if c = CHR ''t'' \<or> c = CHR ''f'' then 1
      else if is_digit_char c \<or> c = CHR ''-'' then 2
      else if c = CHR 0x22 then 3 else if c = CHR ''['' then 4
      else if c = CHR ''{'' then 5 else 6)"

lemma hd_show_nat: "is_digit_char (hd (show_nat n))"
  using show_nat_digits [of "hd (show_nat n)" n] by simp

lemma show_int_nonempty [simp]: "show_int i \<noteq> []"
  by (simp add: show_int_def)

lemma lead_shape_digit: "is_digit_char c \<Longrightarrow> lead_shape c = 2"
  by (auto simp: lead_shape_def is_digit_char_def)

lemma lead_shape_show_int: "lead_shape (hd (show_int i)) = 2"
  by (simp add: show_int_def hd_show_nat lead_shape_digit) (simp add: lead_shape_def)

lemma lead_shape_const [simp]:
  "lead_shape CHR ''n'' = 0" "lead_shape CHR ''t'' = 1" "lead_shape CHR ''f'' = 1"
  "lead_shape CHR 0x22 = 3" "lead_shape CHR ''['' = 4" "lead_shape CHR ''{'' = 5"
  "lead_shape CHR '','' = 6" "lead_shape CHR '']'' = 6" "lead_shape CHR ''}'' = 6"
  by (simp_all add: lead_shape_def is_digit_char_def)

lemma quote_lead:
  assumes "quote_law H"
  shows "host_quote H s \<noteq> []" and "hd (host_quote H s) = CHR 0x22"
  using assms unfolding quote_law_def by blast+

lemma quote_readable:
  "quote_law H \<Longrightarrow> host_quote H s @ x = host_quote H t @ y \<Longrightarrow> s = t \<and> x = y"
  unfolding quote_law_def by blast

lemma render_lead:
  assumes "quote_law H"
  shows "render H v \<noteq> []" and "lead_shape (hd (render H v)) = json_shape v"
  by (cases v; simp add: quote_lead [OF assms] lead_shape_show_int)+

lemma same_shape:
  assumes "quote_law H" and "render H v @ x = render H w @ y"
  shows "json_shape v = json_shape w"
proof -
  have "hd (render H v) = hd (render H w)"
    using arg_cong [where f = hd, OF assms(2)] render_lead(1) [OF assms(1)] by simp
  then show ?thesis using render_lead(2) [OF assms(1)] by metis
qed

text \<open>Lists of self-delimiting texts, separated by commas and closed by \<open>c\<close>.\<close>

definition readable_in :: "('a \<Rightarrow> string) \<Rightarrow> 'a set \<Rightarrow> 'a set \<Rightarrow> bool" where
  "readable_in r A B \<longleftrightarrow>
     (\<forall>a \<in> A. \<forall>b \<in> B. \<forall>x y. delimited x \<longrightarrow> delimited y \<longrightarrow> r a @ x = r b @ y \<longrightarrow> a = b \<and> x = y)"

lemma intercalate_Cons: "intercalate [c] (s # ss) = s @ concat (map ((#) c) ss)"
  by (induction ss arbitrary: s) simp_all

lemma delimited_tail: "c \<in> {CHR '']'', CHR ''}''} \<Longrightarrow> delimited (concat (map ((#) CHR '','') ss) @ c # x)"
  by (cases ss) (auto simp: delimited_def)

lemma readable_tail:
  assumes "readable_in r (set as) B" and "set bs \<subseteq> B" and "c \<in> {CHR '']'', CHR ''}''}"
    and "concat (map ((#) CHR '','') (map r as)) @ c # x = concat (map ((#) CHR '','') (map r bs)) @ c # y"
  shows "as = bs \<and> x = y"
  using assms
proof (induction as arbitrary: bs)
  case Nil
  then show ?case by (cases bs) auto
next
  case (Cons a as)
  then obtain b bs' where bs: "bs = b # bs'" by (cases bs) auto
  let ?t = "\<lambda>l z. concat (map ((#) CHR '','') (map r l)) @ c # z"
  have "r a @ ?t as x = r b @ ?t bs' y" using Cons.prems(4) bs by simp
  moreover have "delimited (?t as x)" and "delimited (?t bs' y)"
    using Cons.prems(3) by (rule delimited_tail)+
  moreover have "b \<in> B" using Cons.prems(2) bs by simp
  ultimately have "a = b" and "?t as x = ?t bs' y"
    using Cons.prems(1) unfolding readable_in_def by (metis list.set_intros(1))+
  moreover have "readable_in r (set as) B" using Cons.prems(1) by (simp add: readable_in_def)
  ultimately show ?case using Cons.IH [of bs'] Cons.prems(2,3) bs by simp
qed

lemma readable_list:
  assumes r: "readable_in r (set as) B" and bs: "set bs \<subseteq> B" and c: "c \<in> {CHR '']'', CHR ''}''}"
    and lead: "\<And>a. r a \<noteq> [] \<and> hd (r a) \<noteq> c"
    and eq: "intercalate '','' (map r as) @ c # x = intercalate '','' (map r bs) @ c # y"
  shows "as = bs \<and> x = y"
proof (cases as; cases bs)
  fix a as' b bs'
  assume l: "as = a # as'" "bs = b # bs'"
  let ?t = "\<lambda>l z. concat (map ((#) CHR '','') (map r l)) @ c # z"
  have "r a @ ?t as' x = r b @ ?t bs' y" using eq l by (simp add: intercalate_Cons)
  moreover have "delimited (?t as' x)" and "delimited (?t bs' y)"
    using c by (rule delimited_tail)+
  moreover have "b \<in> B" using bs l by simp
  ultimately have "a = b" and t: "?t as' x = ?t bs' y"
    using r l unfolding readable_in_def by (metis list.set_intros(1))+
  moreover have "as' = bs' \<and> x = y"
    using r bs l by (intro readable_tail [OF _ _ c t, of B]) (simp_all add: readable_in_def)
  ultimately show ?thesis using l by simp
next
  fix a as'
  assume "as = a # as'" "bs = []"
  with eq lead [of a] show ?thesis by (cases "r a") (auto simp: intercalate_Cons)
next
  fix b bs'
  assume "as = []" "bs = b # bs'"
  with eq lead [of b] show ?thesis by (cases "r b") (auto simp: intercalate_Cons)
qed (use eq in simp)

lemma show_int_readable:
  assumes "show_int i @ x = show_int j @ y"
    and "x = [] \<or> \<not> is_digit_char (hd x)" and "y = [] \<or> \<not> is_digit_char (hd y)"
  shows "i = j \<and> x = y"
proof -
  have minus: "show_nat n @ z \<noteq> CHR ''-'' # z'" for n z z'
    using hd_show_nat [of n] by (cases "show_nat n") (auto simp: is_digit_char_def)
  note nat = show_nat_append_eq [OF _ assms(2,3)]
  consider "i < 0" "j < 0" | "i < 0" "\<not> j < 0" | "\<not> i < 0" "j < 0" | "\<not> i < 0" "\<not> j < 0"
    by blast
  then show ?thesis
  proof cases
    case 1
    with assms(1) nat [of "nat (- i)" "nat (- j)"] show ?thesis by (simp add: show_int_def eq_nat_nat_iff)
  next
    case 2
    with assms(1) minus [symmetric] show ?thesis by (simp add: show_int_def)
  next
    case 3
    with assms(1) minus show ?thesis by (simp add: show_int_def)
  next
    case 4
    with assms(1) nat [of "nat i" "nat j"] show ?thesis by (simp add: show_int_def eq_nat_nat_iff)
  qed
qed

lemma delimited_not_digit: "delimited x \<Longrightarrow> x = [] \<or> \<not> is_digit_char (hd x)"
  by (auto simp: delimited_def is_digit_char_def)

lemma number_of_number_int:
  assumes "number_ok n" and "\<not> is_float n"
  shows "n = (if number_int n < 0 then NegInt (word_of_int (number_int n))
              else PosInt (word_of_int (number_int n)))"
  using assms by (cases n) simp_all

lemma number_int_inj:
  assumes "number_ok m" and "number_ok n" and "\<not> is_float m" and "\<not> is_float n"
    and "number_int m = number_int n"
  shows "m = n"
  using number_of_number_int [OF assms(1,3)] number_of_number_int [OF assms(2,4)] assms(5)
  by (simp only:)

lemma readable_members:
  assumes q: "quote_law H" and r: "readable_in (render H) (snd ` A) (snd ` B)"
  shows "readable_in (render_member H \<circ> map_prod id (render H)) A B"
  unfolding readable_in_def
proof (intro ballI allI impI)
  fix a b x y
  assume a: "a \<in> A" "b \<in> B" "delimited x" "delimited y"
    and eq: "(render_member H \<circ> map_prod id (render H)) a @ x = (render_member H \<circ> map_prod id (render H)) b @ y"
  from eq have "host_quote H (fst a) @ ('':'' @ render H (snd a) @ x)
      = host_quote H (fst b) @ ('':'' @ render H (snd b) @ y)"
    by (simp add: render_member_def)
  from quote_readable [OF q this] have "fst a = fst b" and "render H (snd a) @ x = render H (snd b) @ y"
    by simp_all
  moreover from this(2) a have "snd a = snd b \<and> x = y" using r unfolding readable_in_def by blast
  ultimately show "a = b \<and> x = y" by (simp add: prod_eq_iff)
qed

abbreviation exact_json :: "json set" where
  "exact_json \<equiv> {v. wf_json v \<and> float_free v}"

lemma exact_json_array: "JArray items \<in> exact_json \<longleftrightarrow> set items \<subseteq> exact_json"
  by (auto simp: list_all_iff)

lemma exact_json_object:
  "JObject members \<in> exact_json \<longleftrightarrow> bt_ok members \<and> snd ` set members \<subseteq> exact_json"
  by (auto simp: list_all_iff)

lemma readable_inD:
  assumes "readable_in r A B" and "a \<in> A" and "b \<in> B" and "delimited x" and "delimited y"
    and "r a @ x = r b @ y"
  shows "a = b \<and> x = y"
  using assms unfolding readable_in_def by blast

lemma member_lead:
  assumes "quote_law H"
  shows "render_member H m \<noteq> []" and "hd (render_member H m) = CHR 0x22"
  by (simp_all add: render_member_def quote_lead [OF assms])

lemma render_lead_not_close: "quote_law H \<Longrightarrow> render H v \<noteq> [] \<and> hd (render H v) \<noteq> CHR '']''"
  using render_lead [of H v] by (cases v) auto

lemma render_readable:
  assumes q: "quote_law H" and "v \<in> exact_json" and "w \<in> exact_json"
    and "delimited x" and "delimited y" and "render H v @ x = render H w @ y"
  shows "v = w \<and> x = y"
  using assms(2-) same_shape [OF q assms(6)]
proof (induction v arbitrary: w x y)
  case JNull
  then show ?case by (cases w) simp_all
next
  case (JBool b)
  then show ?case by (cases w) (simp_all split: if_splits)
next
  case (JNumber m)
  then obtain n where w: "w = JNumber n" by (cases w) simp_all
  with JNumber show ?case
    using show_int_readable [of "number_int m" x "number_int n" y] number_int_inj [of m n]
    by (simp add: delimited_not_digit)
next
  case (JString s)
  then obtain t where w: "w = JString t" by (cases w) simp_all
  with JString quote_readable [OF q, of s x t y] show ?case by simp
next
  case (JArray items)
  then obtain items' where w: "w = JArray items'" by (cases w) simp_all
  have "readable_in (render H) (set items) exact_json"
    unfolding readable_in_def
    using JArray.IH JArray.prems(1) same_shape [OF q] by (metis exact_json_array subsetD)
  moreover have "set items' \<subseteq> exact_json" using JArray.prems(2) w by (simp only: exact_json_array)
  ultimately have "items = items' \<and> x = y"
    using JArray.prems(5) w render_lead_not_close [OF q]
    by (intro readable_list [of "render H" items exact_json items' "CHR '']''"]) simp_all
  with w show ?case by simp
next
  case (JObject members)
  then obtain members' where w: "w = JObject members'" by (cases w) simp_all
  let ?r = "render_member H \<circ> map_prod id (render H)"
  have "readable_in (render H) (snd ` set members) (snd ` set members')"
    unfolding readable_in_def
  proof (intro ballI allI impI)
    fix a b x y
    assume "a \<in> snd ` set members" and "b \<in> snd ` set members'" and d: "delimited x" "delimited y"
      and eq: "render H a @ x = render H b @ y"
    then obtain k where m: "(k, a) \<in> set members" by auto
    have "a \<in> exact_json" "b \<in> exact_json"
      using JObject.prems(1,2) w m \<open>b \<in> snd ` set members'\<close> by (auto simp only: exact_json_object snd_conv)
    then show "a = b \<and> x = y"
      using m d eq same_shape [OF q eq] by (intro JObject.IH [of "(k, a)" a]) simp_all
  qed
  then have "readable_in ?r (set members) (set members')" by (rule readable_members [OF q])
  then have "members = members' \<and> x = y"
    using JObject.prems(5) w member_lead [OF q]
    by (intro readable_list [of ?r members "set members'" members' "CHR ''}''"]) simp_all
  with w show ?case by simp
qed

text \<open>The form in which the components use it.\<close>

lemma canonicalize_exact_ok:
  "wf_json v \<Longrightarrow> float_free v \<Longrightarrow> canonicalize H v = Inr (render H v)"
  by (simp add: canonicalize_def canonical_value_render)

lemma render_inj:
  assumes "quote_law H" and "wf_json v" and "float_free v" and "wf_json w" and "float_free w"
    and "render H v = render H w"
  shows "v = w"
  using render_readable [OF assms(1), of v w "[]" "[]"] assms(2-) by (simp add: delimited_def)

section \<open>Properties\<close>

text \<open>
  C1: Canonicalization is total and injective on values without floats. Two well-formed
  values have the same canonical text only if they are the same value, so a digest or a
  signature over the text determines the value.
\<close>

theorem canonicalize_injective:
  assumes "quote_law H" and "wf_json v" and "float_free v" and "wf_json w" and "float_free w"
  shows "is_ok (canonicalize H v) \<and> (canonicalize H v = canonicalize H w \<longleftrightarrow> v = w)"
  using render_readable [OF assms(1), of v w "[]" "[]"] assms
  by (auto simp: canonicalize_def canonical_value_render delimited_def)

theorem canonicalize_injective_witness:
  "is_ok (canonicalize sample_host (jobject [(''b'', JNull), (''a'', JArray [JBool True])])) \<and>
   canonicalize sample_host (jobject [(''b'', JNull), (''a'', JArray [JBool True])])
     \<noteq> canonicalize sample_host (JArray [JNull])"
  using canonicalize_injective [OF sample_quote_law,
      of "jobject [(''b'', JNull), (''a'', JArray [JBool True])]" "JArray [JNull]"]
  by (simp add: jobject_def bt_ok_def)



text \<open>
  The canonical text of an object does not depend on the order in which its members are
  listed, whatever the members are, errors included.
\<close>

theorem canonicalize_key_order:
  assumes "distinct (map fst members)" and "distinct (map fst members')"
    and "set members = set members'"
  shows "canonicalize H (JObject members) = canonicalize H (JObject members')"
proof -
  let ?f = "map (map_prod id (canonical_value H))"
  have keys: "map fst (?f ms) = map fst ms" for ms by (simp add: comp_def)
  have "sort_key fst (?f members) = sort_key fst (?f members')"
  proof (rule map_sorted_distinct_set_unique)
    have d: "distinct (map fst (?f members))" "distinct (map fst (?f members'))"
      using assms(1,2) by (simp_all only: keys)
    then show "distinct (map fst (sort_key fst (?f members)))"
      and "distinct (map fst (sort_key fst (?f members')))"
      by (simp_all only: distinct_map set_sort distinct_sort)
    have same: "set (?f members) = set (?f members')" using assms(3) by simp
    show "inj_on fst (set (sort_key fst (?f members)) \<union> set (sort_key fst (?f members')))"
      using d(1) by (simp only: distinct_map set_sort same Un_absorb)
  qed (use assms(3) in simp_all)
  then show ?thesis by (simp only: canonicalize_def canonical_value.simps)
qed

theorem canonicalize_key_order_witness:
  "canonicalize sample_host (JObject [(''b'', JNull), (''a'', JBool True)])
     = canonicalize sample_host (JObject [(''a'', JBool True), (''b'', JNull)])"
  by (rule canonicalize_key_order) auto

text \<open>
  C3: Reading a digest accepts exactly the texts that printing produces: a text is read as
  \<open>d\<close> if and only if \<open>d\<close> has 32 bytes and the text is its lower-case hexadecimal form.
\<close>

theorem digest_hex_roundtrip:
  "deserialize_digest s = Some d \<longleftrightarrow> length (digest_bytes d) = 32 \<and> digest_hex d = s"
proof
  assume "deserialize_digest s = Some d"
  then show "length (digest_bytes d) = 32 \<and> digest_hex d = s"
    by (auto simp: deserialize_digest_def length_hex_pairs hex_hex_pairs split: if_splits)
next
  assume "length (digest_bytes d) = 32 \<and> digest_hex d = s"
  then show "deserialize_digest s = Some d"
    using hex_pairs_hex [of "digest_bytes d"] list_all_hex [of d] length_hex_bytes [of d]
    by (auto simp: deserialize_digest_def)
qed

end
