(* ===== verification/Evidence.thy ===== *)
theory Evidence
  imports Canonical
begin

text \<open>
  Identities and signed evidence envelopes:
  \<^verbatim>\<open>crates/proof-kernel/src/identity.rs\<close> and \<^verbatim>\<open>crates/proof-kernel/src/evidence.rs\<close>.
  Keys and signatures are byte strings; the Ed25519 functions are those of the host.
\<close>

named_theorems json_get_simps \<open>reading the members of a serialized record\<close>

section \<open>Values as JSON\<close>

text \<open>The \<open>Serialize\<close> instances that the signed records use.\<close>

definition json_uuid :: "host \<Rightarrow> uuid \<Rightarrow> json" where
  "json_uuid H u = JString (host_uuid_text H u)"

definition json_utc :: "host \<Rightarrow> utc \<Rightarrow> json" where
  "json_utc H t = JString (host_utc_text H t)"

definition json_digest :: "ContentDigest \<Rightarrow> json" where
  "json_digest d = JString (digest_hex d)"

definition json_bytes :: "u8 list \<Rightarrow> json" where
  "json_bytes bs = JArray (map (\<lambda>b. JNumber (PosInt (ucast b))) bs)"

text \<open>\<open>#[serde(skip_serializing_if = "Option::is_none")]\<close>\<close>

definition json_opt_field :: "string \<Rightarrow> ('a \<Rightarrow> json) \<Rightarrow> 'a option \<Rightarrow> (string \<times> json) list" where
  "json_opt_field k f x = (case x of None \<Rightarrow> [] | Some v \<Rightarrow> [(k, f v)])"

definition canonicalize_serialized :: "host \<Rightarrow> json \<Rightarrow> CanonicalizationError + string" where
  "canonicalize_serialized H v = canonicalize H v"

section \<open>Identities\<close>

datatype PrincipalKind = Human | Agent | Service

record Principal =
  principal_id :: uuid
  principal_kind :: PrincipalKind
  principal_public_key :: "u8 list"
  principal_created_at :: utc

record Keypair =
  keypair_principal_id :: uuid
  keypair_kind :: PrincipalKind
  keypair_created_at :: utc
  keypair_signing_key :: "u8 list"

datatype IdentityError = IdentityError

text \<open>The fresh identifier, the time and the key bytes are arguments.\<close>

definition generate_keypair_for :: "uuid \<Rightarrow> utc \<Rightarrow> u8 list \<Rightarrow> PrincipalKind \<Rightarrow> Keypair" where
  "generate_keypair_for fresh_id now key kind =
     \<lparr> keypair_principal_id = fresh_id, keypair_kind = kind,
       keypair_created_at = now, keypair_signing_key = key \<rparr>"

definition generate_keypair :: "uuid \<Rightarrow> utc \<Rightarrow> u8 list \<Rightarrow> Keypair" where
  "generate_keypair fresh_id now key = generate_keypair_for fresh_id now key Agent"

definition principal_from_keypair :: "host \<Rightarrow> Keypair \<Rightarrow> Principal" where
  "principal_from_keypair H kp =
     \<lparr> principal_id = keypair_principal_id kp, principal_kind = keypair_kind kp,
       principal_public_key = host_verifying_key H (keypair_signing_key kp),
       principal_created_at = keypair_created_at kp \<rparr>"

definition identity_sign :: "host \<Rightarrow> Keypair \<Rightarrow> string \<Rightarrow> u8 list" where
  "identity_sign H kp message = host_sign H (keypair_signing_key kp) message"

definition identity_verify :: "host \<Rightarrow> u8 list \<Rightarrow> string \<Rightarrow> u8 list \<Rightarrow> IdentityError + unit" where
  "identity_verify H public_key message signature =
     (if host_verify H public_key message signature then Inr () else Inl IdentityError)"

section \<open>Evidence\<close>

record ProofBody =
  body_id :: uuid
  body_actor :: uuid
  body_delegation_id :: "uuid option"
  body_operation :: string
  body_input_digest :: ContentDigest
  body_output_digest :: ContentDigest
  body_timestamp :: utc
  body_expires_at :: "utc option"

record Proof =
  proof_body :: ProofBody
  proof_signature :: "u8 list"

datatype ProofError = InvalidSignature | ActorMismatch | ProofCanonicalization

definition proof_body_json :: "host \<Rightarrow> ProofBody \<Rightarrow> json" where
  "proof_body_json H b = jobject
     ([(''id'', json_uuid H (body_id b)), (''actor'', json_uuid H (body_actor b)),
       (''operation'', JString (body_operation b)),
       (''input_digest'', json_digest (body_input_digest b)),
       (''output_digest'', json_digest (body_output_digest b)),
       (''timestamp'', json_utc H (body_timestamp b))]
      @ json_opt_field ''delegation_id'' (json_uuid H) (body_delegation_id b)
      @ json_opt_field ''expires_at'' (json_utc H) (body_expires_at b))"

definition proof_json :: "host \<Rightarrow> Proof \<Rightarrow> json" where
  "proof_json H p = jobject
     [(''body'', proof_body_json H (proof_body p)), (''signature'', json_bytes (proof_signature p))]"

definition proof_is_expired :: "Proof \<Rightarrow> utc \<Rightarrow> bool" where
  "proof_is_expired p now =
     (case body_expires_at (proof_body p) of None \<Rightarrow> False | Some e \<Rightarrow> e \<le> now)"

definition proof_new :: "uuid \<Rightarrow> uuid \<Rightarrow> uuid option \<Rightarrow> string \<Rightarrow> ContentDigest \<Rightarrow> ContentDigest
    \<Rightarrow> utc \<Rightarrow> Proof" where
  "proof_new pid actor delegation operation input_digest output_digest timestamp =
     \<lparr> proof_body =
         \<lparr> body_id = pid, body_actor = actor, body_delegation_id = delegation,
           body_operation = operation, body_input_digest = input_digest,
           body_output_digest = output_digest, body_timestamp = timestamp,
           body_expires_at = None \<rparr>,
       proof_signature = replicate 64 0 \<rparr>"

definition signing_payload :: "host \<Rightarrow> Proof \<Rightarrow> ProofError + string" where
  "signing_payload H p =
     map_err (\<lambda>_. ProofCanonicalization) (canonicalize_serialized H (proof_body_json H (proof_body p)))"

definition proof_sign :: "host \<Rightarrow> Proof \<Rightarrow> Keypair \<Rightarrow> ProofError + Proof" where
  "proof_sign H p kp =
     (if keypair_principal_id kp \<noteq> body_actor (proof_body p) then Inl ActorMismatch
      else bindR (signing_payload H p) (\<lambda>payload.
             Inr (p\<lparr>proof_signature := identity_sign H kp payload\<rparr>)))"

definition proof_verify :: "host \<Rightarrow> Proof \<Rightarrow> u8 list \<Rightarrow> ProofError + unit" where
  "proof_verify H p public_key =
     bindR (signing_payload H p) (\<lambda>payload.
       map_err (\<lambda>_. InvalidSignature) (identity_verify H public_key payload (proof_signature p)))"

definition proof_digest :: "host \<Rightarrow> Proof \<Rightarrow> ProofError + ContentDigest" where
  "proof_digest H p =
     bindR (map_err (\<lambda>_. ProofCanonicalization) (canonicalize_serialized H (proof_json H p)))
       (\<lambda>canonical. Inr (digest H KProof canonical))"

section \<open>Lemmas\<close>

lemma text_inj:
  assumes "text_law H"
  shows "host_uuid_text H u = host_uuid_text H v \<longleftrightarrow> u = v"
    and "host_utc_text H s = host_utc_text H t \<longleftrightarrow> s = t"
  using assms unfolding text_law_def by (metis option.inject)+

lemma digest_hex_inj: "digest_hex d = digest_hex e \<longleftrightarrow> d = e"
  using hex_pairs_hex [of "digest_bytes d"] hex_pairs_hex [of "digest_bytes e"]
  by (metis ContentDigest.collapse)

lemma json_value_inj:
  assumes "text_law H"
  shows "json_uuid H u = json_uuid H v \<longleftrightarrow> u = v"
    and "json_utc H s = json_utc H t \<longleftrightarrow> s = t"
    and "json_digest d = json_digest e \<longleftrightarrow> d = e"
  using text_inj [OF assms] by (simp_all add: json_uuid_def json_utc_def json_digest_def digest_hex_inj)

lemma unat_ucast_u8: "unat (ucast a :: u64) = unat a" for a :: u8
  using unsigned_less [of a, where ?'a = nat]
  by (simp add: unsigned_ucast_eq take_bit_nat_eq_self)

lemma ucast_u8_u64_inj: "(ucast a :: u64) = ucast b \<longleftrightarrow> a = b" for a b :: u8
  by (metis unat_ucast_u8 unsigned_word_eqI)

lemma json_bytes_inj: "json_bytes a = json_bytes b \<longleftrightarrow> a = b"
proof -
  have "inj (\<lambda>b :: u8. JNumber (PosInt (ucast b)))" by (simp add: inj_def ucast_u8_u64_inj)
  then show ?thesis unfolding json_bytes_def by (simp add: inj_map_eq_map)
qed

lemma json_leaf_exact [simp]:
  "wf_json (json_uuid H u)" "float_free (json_uuid H u)"
  "wf_json (json_utc H t)" "float_free (json_utc H t)"
  "wf_json (json_digest d)" "float_free (json_digest d)"
  "wf_json (json_bytes bs)" "float_free (json_bytes bs)"
  by (auto simp: json_uuid_def json_utc_def json_digest_def json_bytes_def list_all_iff)

lemma rev_json_opt_field [simp]: "rev (json_opt_field k f x) = json_opt_field k f x"
  by (simp add: json_opt_field_def split: option.splits)

lemma json_get_opt_field [json_get_simps]:
  "i \<noteq> k \<Longrightarrow> map_of (json_opt_field k f x @ rest) i = map_of rest i"
  "map_of rest k = None \<Longrightarrow> map_of (json_opt_field k f x @ rest) k = map_option f x"
  by (auto simp: json_opt_field_def split: option.splits)

lemma proof_body_json_exact [simp]:
  "wf_json (proof_body_json H b)" "float_free (proof_body_json H b)"
  unfolding proof_body_json_def
  by (auto intro!: wf_jobject float_free_jobject simp: json_opt_field_def split: option.splits)

lemma proof_json_exact [simp]: "wf_json (proof_json H p)" "float_free (proof_json H p)"
  unfolding proof_json_def by (auto intro!: wf_jobject float_free_jobject)

lemma signing_payload_ok: "signing_payload H p = Inr (render H (proof_body_json H (proof_body p)))"
  by (simp add: signing_payload_def canonicalize_serialized_def canonicalize_exact_ok)

lemma proof_body_json_get:
  "json_get (proof_body_json H b) ''id'' = Some (json_uuid H (body_id b))"
  "json_get (proof_body_json H b) ''actor'' = Some (json_uuid H (body_actor b))"
  "json_get (proof_body_json H b) ''operation'' = Some (JString (body_operation b))"
  "json_get (proof_body_json H b) ''input_digest'' = Some (json_digest (body_input_digest b))"
  "json_get (proof_body_json H b) ''output_digest'' = Some (json_digest (body_output_digest b))"
  "json_get (proof_body_json H b) ''timestamp'' = Some (json_utc H (body_timestamp b))"
  "json_get (proof_body_json H b) ''delegation_id'' = map_option (json_uuid H) (body_delegation_id b)"
  "json_get (proof_body_json H b) ''expires_at'' = map_option (json_utc H) (body_expires_at b)"
  by (simp_all add: proof_body_json_def json_get_simps del: map_of_append)

lemma map_option_json_inj:
  assumes "text_law H"
  shows "map_option (json_uuid H) x = map_option (json_uuid H) y \<longleftrightarrow> x = y"
    and "map_option (json_utc H) s = map_option (json_utc H) t \<longleftrightarrow> s = t"
  using json_value_inj [OF assms] by (auto intro: option.inj_map_strong)

lemma proof_body_json_inj:
  assumes "text_law H" and "proof_body_json H b = proof_body_json H c"
  shows "b = c"
proof -
  note eq = assms(2) [THEN arg_cong, of "\<lambda>j. json_get j k" for k]
  note inj = proof_body_json_get option.inject json.inject json_value_inj [OF assms(1)]
    map_option_json_inj [OF assms(1)]
  show ?thesis
    using eq [of "''id''"] eq [of "''actor''"] eq [of "''operation''"] eq [of "''input_digest''"]
      eq [of "''output_digest''"] eq [of "''timestamp''"] eq [of "''delegation_id''"]
      eq [of "''expires_at''"]
    unfolding inj by (intro ProofBody.equality) simp_all
qed

lemma proof_json_inj:
  assumes "text_law H" and "proof_json H p = proof_json H q"
  shows "p = q"
proof -
  have g: "json_get (proof_json H p) k = json_get (proof_json H q) k" for k
    using assms(2) by simp
  show ?thesis
    using g [of "''body''"] g [of "''signature''"]
    by (intro Proof.equality) (auto simp: proof_json_def json_bytes_inj dest: proof_body_json_inj [OF assms(1)])
qed

lemma proof_sign_ok:
  "proof_sign H p kp = Inr q \<longleftrightarrow>
     keypair_principal_id kp = body_actor (proof_body p) \<and>
     q = p\<lparr>proof_signature := identity_sign H kp (render H (proof_body_json H (proof_body p)))\<rparr>"
  by (auto simp: proof_sign_def signing_payload_ok)

lemma proof_verify_ok:
  "proof_verify H p key = Inr () \<longleftrightarrow>
     host_verify H key (render H (proof_body_json H (proof_body p))) (proof_signature p)"
  by (simp add: proof_verify_def signing_payload_ok identity_verify_def)

lemma proof_digest_ok: "proof_digest H p = Inr (digest H KProof (render H (proof_json H p)))"
  by (simp add: proof_digest_def canonicalize_serialized_def canonicalize_exact_ok)

lemma sign_then_verify:
  assumes "sign_law H" and "proof_sign H p kp = Inr q"
  shows "proof_verify H q (principal_public_key (principal_from_keypair H kp)) = Inr ()"
  using assms by (auto simp: proof_sign_ok proof_verify_ok principal_from_keypair_def
      identity_sign_def sign_law_def)

section \<open>Properties\<close>

text \<open>
  C4: Signing a proof succeeds exactly for the keypair of its actor, changes nothing but the
  signature, and the result verifies under that actor's public key.
\<close>

theorem proof_sign_verify:
  assumes "sign_law H"
  shows "(is_ok (proof_sign H p kp) \<longleftrightarrow> keypair_principal_id kp = body_actor (proof_body p)) \<and>
    (\<forall>q. proof_sign H p kp = Inr q \<longrightarrow>
       proof_body q = proof_body p \<and> length (proof_signature q) = 64 \<and>
       proof_verify H q (principal_public_key (principal_from_keypair H kp)) = Inr ())"
  using sign_then_verify [OF assms, of p kp] assms
  by (auto simp: is_ok_iff proof_sign_ok identity_sign_def sign_law_def)

theorem proof_sign_verify_witness:
  "let kp = generate_keypair 7 0 [1, 2, 3];
       p = proof_new 1 7 None ''note.create'' (ContentDigest []) (ContentDigest []) 5 in
   is_ok (proof_sign sample_host p kp) \<and>
   (\<forall>q. proof_sign sample_host p kp = Inr q \<longrightarrow> proof_body q = proof_body p)"
  using proof_sign_verify [OF sample_sign_law,
      of "proof_new 1 7 None ''note.create'' (ContentDigest []) (ContentDigest []) 5"
         "generate_keypair 7 0 [1, 2, 3]"]
  by (simp add: Let_def generate_keypair_def generate_keypair_for_def proof_new_def)

text \<open>
  C5: The signed text determines the whole body, and the proof digest the whole envelope:
  a signature or a digest made for one proof cannot be read as one for a different proof,
  short of a blake3 collision. Every field counts, the absent optional ones included.
\<close>

theorem proof_binding:
  assumes "quote_law H" and "text_law H"
  shows "(signing_payload H p = signing_payload H q \<longleftrightarrow> proof_body p = proof_body q) \<and>
    (proof_digest H p = proof_digest H q \<longrightarrow>
       p = q \<or> blake3_collision H (digest_message KProof (render H (proof_json H p)))
                                 (digest_message KProof (render H (proof_json H q))))"
proof -
  have "proof_body p = proof_body q" if "signing_payload H p = signing_payload H q"
    using that by (intro proof_body_json_inj [OF assms(2)] render_inj [OF assms(1)])
      (simp_all add: signing_payload_ok)
  moreover have "signing_payload H p = signing_payload H q" if "proof_body p = proof_body q"
    using that by (simp add: signing_payload_def)
  moreover have "p = q" if "digest_message KProof (render H (proof_json H p))
      = digest_message KProof (render H (proof_json H q))"
    using digest_message_inj [OF that]
    by (intro proof_json_inj [OF assms(2)] render_inj [OF assms(1)]) simp_all
  ultimately show ?thesis
    unfolding proof_digest_ok digest_def blake3_collision_def sum.inject ContentDigest.inject
    by blast
qed

theorem proof_binding_witness:
  "signing_payload sample_host
     (proof_new 1 7 None ''note.create'' (ContentDigest []) (ContentDigest []) 5) \<noteq>
   signing_payload sample_host
     (proof_new 1 7 (Some 3) ''note.create'' (ContentDigest []) (ContentDigest []) 5)"
  using proof_binding [OF sample_quote_law sample_text_law,
      of "proof_new 1 7 None ''note.create'' (ContentDigest []) (ContentDigest []) 5"
         "proof_new 1 7 (Some 3) ''note.create'' (ContentDigest []) (ContentDigest []) 5"]
  by (simp add: proof_new_def)

end
