(* ===== verification/StoreContracts.thy ===== *)
theory StoreContracts
  imports Prelude
begin

text \<open>
  The contracts that the record stores of the platform share, as locales, and what a client
  may rely on under them:
  \<^item> \<open>once_store\<close>: a record is saved under a key derived from it, saving it again is
    accepted without effect, and saving a different record under the same key is refused;
  \<^item> \<open>versioned_store\<close>: a record is replaced only by its next revision;
  \<^item> \<open>unique_log\<close>: records are only added, and a second attribute of them (a name, a
    position in a run) is unique as well.
\<close>

section \<open>Write-once tables\<close>

text \<open>
  \<open>save_once\<close> of \<^verbatim>\<open>crates/proof-kernel/src/approval.rs\<close> and
  \<open>save_once_locked\<close> of \<^verbatim>\<open>crates/proof-kernel/src/agent_run.rs\<close>, on the table the
  mutex guards. \<open>conflict\<close> is the error message.
\<close>

definition save_once :: "'e \<Rightarrow> ('k::linorder \<times> 'v) list \<Rightarrow> 'k \<Rightarrow> 'v \<Rightarrow> 'e + ('k \<times> 'v) list" where
  "save_once conflict records key value =
     (case map_of records key of
        Some existing \<Rightarrow> if existing = value then Inr records else Inl conflict
      | None \<Rightarrow> Inr (bt_insert key value records))"

text \<open>A caller that goes on after a refused save.\<close>

definition attempt :: "('s \<Rightarrow> 'v \<Rightarrow> 'e + 's) \<Rightarrow> 's \<Rightarrow> 'v \<Rightarrow> 's" where
  "attempt save s v = (case save s v of Inl _ \<Rightarrow> s | Inr s' \<Rightarrow> s')"

definition attempts :: "('s \<Rightarrow> 'v \<Rightarrow> 'e + 's) \<Rightarrow> 's \<Rightarrow> 'v list \<Rightarrow> 's" where
  "attempts save s vs = foldl (attempt save) s vs"

lemma save_once_cases:
  "map_of m k = None \<Longrightarrow> save_once c m k v = Inr (bt_insert k v m)"
  "map_of m k = Some v \<Longrightarrow> save_once c m k v = Inr m"
  "map_of m k = Some w \<Longrightarrow> w \<noteq> v \<Longrightarrow> save_once c m k v = Inl c"
  by (simp_all add: save_once_def)

lemma save_once_Inr:
  "save_once c m k v = Inr m' \<longleftrightarrow>
     (map_of m k = None \<and> m' = bt_insert k v m) \<or> (map_of m k = Some v \<and> m' = m)"
  by (auto simp: save_once_def split: option.splits)

lemma bt_ok_save_once: "bt_ok m \<Longrightarrow> save_once c m k v = Inr m' \<Longrightarrow> bt_ok m'"
  by (auto simp: save_once_Inr)

section \<open>The write-once contract\<close>

locale once_store =
  fixes save :: "'s \<Rightarrow> 'v \<Rightarrow> 'e + 's"
    and get :: "'s \<Rightarrow> 'k \<Rightarrow> 'v option"
    and key :: "'v \<Rightarrow> 'k"
  assumes save_new: "get s (key v) = None \<Longrightarrow>
      \<exists>s'. save s v = Inr s' \<and> get s' = (get s)(key v \<mapsto> v)"
    and save_same: "get s (key v) = Some v \<Longrightarrow> save s v = Inr s"
    and save_conflict: "get s (key v) = Some w \<Longrightarrow> w \<noteq> v \<Longrightarrow> \<exists>e. save s v = Inl e"
begin

lemma accepts_iff: "is_ok (save s v) \<longleftrightarrow> get s (key v) = None \<or> get s (key v) = Some v"
  using save_new [of s v] save_same [of s v] save_conflict [of s v]
  by (cases "get s (key v)") fastforce+

lemma saved:
  assumes "save s v = Inr s'"
  shows "get s' = (get s)(key v \<mapsto> v)"
proof (cases "get s (key v)")
  case None
  with save_new [OF None] assms show ?thesis by auto
next
  case (Some w)
  with assms save_conflict [OF Some] have "w = v" by auto
  with Some save_same [of s v] assms show ?thesis by (auto simp: fun_eq_iff)
qed

lemma kept: "save s v = Inr s' \<Longrightarrow> get s k = Some w \<Longrightarrow> get s' k = Some w"
  using accepts_iff [of s v] saved [of s v s'] by auto

lemma attempt_get:
  "get (attempt save s v) k = (case get s k of Some w \<Rightarrow> Some w
                               | None \<Rightarrow> if key v = k then Some v else None)"
proof (cases "save s v")
  case (Inl e)
  then obtain w where "get s (key v) = Some w" using accepts_iff [of s v] by (cases "get s (key v)") auto
  with Inl show ?thesis by (auto simp: attempt_def split: option.splits)
next
  case (Inr s')
  then show ?thesis
    using saved [OF Inr] kept [OF Inr, of k] by (auto simp: attempt_def split: option.splits)
qed

text \<open>Whatever is attempted, the first record saved under a key stays there.\<close>

lemma first_write_wins:
  "get (attempts save s vs) k = (case get s k of Some w \<Rightarrow> Some w
                                 | None \<Rightarrow> find (\<lambda>v. key v = k) vs)"
proof (induction vs arbitrary: s)
  case (Cons v vs)
  then show ?case
    by (simp add: attempts_def attempt_get split: option.splits)
qed (simp add: attempts_def split: option.splits)

end

section \<open>Revisions\<close>

text \<open>
  \<open>save_versioned_locked\<close> of \<^verbatim>\<open>crates/proof-kernel/src/agent_run.rs\<close>. The
  revisions are 64-bit words and \<open>checked_add\<close> refuses to go past the last one.
\<close>

definition save_versioned :: "(u64 \<Rightarrow> 'e) \<Rightarrow> 'e \<Rightarrow> ('k::linorder \<times> 'v) list \<Rightarrow> 'k \<Rightarrow> u64 \<Rightarrow> 'v
    \<Rightarrow> ('v \<Rightarrow> u64) \<Rightarrow> 'e + ('k \<times> 'v) list" where
  "save_versioned stale must_start_at_0 records key revision value stored_revision =
     (case map_of records key of
        Some existing \<Rightarrow>
          if existing = value then Inr records
          else if checked_add (stored_revision existing) 1 = Some revision
          then Inr (bt_insert key value records)
          else Inl (stale (stored_revision existing))
      | None \<Rightarrow> if revision = 0 then Inr (bt_insert key value records) else Inl must_start_at_0)"

lemma save_versioned_Inr:
  assumes "save_versioned e1 e2 m k r v revn = Inr m'"
  shows "(map_of m k = Some v \<and> m' = m) \<or>
    (m' = bt_insert k v m \<and> map_of m k \<noteq> Some v \<and>
     (case map_of m k of None \<Rightarrow> r = 0 | Some w \<Rightarrow> unat r = Suc (unat (revn w))))"
  using assms
  by (auto simp: save_versioned_def dest: unat_checked_add split: option.splits if_splits)

lemma bt_ok_save_versioned:
  "bt_ok m \<Longrightarrow> save_versioned e1 e2 m k r v revn = Inr m' \<Longrightarrow> bt_ok m'"
  by (drule save_versioned_Inr) auto

locale versioned_store =
  fixes save :: "'s \<Rightarrow> 'v \<Rightarrow> 'e + 's"
    and get :: "'s \<Rightarrow> 'k \<Rightarrow> 'v option"
    and key :: "'v \<Rightarrow> 'k"
    and revn :: "'v \<Rightarrow> u64"
  assumes save_next: "save s v = Inr s' \<Longrightarrow>
      (get s (key v) = Some v \<and> get s' = get s) \<or>
      (get s' = (get s)(key v \<mapsto> v) \<and> get s (key v) \<noteq> Some v \<and>
       (case get s (key v) of None \<Rightarrow> revn v = 0 | Some w \<Rightarrow> unat (revn v) = Suc (unat (revn w))))"
begin

lemma saved: "save s v = Inr s' \<Longrightarrow> get s' (key v) = Some v"
  using save_next [of s v s'] by auto

text \<open>No record disappears and no revision goes back.\<close>

lemma save_advances:
  assumes "save s v = Inr s'" and "get s k = Some w"
  shows "\<exists>w'. get s' k = Some w' \<and> (w' = w \<or> (w' = v \<and> key v = k \<and> unat (revn v) = Suc (unat (revn w))))"
  using save_next [OF assms(1)] assms(2) by (auto split: option.splits)

lemma attempts_advance:
  "get s k = Some w \<Longrightarrow> \<exists>w'. get (attempts save s vs) k = Some w' \<and> (w' = w \<or> revn w < revn w')"
proof (induction vs arbitrary: s w)
  case (Cons v vs)
  have "\<exists>u. get (attempt save s v) k = Some u \<and> (u = w \<or> revn w < revn u)"
  proof (cases "save s v")
    case (Inr s')
    then show ?thesis
      using save_advances [OF Inr Cons.prems] by (auto simp: attempt_def word_less_nat_alt)
  qed (simp add: attempt_def Cons.prems)
  then obtain u where u: "get (attempt save s v) k = Some u" "u = w \<or> revn w < revn u" by blast
  with Cons.IH [OF u(1)] show ?case by (auto simp: attempts_def)
qed (simp add: attempts_def)

text \<open>Of two different successors of the same revision, only one can be saved.\<close>

lemma no_lost_update:
  assumes "save s v = Inr s1" and "get s k = Some w" and "w \<noteq> v"
    and "key v = k" and "key v' = k" and "v' \<noteq> v" and "revn v' = revn v"
  shows "\<exists>e. save s1 v' = Inl e"
proof (cases "save s1 v'")
  case (Inr s2)
  from saved [OF assms(1)] assms(4,5) have "get s1 (key v') = Some v" by simp
  with save_next [OF Inr] assms(6,7) show ?thesis by auto
qed simp

end

section \<open>Append-only logs\<close>

text \<open>
  The sequence of checks that events, checkpoints and agent definitions go through: no other
  record with the same second attribute, then write-once under the identifier.
\<close>

definition save_unique :: "'e \<Rightarrow> 'e \<Rightarrow> ('v \<Rightarrow> 'c) \<Rightarrow> ('v \<Rightarrow> 'k::linorder) \<Rightarrow> ('k \<times> 'v) list \<Rightarrow> 'v
    \<Rightarrow> 'e + ('k \<times> 'v) list" where
  "save_unique taken conflict slot ident records value =
     (if list_ex (\<lambda>existing. slot existing = slot value \<and> ident existing \<noteq> ident value) (bt_values records)
      then Inl taken
      else save_once conflict records (ident value) value)"

text \<open>Every record of a table is stored under its own identifier.\<close>

definition keyed :: "('v \<Rightarrow> 'k::linorder) \<Rightarrow> ('k \<times> 'v) list \<Rightarrow> bool" where
  "keyed ident m \<longleftrightarrow> bt_ok m \<and> (\<forall>(k, v) \<in> set m. ident v = k)"

lemma keyed_Nil [simp]: "keyed ident []"
  by (simp add: keyed_def)

lemma keyed_bt_ok [simp]: "keyed ident m \<Longrightarrow> bt_ok m"
  by (simp add: keyed_def)

lemma keyed_get: "keyed ident m \<Longrightarrow> map_of m k = Some v \<longleftrightarrow> v \<in> set (bt_values m) \<and> ident v = k"
  by (force simp: keyed_def bt_get_iff image_iff)

lemma keyed_inj: "keyed ident m \<Longrightarrow> inj_on ident (set (bt_values m))"
  by (rule inj_onI) (metis keyed_get option.inject)

lemma keyed_insert: "keyed ident m \<Longrightarrow> ident v = k \<Longrightarrow> keyed ident (bt_insert k v m)"
  by (auto simp: keyed_def set_bt_insert)

lemma keyed_insert_values:
  assumes "keyed ident m" and "map_of m (ident v) = None"
  shows "set (bt_values (bt_insert (ident v) v m)) = insert v (set (bt_values m))"
proof -
  have "fst e \<noteq> ident v" if "e \<in> set m" for e
    using assms that by (metis keyed_bt_ok bt_get_iff option.distinct(1) prod.collapse)
  then show ?thesis using assms(1) by (auto simp: set_bt_insert)
qed

lemma keyed_replace_values:
  assumes "keyed ident m"
  shows "set (bt_values (bt_insert (ident v) v m)) = insert v {w \<in> set (bt_values m). ident w \<noteq> ident v}"
  using assms by (force simp: keyed_def set_bt_insert image_iff)

lemma keyed_distinct:
  assumes "keyed ident m"
  shows "distinct (map ident (bt_values m))"
proof -
  have "map ident (bt_values m) = map fst m" using assms by (auto simp: keyed_def)
  with assms show ?thesis by (simp only: keyed_bt_ok bt_ok_distinct)
qed

lemma save_unique_Inr:
  assumes "keyed ident m" and "save_unique t c slot ident m v = Inr m'"
  shows "keyed ident m' \<and> set (bt_values m') = insert v (set (bt_values m))"
  using assms keyed_insert [OF assms(1), of v "ident v"] keyed_insert_values [OF assms(1), of v]
    keyed_get [OF assms(1), of "ident v" v]
  by (auto simp: save_unique_def save_once_Inr split: if_splits)

lemma save_unique_ok:
  assumes "keyed ident m"
  shows "is_ok (save_unique t c slot ident m v) \<longleftrightarrow>
    (\<forall>w \<in> set (bt_values m). ident w = ident v \<or> slot w = slot v \<longrightarrow> w = v)"
proof -
  have "is_ok (save_once c m (ident v) v) \<longleftrightarrow> (\<forall>w \<in> set (bt_values m). ident w = ident v \<longrightarrow> w = v)"
  proof (cases "map_of m (ident v)")
    case None
    then have "ident w \<noteq> ident v" if "w \<in> set (bt_values m)" for w
      using keyed_get [OF assms, of "ident v" w] that by auto
    with None show ?thesis by (simp add: save_once_def)
  next
    case (Some u)
    then have "w \<in> set (bt_values m) \<and> ident w = ident v \<longleftrightarrow> w = u" for w
      using keyed_get [OF assms, of "ident v" w] by auto
    moreover have "is_ok (save_once c m (ident v) v) \<longleftrightarrow> u = v"
      using Some by (simp add: save_once_def)
    ultimately show ?thesis by blast
  qed
  then show ?thesis by (auto simp: save_unique_def list_ex_iff)
qed

locale unique_log =
  fixes inv :: "'s \<Rightarrow> bool"
    and save :: "'s \<Rightarrow> 'v \<Rightarrow> 'e + 's"
    and recs :: "'s \<Rightarrow> 'v set"
    and ident :: "'v \<Rightarrow> 'k"
    and slot :: "'v \<Rightarrow> 'c"
  assumes save_adds: "inv s \<Longrightarrow> save s v = Inr s' \<Longrightarrow> inv s' \<and> recs s' = insert v (recs s)"
    and save_accepts: "inv s \<Longrightarrow> is_ok (save s v) \<longleftrightarrow>
      (\<forall>w \<in> recs s. ident w = ident v \<or> slot w = slot v \<longrightarrow> w = v)"
begin

lemma attempt_adds:
  assumes "inv s"
  shows "inv (attempt save s v) \<and> recs s \<subseteq> recs (attempt save s v)"
  using assms save_adds [OF assms, of v] by (cases "save s v") (auto simp: attempt_def)

lemma attempt_unique:
  assumes "inv s" and "inj_on ident (recs s)" and "inj_on slot (recs s)"
  shows "inj_on ident (recs (attempt save s v)) \<and> inj_on slot (recs (attempt save s v))"
proof (cases "save s v")
  case (Inr s')
  with save_accepts [OF assms(1), of v]
  have "\<forall>w \<in> recs s. ident w = ident v \<or> slot w = slot v \<longrightarrow> w = v" by simp
  then have "inj_on ident (insert v (recs s))" and "inj_on slot (insert v (recs s))"
    using assms(2,3) by (auto simp: inj_on_def)
  with save_adds [OF assms(1) Inr] Inr show ?thesis by (simp add: attempt_def)
qed (simp add: attempt_def assms)

text \<open>Whatever is attempted, nothing is lost and no two records share an attribute.\<close>

lemma attempts_unique:
  assumes "inv s" and "inj_on ident (recs s)" and "inj_on slot (recs s)"
  shows "inv (attempts save s vs) \<and> recs s \<subseteq> recs (attempts save s vs) \<and>
    inj_on ident (recs (attempts save s vs)) \<and> inj_on slot (recs (attempts save s vs))"
  using assms
proof (induction vs arbitrary: s)
  case (Cons v vs)
  from Cons.IH [of "attempt save s v"] attempt_adds [OF Cons.prems(1)] attempt_unique [OF Cons.prems]
  show ?case by (auto simp: attempts_def)
qed (simp add: attempts_def)

end

text \<open>A table inside a store state, saved through \<^const>\<open>save_unique\<close>, meets the contract.\<close>

lemma unique_log_table:
  assumes tab: "\<And>s. good s \<Longrightarrow> keyed ident (tab s)"
    and save: "\<And>s v. save s v =
      bindR (save_unique (t v) (c v) slot ident (tab s) v) (\<lambda>m. Inr (upd s m))"
    and upd: "\<And>s m. tab (upd s m) = m"
    and good: "\<And>s m. good s \<Longrightarrow> keyed ident m \<Longrightarrow> good (upd s m)"
  shows "unique_log good save (\<lambda>s. set (bt_values (tab s))) ident slot"
proof
  fix s v s'
  assume "good s" and "save s v = Inr s'"
  then obtain m where "save_unique (t v) (c v) slot ident (tab s) v = Inr m" and "s' = upd s m"
    by (auto simp: save bindR_eq_Inr)
  with save_unique_Inr [OF tab [OF \<open>good s\<close>] this(1)] good [OF \<open>good s\<close>] upd
  show "good s' \<and> set (bt_values (tab s')) = insert v (set (bt_values (tab s)))" by simp
next
  fix s v
  assume "good s"
  have "is_ok (save s v) \<longleftrightarrow> is_ok (save_unique (t v) (c v) slot ident (tab s) v)"
    by (auto simp: save is_ok_iff bindR_eq_Inr)
  with save_unique_ok [OF tab [OF \<open>good s\<close>]]
  show "is_ok (save s v) \<longleftrightarrow>
      (\<forall>w \<in> set (bt_values (tab s)). ident w = ident v \<or> slot w = slot v \<longrightarrow> w = v)"
    by (simp only:)
qed

end
