(* ===== verification/Approval.thy ===== *)
theory Approval
  imports Evidence StoreContracts
begin

text \<open>
  Signed human approval of agent calls: \<^verbatim>\<open>crates/proof-kernel/src/approval.rs\<close>.
  Fresh identifiers are arguments. The recording store keeps one table per record type;
  its mutexes are never poisoned.
\<close>

section \<open>Data\<close>

datatype ApprovalOutcome = Approved | Denied

record ApprovalRequest =
  request_id :: uuid
  request_operation :: string
  request_version :: string
  request_input_digest :: ContentDigest
  request_requested_by :: uuid
  request_requested_at :: utc
  request_expires_at :: utc

record SignedApprovalRequest =
  sreq_body :: ApprovalRequest
  sreq_signature :: "u8 list"

record ApprovalDecision =
  decision_id :: uuid
  decision_request_id :: uuid
  decision_request_digest :: ContentDigest
  decision_outcome :: ApprovalOutcome
  decision_decided_by :: uuid
  decision_decided_at :: utc
  decision_reason :: "string option"

record SignedApprovalDecision =
  sdec_body :: ApprovalDecision
  sdec_signature :: "u8 list"

record ApprovalGrant =
  grant_request :: SignedApprovalRequest
  grant_decision :: SignedApprovalDecision
  grant_approver :: Principal

record ApprovalExecution =
  execution_request_id :: uuid
  execution_executed_at :: utc
  execution_output :: json
  execution_proof :: Proof

datatype ApprovalError =
    EmptyOperation
  | EmptyVersion
  | InvalidWindow
  | RequesterMustBeAgent
  | RequesterMismatch
  | ApproverMustBeHuman
  | ApproverMismatch
  | ApprovalInvalidSignature
  | ApprovalCanonicalization
  | RequestMismatch
  | ApprovalDenied
  | ApprovalExpired
  | DecisionOutOfWindow
  | OperationMismatch
  | VersionMismatch
  | InputMismatch
  | ApprovalActorMismatch
  | UntrustedApprover

section \<open>Payloads\<close>

definition approval_request_json :: "host \<Rightarrow> ApprovalRequest \<Rightarrow> json" where
  "approval_request_json H r = jobject
     [(''id'', json_uuid H (request_id r)), (''operation'', JString (request_operation r)),
      (''version'', JString (request_version r)),
      (''input_digest'', json_digest (request_input_digest r)),
      (''requested_by'', json_uuid H (request_requested_by r)),
      (''requested_at'', json_utc H (request_requested_at r)),
      (''expires_at'', json_utc H (request_expires_at r))]"

definition signed_approval_request_json :: "host \<Rightarrow> SignedApprovalRequest \<Rightarrow> json" where
  "signed_approval_request_json H r = jobject
     [(''body'', approval_request_json H (sreq_body r)), (''signature'', json_bytes (sreq_signature r))]"

definition approval_outcome_json :: "ApprovalOutcome \<Rightarrow> json" where
  "approval_outcome_json outcome =
     JString (case outcome of Approved \<Rightarrow> ''approved'' | Denied \<Rightarrow> ''denied'')"

definition approval_decision_json :: "host \<Rightarrow> ApprovalDecision \<Rightarrow> json" where
  "approval_decision_json H d = jobject
     ([(''id'', json_uuid H (decision_id d)), (''request_id'', json_uuid H (decision_request_id d)),
       (''request_digest'', json_digest (decision_request_digest d)),
       (''outcome'', approval_outcome_json (decision_outcome d)),
       (''decided_by'', json_uuid H (decision_decided_by d)),
       (''decided_at'', json_utc H (decision_decided_at d))]
      @ json_opt_field ''reason'' JString (decision_reason d))"

definition signed_approval_decision_json :: "host \<Rightarrow> SignedApprovalDecision \<Rightarrow> json" where
  "signed_approval_decision_json H d = jobject
     [(''body'', approval_decision_json H (sdec_body d)), (''signature'', json_bytes (sdec_signature d))]"

definition canonical_payload :: "host \<Rightarrow> json \<Rightarrow> ApprovalError + string" where
  "canonical_payload H v = map_err (\<lambda>_. ApprovalCanonicalization) (canonicalize_serialized H v)"

definition verify_bytes :: "host \<Rightarrow> u8 list \<Rightarrow> string \<Rightarrow> u8 list \<Rightarrow> ApprovalError + unit" where
  "verify_bytes H public_key payload signature =
     (if length signature \<noteq> 64 then Inl ApprovalInvalidSignature
      else map_err (\<lambda>_. ApprovalInvalidSignature) (identity_verify H public_key payload signature))"

definition same_principal :: "Principal \<Rightarrow> Principal \<Rightarrow> bool" where
  "same_principal left right =
     (principal_id left = principal_id right \<and> principal_kind left = principal_kind right
      \<and> principal_public_key left = principal_public_key right)"

section \<open>Requests\<close>

definition approval_request_create :: "host \<Rightarrow> uuid \<Rightarrow> string \<Rightarrow> string \<Rightarrow> json \<Rightarrow> utc \<Rightarrow> utc \<Rightarrow> Keypair
    \<Rightarrow> ApprovalError + SignedApprovalRequest" where
  "approval_request_create H fresh_id operation version input requested_at expires_at requester =
     (if trim_is_empty operation then Inl EmptyOperation
      else if trim_is_empty version then Inl EmptyVersion
      else if expires_at \<le> requested_at then Inl InvalidWindow
      else if keypair_kind requester \<noteq> Agent then Inl RequesterMustBeAgent
      else
        bindR (map_err (\<lambda>_. ApprovalCanonicalization) (canonicalize H input)) (\<lambda>text.
        let body = \<lparr> request_id = fresh_id, request_operation = operation, request_version = version,
                     request_input_digest = digest H KOperationInput text,
                     request_requested_by = keypair_principal_id requester,
                     request_requested_at = requested_at, request_expires_at = expires_at \<rparr> in
        bindR (canonical_payload H (approval_request_json H body)) (\<lambda>payload.
        Inr \<lparr> sreq_body = body, sreq_signature = identity_sign H requester payload \<rparr>)))"

definition approval_request_verify :: "host \<Rightarrow> SignedApprovalRequest \<Rightarrow> Principal
    \<Rightarrow> ApprovalError + unit" where
  "approval_request_verify H r requester =
     (if principal_kind requester \<noteq> Agent then Inl RequesterMustBeAgent
      else if principal_id requester \<noteq> request_requested_by (sreq_body r) then Inl RequesterMismatch
      else bindR (canonical_payload H (approval_request_json H (sreq_body r))) (\<lambda>payload.
             verify_bytes H (principal_public_key requester) payload (sreq_signature r)))"

definition approval_verify_for_call :: "host \<Rightarrow> SignedApprovalRequest \<Rightarrow> Principal \<Rightarrow> string \<Rightarrow> string
    \<Rightarrow> json \<Rightarrow> uuid \<Rightarrow> utc \<Rightarrow> ApprovalError + unit" where
  "approval_verify_for_call H r requester operation version input actor now =
     bindR (approval_request_verify H r requester) (\<lambda>_.
     if now > request_expires_at (sreq_body r) then Inl ApprovalExpired
     else if actor \<noteq> principal_id requester \<or> actor \<noteq> request_requested_by (sreq_body r)
     then Inl ApprovalActorMismatch
     else if operation \<noteq> request_operation (sreq_body r) then Inl OperationMismatch
     else if version \<noteq> request_version (sreq_body r) then Inl VersionMismatch
     else bindR (map_err (\<lambda>_. ApprovalCanonicalization) (canonicalize H input)) (\<lambda>text.
       if digest H KOperationInput text \<noteq> request_input_digest (sreq_body r)
       then Inl InputMismatch else Inr ()))"

definition approval_request_digest :: "host \<Rightarrow> SignedApprovalRequest \<Rightarrow> ApprovalError + ContentDigest" where
  "approval_request_digest H r =
     bindR (map_err (\<lambda>_. ApprovalCanonicalization)
              (canonicalize_serialized H (signed_approval_request_json H r)))
       (\<lambda>canonical. Inr (digest H KApprovalRequest canonical))"

section \<open>Decisions\<close>

definition approval_decision_create :: "host \<Rightarrow> uuid \<Rightarrow> SignedApprovalRequest \<Rightarrow> ApprovalOutcome
    \<Rightarrow> string option \<Rightarrow> utc \<Rightarrow> Keypair \<Rightarrow> ApprovalError + SignedApprovalDecision" where
  "approval_decision_create H fresh_id request outcome reason decided_at approver =
     (if keypair_kind approver \<noteq> Human then Inl ApproverMustBeHuman
      else if decided_at < request_requested_at (sreq_body request)
              \<or> decided_at > request_expires_at (sreq_body request)
      then Inl DecisionOutOfWindow
      else
        bindR (approval_request_digest H request) (\<lambda>request_digest.
        let body = \<lparr> decision_id = fresh_id, decision_request_id = request_id (sreq_body request),
                     decision_request_digest = request_digest, decision_outcome = outcome,
                     decision_decided_by = keypair_principal_id approver,
                     decision_decided_at = decided_at,
                     decision_reason = (case reason of None \<Rightarrow> None
                       | Some text \<Rightarrow> if trim_is_empty text then None else Some text) \<rparr> in
        bindR (canonical_payload H (approval_decision_json H body)) (\<lambda>payload.
        Inr \<lparr> sdec_body = body, sdec_signature = identity_sign H approver payload \<rparr>)))"

definition approval_decision_verify :: "host \<Rightarrow> SignedApprovalDecision \<Rightarrow> Principal
    \<Rightarrow> ApprovalError + unit" where
  "approval_decision_verify H d approver =
     (if principal_kind approver \<noteq> Human then Inl ApproverMustBeHuman
      else if principal_id approver \<noteq> decision_decided_by (sdec_body d) then Inl ApproverMismatch
      else bindR (canonical_payload H (approval_decision_json H (sdec_body d))) (\<lambda>payload.
             verify_bytes H (principal_public_key approver) payload (sdec_signature d)))"

definition approval_decision_digest :: "host \<Rightarrow> SignedApprovalDecision
    \<Rightarrow> ApprovalError + ContentDigest" where
  "approval_decision_digest H d =
     bindR (map_err (\<lambda>_. ApprovalCanonicalization)
              (canonicalize_serialized H (signed_approval_decision_json H d)))
       (\<lambda>canonical. Inr (digest H KApprovalDecision canonical))"

section \<open>Grants\<close>

definition verify_decision :: "host \<Rightarrow> ApprovalGrant \<Rightarrow> Principal \<Rightarrow> Principal \<Rightarrow> ApprovalError + unit" where
  "verify_decision H g requester trusted_approver =
     (let request = grant_request g; decision = sdec_body (grant_decision g) in
      if \<not> same_principal (grant_approver g) trusted_approver then Inl UntrustedApprover
      else
        bindR (approval_request_verify H request requester) (\<lambda>_.
        bindR (approval_decision_verify H (grant_decision g) (grant_approver g)) (\<lambda>_.
        bindR (if decision_request_id decision \<noteq> request_id (sreq_body request) then Inr True
               else bindR (approval_request_digest H request) (\<lambda>d.
                      Inr (decision_request_digest decision \<noteq> d))) (\<lambda>mismatch.
        if mismatch then Inl RequestMismatch
        else if decision_decided_at decision < request_requested_at (sreq_body request)
                \<or> decision_decided_at decision > request_expires_at (sreq_body request)
        then Inl DecisionOutOfWindow
        else Inr ()))))"

definition verify_for_execution :: "host \<Rightarrow> ApprovalGrant \<Rightarrow> Keypair \<Rightarrow> Principal \<Rightarrow> string \<Rightarrow> string
    \<Rightarrow> json \<Rightarrow> uuid \<Rightarrow> utc \<Rightarrow> ApprovalError + unit" where
  "verify_for_execution H g requester trusted_approver operation version input actor now =
     (let requester_principal = principal_from_keypair H requester in
      bindR (verify_decision H g requester_principal trusted_approver) (\<lambda>_.
      if decision_outcome (sdec_body (grant_decision g)) \<noteq> Approved then Inl ApprovalDenied
      else approval_verify_for_call H (grant_request g) requester_principal operation version
             input actor now))"

section \<open>The recording store\<close>

record RecordingApprovalStore =
  ras_requests :: "(uuid \<times> SignedApprovalRequest) list"
  ras_decisions :: "(uuid \<times> SignedApprovalDecision) list"
  ras_executions :: "(uuid \<times> ApprovalExecution) list"
  ras_approvers :: "uuid \<rightharpoonup> Principal"

definition conflict_text :: "host \<Rightarrow> string \<Rightarrow> uuid \<Rightarrow> string" where
  "conflict_text H record_name key = ''conflicting '' @ record_name @ '': '' @ host_uuid_text H key"

definition trust_approver :: "RecordingApprovalStore \<Rightarrow> Principal \<Rightarrow> RecordingApprovalStore" where
  "trust_approver s p = s\<lparr>ras_approvers := (ras_approvers s)(principal_id p \<mapsto> p)\<rparr>"

definition save_approval_request :: "host \<Rightarrow> RecordingApprovalStore \<Rightarrow> SignedApprovalRequest
    \<Rightarrow> string + RecordingApprovalStore" where
  "save_approval_request H s r =
     (let key = request_id (sreq_body r) in
      bindR (save_once (conflict_text H ''approval request'' key) (ras_requests s) key r)
        (\<lambda>m. Inr (s\<lparr>ras_requests := m\<rparr>)))"

definition load_approval_request :: "RecordingApprovalStore \<Rightarrow> uuid \<Rightarrow> SignedApprovalRequest option" where
  "load_approval_request s rid = map_of (ras_requests s) rid"

definition list_approval_requests :: "RecordingApprovalStore \<Rightarrow> SignedApprovalRequest list" where
  "list_approval_requests s = bt_values (ras_requests s)"

definition save_approval_decision :: "host \<Rightarrow> RecordingApprovalStore \<Rightarrow> SignedApprovalDecision
    \<Rightarrow> string + RecordingApprovalStore" where
  "save_approval_decision H s d =
     (let key = decision_request_id (sdec_body d) in
      bindR (save_once (conflict_text H ''approval decision'' key) (ras_decisions s) key d)
        (\<lambda>m. Inr (s\<lparr>ras_decisions := m\<rparr>)))"

definition load_approval_decision :: "RecordingApprovalStore \<Rightarrow> uuid \<Rightarrow> SignedApprovalDecision option" where
  "load_approval_decision s rid = map_of (ras_decisions s) rid"

definition save_approval_execution :: "host \<Rightarrow> RecordingApprovalStore \<Rightarrow> ApprovalExecution
    \<Rightarrow> string + RecordingApprovalStore" where
  "save_approval_execution H s x =
     (let key = execution_request_id x in
      bindR (save_once (conflict_text H ''approval execution'' key) (ras_executions s) key x)
        (\<lambda>m. Inr (s\<lparr>ras_executions := m\<rparr>)))"

definition load_approval_execution :: "RecordingApprovalStore \<Rightarrow> uuid \<Rightarrow> ApprovalExecution option" where
  "load_approval_execution s rid = map_of (ras_executions s) rid"

definition load_trusted_approver :: "RecordingApprovalStore \<Rightarrow> uuid \<Rightarrow> Principal option" where
  "load_trusted_approver s approver = ras_approvers s approver"

interpretation approval_requests: once_store "save_approval_request H" load_approval_request
  "\<lambda>r. request_id (sreq_body r)" for H
  by unfold_locales
    (auto simp: save_approval_request_def load_approval_request_def save_once_cases Let_def fun_eq_iff)

interpretation approval_decisions: once_store "save_approval_decision H" load_approval_decision
  "\<lambda>d. decision_request_id (sdec_body d)" for H
  by unfold_locales
    (auto simp: save_approval_decision_def load_approval_decision_def save_once_cases Let_def fun_eq_iff)

interpretation approval_executions: once_store "save_approval_execution H" load_approval_execution
  execution_request_id for H
  by unfold_locales
    (auto simp: save_approval_execution_def load_approval_execution_def save_once_cases Let_def fun_eq_iff)

section \<open>Lemmas\<close>

lemma approval_json_exact [simp]:
  "wf_json (approval_request_json H r)" "float_free (approval_request_json H r)"
  "wf_json (approval_decision_json H d)" "float_free (approval_decision_json H d)"
  by (auto intro!: wf_jobject float_free_jobject split: option.splits
      simp: approval_request_json_def approval_decision_json_def json_opt_field_def
        approval_outcome_json_def)

lemma signed_approval_json_exact [simp]:
  "wf_json (signed_approval_request_json H s)" "float_free (signed_approval_request_json H s)"
  "wf_json (signed_approval_decision_json H t)" "float_free (signed_approval_decision_json H t)"
  by (auto intro!: wf_jobject float_free_jobject
      simp: signed_approval_request_json_def signed_approval_decision_json_def)

lemma canonical_payload_ok: "wf_json v \<Longrightarrow> float_free v \<Longrightarrow> canonical_payload H v = Inr (render H v)"
  by (simp add: canonical_payload_def canonicalize_serialized_def canonicalize_exact_ok)

lemma approval_digest_ok [simp]:
  "approval_request_digest H r
     = Inr (digest H KApprovalRequest (render H (signed_approval_request_json H r)))"
  "approval_decision_digest H d
     = Inr (digest H KApprovalDecision (render H (signed_approval_decision_json H d)))"
  by (simp_all add: approval_request_digest_def approval_decision_digest_def
      canonicalize_serialized_def canonicalize_exact_ok)

lemma approval_request_json_get:
  "json_get (approval_request_json H r) ''id'' = Some (json_uuid H (request_id r))"
  "json_get (approval_request_json H r) ''operation'' = Some (JString (request_operation r))"
  "json_get (approval_request_json H r) ''version'' = Some (JString (request_version r))"
  "json_get (approval_request_json H r) ''input_digest'' = Some (json_digest (request_input_digest r))"
  "json_get (approval_request_json H r) ''requested_by'' = Some (json_uuid H (request_requested_by r))"
  "json_get (approval_request_json H r) ''requested_at'' = Some (json_utc H (request_requested_at r))"
  "json_get (approval_request_json H r) ''expires_at'' = Some (json_utc H (request_expires_at r))"
  by (simp_all add: approval_request_json_def)

lemma approval_request_json_inj:
  assumes "text_law H" and "approval_request_json H r = approval_request_json H s"
  shows "r = s"
proof -
  note eq = assms(2) [THEN arg_cong, of "\<lambda>j. json_get j k" for k]
  note inj = approval_request_json_get option.inject json.inject json_value_inj [OF assms(1)]
  show ?thesis
    using eq [of "''id''"] eq [of "''operation''"] eq [of "''version''"] eq [of "''input_digest''"]
      eq [of "''requested_by''"] eq [of "''requested_at''"] eq [of "''expires_at''"]
    unfolding inj by (intro ApprovalRequest.equality) simp_all
qed

lemma signed_approval_request_json_inj:
  assumes "text_law H" and "signed_approval_request_json H r = signed_approval_request_json H s"
  shows "r = s"
proof -
  have g: "json_get (signed_approval_request_json H r) k = json_get (signed_approval_request_json H s) k"
    for k using assms(2) by simp
  have "approval_request_json H (sreq_body r) = approval_request_json H (sreq_body s)"
    and "sreq_signature r = sreq_signature s"
    using g [of "''body''"] g [of "''signature''"]
    by (simp_all add: signed_approval_request_json_def json_bytes_inj)
  then show ?thesis
    by (intro SignedApprovalRequest.equality) (simp_all add: approval_request_json_inj [OF assms(1)])
qed

text \<open>What each verification step accepts.\<close>

definition request_authentic :: "host \<Rightarrow> SignedApprovalRequest \<Rightarrow> Principal \<Rightarrow> bool" where
  "request_authentic H r p \<longleftrightarrow>
     principal_kind p = Agent \<and> principal_id p = request_requested_by (sreq_body r) \<and>
     length (sreq_signature r) = 64 \<and>
     host_verify H (principal_public_key p) (render H (approval_request_json H (sreq_body r)))
       (sreq_signature r)"

definition decision_authentic :: "host \<Rightarrow> SignedApprovalDecision \<Rightarrow> Principal \<Rightarrow> bool" where
  "decision_authentic H d p \<longleftrightarrow>
     principal_kind p = Human \<and> principal_id p = decision_decided_by (sdec_body d) \<and>
     length (sdec_signature d) = 64 \<and>
     host_verify H (principal_public_key p) (render H (approval_decision_json H (sdec_body d)))
       (sdec_signature d)"

definition decision_answers :: "host \<Rightarrow> ApprovalDecision \<Rightarrow> SignedApprovalRequest \<Rightarrow> bool" where
  "decision_answers H d r \<longleftrightarrow>
     decision_request_id d = request_id (sreq_body r) \<and>
     decision_request_digest d = digest H KApprovalRequest (render H (signed_approval_request_json H r)) \<and>
     request_requested_at (sreq_body r) \<le> decision_decided_at d \<and>
     decision_decided_at d \<le> request_expires_at (sreq_body r)"

definition request_covers :: "host \<Rightarrow> ApprovalRequest \<Rightarrow> string \<Rightarrow> string \<Rightarrow> json \<Rightarrow> uuid \<Rightarrow> utc \<Rightarrow> bool" where
  "request_covers H r operation version input actor now \<longleftrightarrow>
     request_operation r = operation \<and> request_version r = version \<and>
     request_requested_by r = actor \<and> now \<le> request_expires_at r \<and>
     (\<exists>text. canonicalize H input = Inr text \<and> request_input_digest r = digest H KOperationInput text)"

lemma verify_bytes_ok:
  "verify_bytes H key payload signature = Inr () \<longleftrightarrow>
     length signature = 64 \<and> host_verify H key payload signature"
  by (simp add: verify_bytes_def identity_verify_def)

lemma approval_request_verify_ok:
  "approval_request_verify H r p = Inr () \<longleftrightarrow> request_authentic H r p"
  by (auto simp: approval_request_verify_def request_authentic_def canonical_payload_ok verify_bytes_ok)

lemma approval_decision_verify_ok:
  "approval_decision_verify H d p = Inr () \<longleftrightarrow> decision_authentic H d p"
  by (auto simp: approval_decision_verify_def decision_authentic_def canonical_payload_ok verify_bytes_ok)

lemma verify_decision_ok:
  "verify_decision H g requester trusted = Inr () \<longleftrightarrow>
     same_principal (grant_approver g) trusted \<and> request_authentic H (grant_request g) requester \<and>
     decision_authentic H (grant_decision g) (grant_approver g) \<and>
     decision_answers H (sdec_body (grant_decision g)) (grant_request g)"
  by (auto simp: verify_decision_def Let_def bindR_eq_Inr approval_request_verify_ok
      approval_decision_verify_ok decision_answers_def)

lemma approval_verify_for_call_ok:
  "approval_verify_for_call H r p operation version input actor now = Inr () \<longleftrightarrow>
     request_authentic H r p \<and> request_covers H (sreq_body r) operation version input actor now"
  by (auto simp: approval_verify_for_call_def bindR_eq_Inr approval_request_verify_ok
      request_covers_def request_authentic_def not_less)

lemma verify_for_execution_ok:
  "verify_for_execution H g requester trusted operation version input actor now = Inr () \<longleftrightarrow>
     verify_decision H g (principal_from_keypair H requester) trusted = Inr () \<and>
     decision_outcome (sdec_body (grant_decision g)) = Approved \<and>
     request_covers H (sreq_body (grant_request g)) operation version input actor now"
  by (auto simp: verify_for_execution_def Let_def bindR_eq_Inr approval_verify_for_call_ok
      verify_decision_ok)

lemma create_then_verify:
  assumes "sign_law H"
    and "approval_request_create H rid operation version input requested_at expires_at requester = Inr r"
    and "approval_decision_create H did r Approved reason decided_at approver = Inr d"
    and "now \<le> expires_at"
  shows "verify_for_execution H
      \<lparr> grant_request = r, grant_decision = d, grant_approver = principal_from_keypair H approver \<rparr>
      requester (principal_from_keypair H approver) operation version input
      (keypair_principal_id requester) now = Inr ()"
  using assms
  by (auto simp: verify_for_execution_ok verify_decision_ok approval_request_create_def
      approval_decision_create_def bindR_eq_Inr map_err_eq_Inr Let_def canonical_payload_ok same_principal_def
      request_authentic_def decision_authentic_def decision_answers_def request_covers_def
      principal_from_keypair_def identity_sign_def sign_law_def split: if_splits)

lemma request_digest_binds:
  assumes "quote_law H" and "text_law H"
    and "decision_answers H d r" and "decision_answers H d s"
  shows "r = s \<or> blake3_collision H
      (digest_message KApprovalRequest (render H (signed_approval_request_json H r)))
      (digest_message KApprovalRequest (render H (signed_approval_request_json H s)))"
proof -
  let ?m = "\<lambda>r. digest_message KApprovalRequest (render H (signed_approval_request_json H r))"
  have "r = s" if "?m r = ?m s"
    using digest_message_inj [OF that]
    by (intro signed_approval_request_json_inj [OF assms(2)] render_inj [OF assms(1)]) simp_all
  moreover have "host_blake3 H (?m r) = host_blake3 H (?m s)"
    using assms(3,4) by (simp add: decision_answers_def digest_def)
  ultimately show ?thesis unfolding blake3_collision_def by blast
qed

lemma input_digest_binds:
  assumes "quote_law H" and "wf_json v" and "float_free v" and "wf_json w" and "float_free w"
    and "request_covers H r operation version v actor now"
    and "request_covers H r operation' version' w actor' now'"
  shows "v = w \<or> blake3_collision H (digest_message KOperationInput (render H v))
                                    (digest_message KOperationInput (render H w))"
proof -
  let ?m = "\<lambda>v. digest_message KOperationInput (render H v)"
  have "v = w" if "?m v = ?m w"
    using digest_message_inj [OF that] assms(2-5) by (intro render_inj [OF assms(1)]) simp_all
  moreover have "host_blake3 H (?m v) = host_blake3 H (?m w)"
    using assms(6,7) assms(2-5) by (auto simp: request_covers_def digest_def canonicalize_exact_ok)
  ultimately show ?thesis unfolding blake3_collision_def by blast
qed

subsection \<open>A concrete approval\<close>

definition sample_agent :: Keypair where
  "sample_agent = generate_keypair_for 7 0 [1] Agent"

definition sample_human :: Keypair where
  "sample_human = generate_keypair_for 8 0 [2] Human"

definition sample_request :: SignedApprovalRequest where
  "sample_request =
     \<lparr> sreq_body =
         \<lparr> request_id = 1, request_operation = ''doc.delete'', request_version = ''v1'',
           request_input_digest = digest sample_host KOperationInput ''null'',
           request_requested_by = 7, request_requested_at = 0, request_expires_at = 10 \<rparr>,
       sreq_signature = sample_signature [1] \<rparr>"

definition sample_decision :: SignedApprovalDecision where
  "sample_decision =
     \<lparr> sdec_body =
         \<lparr> decision_id = 2, decision_request_id = 1,
           decision_request_digest =
             digest sample_host KApprovalRequest
               (render sample_host (signed_approval_request_json sample_host sample_request)),
           decision_outcome = Approved, decision_decided_by = 8, decision_decided_at = 5,
           decision_reason = None \<rparr>,
       sdec_signature = sample_signature [2] \<rparr>"

definition sample_approval :: ApprovalGrant where
  "sample_approval =
     \<lparr> grant_request = sample_request, grant_decision = sample_decision,
       grant_approver = principal_from_keypair sample_host sample_human \<rparr>"

lemma sample_request_create:
  "approval_request_create sample_host 1 ''doc.delete'' ''v1'' JNull 0 10 sample_agent = Inr sample_request"
  by (simp add: approval_request_create_def canonical_payload_ok sample_request_def sample_agent_def
      generate_keypair_for_def Let_def canonicalize_def identity_sign_def ws1_def ws2_def ws3_def)

lemma sample_decision_create:
  "approval_decision_create sample_host 2 sample_request Approved None 5 sample_human = Inr sample_decision"
  by (simp add: approval_decision_create_def canonical_payload_ok sample_decision_def sample_human_def
      generate_keypair_for_def Let_def identity_sign_def) (simp add: sample_request_def)

lemma sample_approval_verifies:
  "now \<le> 10 \<Longrightarrow> verify_for_execution sample_host sample_approval sample_agent
     (principal_from_keypair sample_host sample_human) ''doc.delete'' ''v1'' JNull 7 now = Inr ()"
  using create_then_verify [OF sample_sign_law sample_request_create sample_decision_create, of now]
  by (simp add: sample_approval_def sample_agent_def generate_keypair_for_def)

section \<open>Properties\<close>

text \<open>
  C11: An approval is accepted for a call exactly when the request is signed by the calling
  agent, the decision is signed by the trusted human, approves this very request inside its
  validity window, and the request names this operation, version, actor and input and has
  not expired.
\<close>

theorem verify_for_execution_exact:
  "verify_for_execution H g requester trusted operation version input actor now = Inr () \<longleftrightarrow>
     same_principal (grant_approver g) trusted \<and>
     request_authentic H (grant_request g) (principal_from_keypair H requester) \<and>
     decision_authentic H (grant_decision g) (grant_approver g) \<and>
     decision_answers H (sdec_body (grant_decision g)) (grant_request g) \<and>
     decision_outcome (sdec_body (grant_decision g)) = Approved \<and>
     request_covers H (sreq_body (grant_request g)) operation version input actor now"
  by (auto simp: verify_for_execution_ok verify_decision_ok)



text \<open>
  C13: An approval that an agent requests and a human grants is usable: as long as the request
  has not expired, the agent's call with that operation, version and input is accepted.
\<close>

theorem approval_create_complete:
  assumes "sign_law H"
    and "approval_request_create H rid operation version input requested_at expires_at requester = Inr r"
    and "approval_decision_create H did r Approved reason decided_at approver = Inr d"
    and "now \<le> expires_at"
  shows "verify_for_execution H
      \<lparr> grant_request = r, grant_decision = d, grant_approver = principal_from_keypair H approver \<rparr>
      requester (principal_from_keypair H approver) operation version input
      (keypair_principal_id requester) now = Inr ()"
  using assms by (rule create_then_verify)

theorem approval_create_complete_witness:
  "verify_for_execution sample_host
      \<lparr> grant_request = sample_request, grant_decision = sample_decision,
        grant_approver = principal_from_keypair sample_host sample_human \<rparr>
      sample_agent (principal_from_keypair sample_host sample_human) ''doc.delete'' ''v1'' JNull
      (keypair_principal_id sample_agent) 9 = Inr ()"
  by (rule approval_create_complete [OF sample_sign_law sample_request_create sample_decision_create]) simp

text \<open>
  C14: A decision answers one request only. If a signed decision is accepted together with two
  requests, the requests are the same, short of a blake3 collision between them.
\<close>

theorem decision_answers_one_request:
  assumes "quote_law H" and "text_law H"
    and "verify_decision H g requester trusted = Inr ()"
    and "verify_decision H (g\<lparr>grant_request := s\<rparr>) requester' trusted' = Inr ()"
  shows "grant_request g = s \<or> blake3_collision H
      (digest_message KApprovalRequest (render H (signed_approval_request_json H (grant_request g))))
      (digest_message KApprovalRequest (render H (signed_approval_request_json H s)))"
  using assms(3,4) by (intro request_digest_binds [OF assms(1,2)]) (auto simp: verify_decision_ok)

theorem decision_answers_one_request_witness:
  "grant_request sample_approval = sample_request \<or> blake3_collision sample_host
      (digest_message KApprovalRequest (render sample_host
         (signed_approval_request_json sample_host (grant_request sample_approval))))
      (digest_message KApprovalRequest (render sample_host
         (signed_approval_request_json sample_host sample_request)))"
proof (rule decision_answers_one_request [OF sample_quote_law sample_text_law])
  show "verify_decision sample_host sample_approval (principal_from_keypair sample_host sample_agent)
      (principal_from_keypair sample_host sample_human) = Inr ()"
    using sample_approval_verifies [of 6] by (simp add: verify_for_execution_ok)
  then show "verify_decision sample_host (sample_approval\<lparr>grant_request := sample_request\<rparr>)
      (principal_from_keypair sample_host sample_agent)
      (principal_from_keypair sample_host sample_human) = Inr ()"
    by (simp add: sample_approval_def)
qed

text \<open>
  C15: Requests, decisions and executions are write-once. Whatever sequence of saves is
  attempted, the record found under a request identifier is the first one that was saved
  for it: a decision cannot be replaced, and a call has at most one recorded execution.
\<close>

theorem approval_records_first_write_wins:
  "load_approval_request (attempts (save_approval_request H) s rs) rid =
     (case load_approval_request s rid of Some r \<Rightarrow> Some r
      | None \<Rightarrow> find (\<lambda>r. request_id (sreq_body r) = rid) rs) \<and>
   load_approval_decision (attempts (save_approval_decision H) s ds) rid =
     (case load_approval_decision s rid of Some d \<Rightarrow> Some d
      | None \<Rightarrow> find (\<lambda>d. decision_request_id (sdec_body d) = rid) ds) \<and>
   load_approval_execution (attempts (save_approval_execution H) s xs) rid =
     (case load_approval_execution s rid of Some x \<Rightarrow> Some x
      | None \<Rightarrow> find (\<lambda>x. execution_request_id x = rid) xs)"
  using approval_requests.first_write_wins approval_decisions.first_write_wins
    approval_executions.first_write_wins by metis

end
