(* ===== verification/Registry.thy ===== *)
theory Registry
  imports Prelude "HOL-Library.Multiset"
begin

text \<open>
  The data-driven operation registry: \<^verbatim>\<open>crates/proof-kernel/src/registry.rs\<close>.
  The file system is a tree given as an argument, and so is the reader of an entry file.
\<close>

section \<open>Data\<close>

datatype Governance = AgentExecutable | HumanOnly

datatype VersionStatus = Active | Deprecated | Sunset

record RegistryEntry =
  entry_operation :: string
  entry_domain :: string
  entry_version :: string
  entry_action :: string
  entry_description :: string
  entry_input_schema :: string
  entry_output_schema :: string
  entry_required_authority :: string
  entry_governance :: Governance
  entry_idempotency :: string
  entry_consequence :: string
  entry_evidence_contract :: string
  entry_benchmark :: "string option"
  entry_status :: VersionStatus
  entry_deprecated_since :: "int option"
  entry_replacement_operation :: "string option"

datatype RegistryError =
    DirectoryMissing string
  | RegistryIo
  | InvalidJson string
  | Duplicate string string

record Registry =
  reg_entries :: "RegistryEntry list"
  reg_index :: "((string \<times> string) \<times> nat) list"

definition version_status_is_active :: "VersionStatus \<Rightarrow> bool" where
  "version_status_is_active status = (status = Active)"

section \<open>Construction and lookup\<close>

definition entry_order :: "RegistryEntry \<Rightarrow> string \<times> string \<times> string" where
  "entry_order e = (entry_domain e, entry_operation e, entry_version e)"

definition entry_key :: "RegistryEntry \<Rightarrow> string \<times> string" where
  "entry_key e = (entry_operation e, entry_version e)"

fun index_entries :: "nat \<Rightarrow> RegistryEntry list \<Rightarrow> ((string \<times> string) \<times> nat) list
    \<Rightarrow> RegistryError + ((string \<times> string) \<times> nat) list" where
  "index_entries position [] index = Inr index"
| "index_entries position (e # es) index =
     (if map_of index (entry_key e) \<noteq> None
      then Inl (Duplicate (entry_operation e) (entry_version e))
      else index_entries (Suc position) es (bt_insert (entry_key e) position index))"

definition registry_new :: "RegistryEntry list \<Rightarrow> RegistryError + Registry" where
  "registry_new entries =
     (let sorted_entries = sort_key entry_order entries in
      bindR (index_entries 0 sorted_entries []) (\<lambda>index.
        Inr \<lparr> reg_entries = sorted_entries, reg_index = index \<rparr>))"

definition operations :: "Registry \<Rightarrow> RegistryEntry list" where
  "operations r = reg_entries r"

definition registry_find :: "Registry \<Rightarrow> string \<Rightarrow> string \<Rightarrow> RegistryEntry option" where
  "registry_find r operation version =
     map_option (\<lambda>position. reg_entries r ! position) (map_of (reg_index r) (operation, version))"

definition active_operations :: "Registry \<Rightarrow> RegistryEntry list" where
  "active_operations r = filter (\<lambda>e. entry_status e = Active) (reg_entries r)"

section \<open>Loading a directory\<close>

text \<open>
  A directory lists its items by name (\<open>None\<close>: a name that is not UTF-8); reading a file
  or a directory may fail (\<open>None\<close>).
\<close>

datatype fs_node = FsFile "string option" | FsDir "(string option \<times> fs_node) list option"

definition is_registry_entry_file :: "string option \<Rightarrow> bool" where
  "is_registry_entry_file name =
     (case name of None \<Rightarrow> False
      | Some file_name \<Rightarrow> ends_with file_name ''.json''
          \<and> \<not> ends_with file_name ''.input.json'' \<and> \<not> ends_with file_name ''.output.json'')"

definition join_path :: "string \<Rightarrow> string option \<Rightarrow> string" where
  "join_path path name = path @ ''/'' @ (case name of None \<Rightarrow> ''?'' | Some n \<Rightarrow> n)"

fun visit_items :: "(string \<Rightarrow> RegistryEntry option) \<Rightarrow> string \<Rightarrow> (string option \<times> fs_node) list
    \<Rightarrow> RegistryEntry list \<Rightarrow> RegistryError + RegistryEntry list" where
  "visit_items parse path [] entries = Inr entries"
| "visit_items parse path ((name, FsDir listing) # items) entries =
     (case listing of
        None \<Rightarrow> Inl RegistryIo
      | Some inner \<Rightarrow>
          bindR (visit_items parse (join_path path name) inner entries)
            (visit_items parse path items))"
| "visit_items parse path ((name, FsFile contents) # items) entries =
     (if is_registry_entry_file name then
        (case contents of
           None \<Rightarrow> Inl RegistryIo
         | Some text \<Rightarrow>
             (case parse text of
                None \<Rightarrow> Inl (InvalidJson (join_path path name))
              | Some e \<Rightarrow> visit_items parse path items (entries @ [e])))
      else visit_items parse path items entries)"

definition visit :: "(string \<Rightarrow> RegistryEntry option) \<Rightarrow> string \<Rightarrow> fs_node
    \<Rightarrow> RegistryError + RegistryEntry list" where
  "visit parse path node =
     (case node of FsDir (Some items) \<Rightarrow> visit_items parse path items [] | _ \<Rightarrow> Inl RegistryIo)"

definition load_from_directory :: "(string \<Rightarrow> RegistryEntry option) \<Rightarrow> string \<Rightarrow> fs_node option
    \<Rightarrow> RegistryError + Registry" where
  "load_from_directory parse path root =
     (case root of
        None \<Rightarrow> Inl (DirectoryMissing path)
      | Some node \<Rightarrow> bindR (visit parse path node) registry_new)"

section \<open>Lemmas\<close>

text \<open>The index maps every key to the position of the entry that carries it.\<close>

lemma index_entries_get:
  "index_entries p es index = Inr index' \<Longrightarrow>
   map_of index' k = Some q \<longleftrightarrow>
     map_of index k = Some q \<or> (\<exists>i < length es. q = p + i \<and> entry_key (es ! i) = k)"
proof (induction es arbitrary: p index)
  case (Cons e es)
  then have new: "map_of index (entry_key e) = None"
    and rest: "index_entries (Suc p) es (bt_insert (entry_key e) p index) = Inr index'"
    by (simp_all split: if_splits)
  show ?case
    using Cons.IH [OF rest] new by (auto simp: Ex_less_Suc2 split: if_splits)
qed simp

lemma index_entries_ok:
  "is_ok (index_entries p es index) \<longleftrightarrow>
     distinct (map entry_key es) \<and> (\<forall>e \<in> set es. map_of index (entry_key e) = None)"
  by (induction es arbitrary: p index) (force simp: image_iff)+

lemma index_entries_Inl:
  "index_entries p es index = Inl err \<Longrightarrow>
   \<exists>e \<in> set es. err = Duplicate (entry_operation e) (entry_version e)"
  by (induction es arbitrary: p index) (auto split: if_splits)

lemma registry_new_entries:
  "registry_new es = Inr r \<Longrightarrow> reg_entries r = sort_key entry_order es"
  by (auto simp: registry_new_def Let_def bindR_eq_Inr)

lemma registry_new_ok: "is_ok (registry_new es) \<longleftrightarrow> distinct (map entry_key es)"
proof -
  have "is_ok (registry_new es) \<longleftrightarrow> is_ok (index_entries 0 (sort_key entry_order es) [])"
    by (auto simp: registry_new_def Let_def is_ok_iff bindR_eq_Inr)
  also have "\<dots> \<longleftrightarrow> distinct (map entry_key (sort_key entry_order es))"
    by (simp add: index_entries_ok)
  also have "\<dots> \<longleftrightarrow> distinct (map entry_key es)" by (simp add: distinct_map)
  finally show ?thesis .
qed

lemma registry_index_position:
  assumes "registry_new es = Inr r"
  shows "map_of (reg_index r) k = Some q \<longleftrightarrow>
    q < length (reg_entries r) \<and> entry_key (reg_entries r ! q) = k"
proof -
  from assms have "index_entries 0 (reg_entries r) [] = Inr (reg_index r)"
    by (auto simp: registry_new_def Let_def bindR_eq_Inr)
  from index_entries_get [OF this, of k q] show ?thesis by auto
qed

lemma registry_find_iff:
  assumes "registry_new es = Inr r"
  shows "registry_find r operation version = Some e \<longleftrightarrow>
    e \<in> set es \<and> entry_operation e = operation \<and> entry_version e = version"
proof -
  have "set es = set (reg_entries r)" and "distinct (map entry_key (reg_entries r))"
    using assms registry_new_ok [of es] registry_new_entries [OF assms]
    by (simp_all add: distinct_map)
  moreover from this(2) have "entry_key (reg_entries r ! i) = entry_key (reg_entries r ! j) \<longrightarrow> i = j"
    if "i < length (reg_entries r)" "j < length (reg_entries r)" for i j
    using that by (metis length_map nth_eq_iff_index_eq nth_map)
  ultimately show ?thesis
    by (auto simp: registry_find_def registry_index_position [OF assms] in_set_conv_nth entry_key_def)
qed

text \<open>The entry files of a tree, in traversal order.\<close>

fun entry_texts :: "(string option \<times> fs_node) list \<Rightarrow> string option list" where
  "entry_texts [] = []"
| "entry_texts ((name, FsDir listing) # items) =
     (case listing of None \<Rightarrow> [None] | Some inner \<Rightarrow> entry_texts inner) @ entry_texts items"
| "entry_texts ((name, FsFile contents) # items) =
     (if is_registry_entry_file name then [contents] else []) @ entry_texts items"

lemma visit_items_iff:
  "visit_items parse path items entries = Inr es \<longleftrightarrow>
   (\<exists>new. es = entries @ new \<and>
          map (\<lambda>text. Option.bind text parse) (entry_texts items) = map Some new)"
proof (induction parse path items entries arbitrary: es rule: visit_items.induct)
  case (2 parse path name listing items entries)
  then show ?case
    by (cases listing) (fastforce simp: bindR_eq_Inr map_eq_append_conv append_eq_map_conv)+
next
  case (3 parse path name contents items entries)
  then show ?case
    by (auto split: option.splits simp: Cons_eq_map_conv)
qed auto

section \<open>Properties\<close>

text \<open>
  C6: A registry is built exactly when no operation and version is listed twice. It then
  holds the given entries, ordered by domain, operation and version, and a lookup returns an
  entry if and only if it is one of them with that operation and version; the position the
  index gives is always inside the list.
\<close>

theorem registry_new_correct:
  "(is_ok (registry_new es) \<longleftrightarrow> distinct (map entry_key es)) \<and>
   (\<forall>r. registry_new es = Inr r \<longrightarrow>
      mset (operations r) = mset es \<and> sorted (map entry_order (operations r)) \<and>
      (\<forall>k q. map_of (reg_index r) k = Some q \<longrightarrow> q < length (operations r)) \<and>
      (\<forall>operation version e. registry_find r operation version = Some e \<longleftrightarrow>
         e \<in> set es \<and> entry_operation e = operation \<and> entry_version e = version))"
  using registry_new_ok [of es] registry_new_entries [of es] registry_find_iff [of es]
    registry_index_position [of es]
  by (auto simp: operations_def)

definition sample_entry :: "string \<Rightarrow> string \<Rightarrow> string \<Rightarrow> RegistryEntry" where
  "sample_entry operation domain version =
     \<lparr> entry_operation = operation, entry_domain = domain, entry_version = version,
       entry_action = domain @ '':'' @ operation, entry_description = [],
       entry_input_schema = ''in'', entry_output_schema = ''out'',
       entry_required_authority = ''delegation-grant'', entry_governance = AgentExecutable,
       entry_idempotency = ''required-uuidv7'', entry_consequence = [], entry_evidence_contract = [],
       entry_benchmark = None, entry_status = Active, entry_deprecated_since = None,
       entry_replacement_operation = None \<rparr>"

lemma sample_entry_sel [simp]:
  "entry_operation (sample_entry p d v) = p" "entry_domain (sample_entry p d v) = d"
  "entry_version (sample_entry p d v) = v" "entry_governance (sample_entry p d v) = AgentExecutable"
  "entry_status (sample_entry p d v) = Active"
  "entry_key (sample_entry p d v) = (p, v)" "entry_order (sample_entry p d v) = (d, p, v)"
  by (simp_all add: sample_entry_def entry_key_def entry_order_def)

theorem registry_new_correct_witness:
  "\<exists>r. registry_new [sample_entry ''b'' ''x'' ''v1'', sample_entry ''a'' ''x'' ''v1''] = Inr r \<and>
       registry_find r ''a'' ''v1'' = Some (sample_entry ''a'' ''x'' ''v1'') \<and>
       registry_find r ''a'' ''v2'' = None"
proof -
  let ?es = "[sample_entry ''b'' ''x'' ''v1'', sample_entry ''a'' ''x'' ''v1'']"
  note spec = registry_new_correct [of ?es]
  from spec have "is_ok (registry_new ?es)" by simp
  then obtain r where r: "registry_new ?es = Inr r" by (auto simp: is_ok_iff)
  with spec have find: "registry_find r operation version = Some e \<longleftrightarrow>
      e \<in> set ?es \<and> entry_operation e = operation \<and> entry_version e = version"
    for operation version e by blast
  have "registry_find r ''a'' ''v1'' = Some (sample_entry ''a'' ''x'' ''v1'')"
    by (simp add: find)
  moreover have "registry_find r ''a'' ''v2'' \<noteq> Some e" for e
    unfolding find by auto
  then have "registry_find r ''a'' ''v2'' = None" by (metis not_None_eq)
  ultimately show ?thesis using r by blast
qed


end
