(* ===== verification/Delegation.thy ===== *)
theory Delegation
  imports Prelude
begin

text \<open>
  Bounded, time-limited delegation: \<^verbatim>\<open>crates/proof-kernel/src/delegation.rs\<close>.
\<close>

section \<open>Data\<close>

record DelegationScope =
  scope_allowed_operations :: "string list option"
  scope_allowed_domains :: "string list option"
  scope_resource_scope :: "string option"

datatype DelegationError =
    EmptyChain
  | InvalidRoot uuid
  | BrokenChain nat
  | InvalidTerminalAgent nat
  | InsufficientActionAuthority nat string
  | InsufficientResourceAuthority nat string
  | InvalidTime nat
  | Revoked nat

record Delegation =
  del_id :: uuid
  del_issuer :: uuid
  del_recipient :: uuid
  del_allowed_actions :: "string list"
  del_resource_scope :: "string list"
  del_scope :: DelegationScope
  del_valid_from :: utc
  del_valid_until :: utc
  del_revoked :: bool

record DelegationChain =
  chain_root :: uuid
  chain_grants :: "Delegation list"

definition default_scope :: DelegationScope where
  "default_scope =
     \<lparr> scope_allowed_operations = None, scope_allowed_domains = None, scope_resource_scope = None \<rparr>"

section \<open>Patterns and single grants\<close>

definition wildcard :: "string \<Rightarrow> string \<Rightarrow> bool" where
  "wildcard pattern value =
     (case strip_suffix_char pattern CHR ''*'' of None \<Rightarrow> False | Some p \<Rightarrow> starts_with value p)"

definition scope_allows_operation :: "DelegationScope \<Rightarrow> string \<Rightarrow> string \<Rightarrow> bool" where
  "scope_allows_operation scope operation domain =
     ((case scope_allowed_domains scope of
         None \<Rightarrow> True | Some domains \<Rightarrow> list_ex (\<lambda>allowed. allowed = domain) domains) \<and>
      (case scope_allowed_operations scope of
         None \<Rightarrow> True
       | Some allowed_ops \<Rightarrow>
           list_ex (\<lambda>allowed. allowed = operation \<or> wildcard allowed operation) allowed_ops))"

definition pattern_matches :: "string \<Rightarrow> string \<Rightarrow> bool" where
  "pattern_matches pattern value = (pattern = ''*'' \<or> pattern = value \<or> wildcard pattern value)"

definition allows_action :: "Delegation \<Rightarrow> string \<Rightarrow> bool" where
  "allows_action d action = list_ex (\<lambda>pattern. pattern_matches pattern action) (del_allowed_actions d)"

definition in_scope :: "Delegation \<Rightarrow> string \<Rightarrow> bool" where
  "in_scope d resource = list_ex (\<lambda>pattern. pattern_matches pattern resource) (del_resource_scope d)"

definition is_valid :: "Delegation \<Rightarrow> string \<Rightarrow> string \<Rightarrow> utc \<Rightarrow> bool" where
  "is_valid d action resource now =
     (\<not> del_revoked d \<and> now \<ge> del_valid_from d \<and> now \<le> del_valid_until d
      \<and> allows_action d action \<and> in_scope d resource)"

section \<open>Chains\<close>

definition pattern_is_covered :: "string \<Rightarrow> string \<Rightarrow> bool" where
  "pattern_is_covered pattern authority_pattern =
     (authority_pattern = ''*'' \<or> pattern = authority_pattern \<or>
      (case strip_suffix_char authority_pattern CHR ''*'' of
         None \<Rightarrow> False | Some authority_prefix \<Rightarrow> starts_with pattern authority_prefix))"

definition covered_by_any :: "string list \<Rightarrow> string \<Rightarrow> bool" where
  "covered_by_any allowed pattern = list_ex (\<lambda>parent. pattern_is_covered pattern parent) allowed"

text \<open>One pass of the loop at link \<open>index\<close>; \<open>parent\<close> is \<open>grants[index - 1]\<close>.\<close>

definition check_link :: "nat \<Rightarrow> Delegation option \<Rightarrow> Delegation \<Rightarrow> utc \<Rightarrow> DelegationError + unit" where
  "check_link index parent grant now =
     (let allowed_actions = (case parent of None \<Rightarrow> [''*''] | Some p \<Rightarrow> del_allowed_actions p);
          allowed_resources = (case parent of None \<Rightarrow> [''*''] | Some p \<Rightarrow> del_resource_scope p) in
      if (case parent of None \<Rightarrow> False | Some p \<Rightarrow> del_issuer grant \<noteq> del_recipient p)
      then Inl (BrokenChain index)
      else if del_revoked grant then Inl (Revoked index)
      else if \<not> (del_valid_from grant \<le> now \<and> now \<le> del_valid_until grant
                 \<and> del_valid_from grant \<le> del_valid_until grant)
      then Inl (InvalidTime index)
      else if \<not> list_all (covered_by_any allowed_actions) (del_allowed_actions grant)
      then Inl (InsufficientActionAuthority index
                 (the (find (\<lambda>a. \<not> covered_by_any allowed_actions a) (del_allowed_actions grant))))
      else if \<not> list_all (covered_by_any allowed_resources) (del_resource_scope grant)
      then Inl (InsufficientResourceAuthority index
                 (the (find (\<lambda>r. \<not> covered_by_any allowed_resources r) (del_resource_scope grant))))
      else Inr ())"

fun check_links :: "nat \<Rightarrow> Delegation option \<Rightarrow> Delegation list \<Rightarrow> utc \<Rightarrow> DelegationError + unit" where
  "check_links index parent [] now = Inr ()"
| "check_links index parent (grant # grants) now =
     bindR (check_link index parent grant now) (\<lambda>_. check_links (Suc index) (Some grant) grants now)"

definition validate_chain :: "uuid \<Rightarrow> uuid \<Rightarrow> Delegation list \<Rightarrow> utc \<Rightarrow> DelegationError + unit" where
  "validate_chain root executing_agent grants now =
     (case grants of
        [] \<Rightarrow> Inl EmptyChain
      | first # _ \<Rightarrow>
          if del_issuer first \<noteq> root then Inl (InvalidRoot root)
          else bindR (check_links 0 None grants now) (\<lambda>_.
                 let last_index = length grants - 1 in
                 if del_recipient (grants ! last_index) \<noteq> executing_agent
                 then Inl (InvalidTerminalAgent last_index)
                 else Inr ()))"

definition chain_validate :: "DelegationChain \<Rightarrow> uuid \<Rightarrow> utc \<Rightarrow> DelegationError + unit" where
  "chain_validate chain executing_agent now =
     validate_chain (chain_root chain) executing_agent (chain_grants chain) now"

section \<open>What a valid chain is\<close>

definition grant_live :: "utc \<Rightarrow> Delegation \<Rightarrow> bool" where
  "grant_live now g \<longleftrightarrow> \<not> del_revoked g \<and> del_valid_from g \<le> now \<and> now \<le> del_valid_until g"

definition link_ok :: "Delegation \<Rightarrow> Delegation \<Rightarrow> bool" where
  "link_ok p g \<longleftrightarrow>
     del_issuer g = del_recipient p \<and>
     list_all (covered_by_any (del_allowed_actions p)) (del_allowed_actions g) \<and>
     list_all (covered_by_any (del_resource_scope p)) (del_resource_scope g)"

definition chain_ok :: "uuid \<Rightarrow> uuid \<Rightarrow> Delegation list \<Rightarrow> utc \<Rightarrow> bool" where
  "chain_ok root agent grants now \<longleftrightarrow>
     grants \<noteq> [] \<and> del_issuer (hd grants) = root \<and> del_recipient (last grants) = agent \<and>
     (\<forall>g \<in> set grants. grant_live now g) \<and>
     (\<forall>i. Suc i < length grants \<longrightarrow> link_ok (grants ! i) (grants ! Suc i))"

text \<open>What each error says about the chain.\<close>

definition parent_patterns :: "(Delegation \<Rightarrow> string list) \<Rightarrow> Delegation list \<Rightarrow> nat \<Rightarrow> string list" where
  "parent_patterns f grants i = (if i = 0 then [''*''] else f (grants ! (i - 1)))"

fun error_holds :: "uuid \<Rightarrow> uuid \<Rightarrow> Delegation list \<Rightarrow> utc \<Rightarrow> DelegationError \<Rightarrow> bool" where
  "error_holds root agent grants now EmptyChain = (grants = [])"
| "error_holds root agent grants now (InvalidRoot r) =
     (r = root \<and> grants \<noteq> [] \<and> del_issuer (hd grants) \<noteq> root)"
| "error_holds root agent grants now (BrokenChain i) =
     (0 < i \<and> i < length grants \<and> del_issuer (grants ! i) \<noteq> del_recipient (grants ! (i - 1)))"
| "error_holds root agent grants now (InvalidTerminalAgent i) =
     (grants \<noteq> [] \<and> i = length grants - 1 \<and> del_recipient (last grants) \<noteq> agent)"
| "error_holds root agent grants now (InsufficientActionAuthority i a) =
     (i < length grants \<and> a \<in> set (del_allowed_actions (grants ! i)) \<and>
      \<not> covered_by_any (parent_patterns del_allowed_actions grants i) a)"
| "error_holds root agent grants now (InsufficientResourceAuthority i r) =
     (i < length grants \<and> r \<in> set (del_resource_scope (grants ! i)) \<and>
      \<not> covered_by_any (parent_patterns del_resource_scope grants i) r)"
| "error_holds root agent grants now (InvalidTime i) =
     (i < length grants \<and>
      \<not> (del_valid_from (grants ! i) \<le> now \<and> now \<le> del_valid_until (grants ! i)))"
| "error_holds root agent grants now (Revoked i) = (i < length grants \<and> del_revoked (grants ! i))"

definition double_star :: "string \<Rightarrow> bool" where
  "double_star p \<longleftrightarrow> ends_with p ''**''"

section \<open>Lemmas\<close>

lemma covered_is_match: "pattern_is_covered c p \<longleftrightarrow> pattern_matches p c"
  by (auto simp: pattern_is_covered_def pattern_matches_def wildcard_def)

lemma pattern_matches_iff:
  "pattern_matches p v \<longleftrightarrow> p = v \<or> (\<exists>q. p = q @ ''*'' \<and> prefix q v)"
  by (cases p rule: rev_cases)
    (auto simp: pattern_matches_def wildcard_def strip_suffix_char_def starts_with_def)

lemma covered_by_star [simp]: "covered_by_any [''*''] a"
  by (simp add: covered_by_any_def pattern_is_covered_def)

lemma all_covered_by_star [simp]: "list_all (covered_by_any [''*'']) xs"
  by (simp add: list_all_iff)

text \<open>Cover is inclusion of what the patterns match, unless the parent ends with two stars.\<close>

lemma covered_sound:
  assumes "pattern_is_covered c p" and "\<not> double_star p" and "pattern_matches c v"
  shows "pattern_matches p v"
proof -
  from assms(1) consider "p = c" | q where "p = q @ ''*''" "prefix q c"
    by (auto simp: covered_is_match pattern_matches_iff)
  then show ?thesis
  proof cases
    case 1
    with assms(3) show ?thesis by simp
  next
    case (2 q)
    from assms(3) consider "c = v" | r where "c = r @ ''*''" "prefix r v"
      by (auto simp: pattern_matches_iff)
    then show ?thesis
    proof cases
      case 1
      with 2 show ?thesis by (auto simp: pattern_matches_iff)
    next
      case (2 r)
      with \<open>prefix q c\<close> have "q = c \<or> prefix q r" by (simp add: prefix_snoc)
      moreover have "q \<noteq> c"
        using assms(2) \<open>p = q @ ''*''\<close> 2 by (auto simp: double_star_def ends_with_def suffix_def)
      ultimately show ?thesis
        using 2 \<open>p = q @ ''*''\<close> by (auto simp: pattern_matches_iff)
    qed
  qed
qed

lemma covered_complete:
  "(\<forall>v. pattern_matches c v \<longrightarrow> pattern_matches p v) \<Longrightarrow> pattern_is_covered c p"
  by (metis covered_is_match pattern_matches_iff)

lemma check_link_Inr:
  "check_link i parent g now = Inr () \<longleftrightarrow>
     grant_live now g \<and> (case parent of None \<Rightarrow> True | Some p \<Rightarrow> link_ok p g)"
  by (cases parent) (auto simp: check_link_def grant_live_def link_ok_def list_all_iff Let_def)

lemma check_links_Inr:
  "check_links i parent gs now = Inr () \<longleftrightarrow>
     (\<forall>g \<in> set gs. grant_live now g) \<and>
     (case parent of None \<Rightarrow> True | Some p \<Rightarrow> gs = [] \<or> link_ok p (hd gs)) \<and>
     (\<forall>j. Suc j < length gs \<longrightarrow> link_ok (gs ! j) (gs ! Suc j))"
proof (induction gs arbitrary: i parent)
  case (Cons g gs)
  have "(\<forall>j. Suc j < length (g # gs) \<longrightarrow> link_ok ((g # gs) ! j) ((g # gs) ! Suc j)) \<longleftrightarrow>
      (gs = [] \<or> link_ok g (hd gs)) \<and> (\<forall>j. Suc j < length gs \<longrightarrow> link_ok (gs ! j) (gs ! Suc j))"
    by (cases gs) (auto simp: nth_Cons split: nat.splits)
  then show ?case
    by (auto simp: bindR_eq_Inr check_link_Inr Cons.IH split: option.splits)
qed (auto split: option.splits)

lemma find_first_uncovered:
  assumes "\<not> list_all P xs"
  shows "the (find (\<lambda>a. \<not> P a) xs) \<in> set xs \<and> \<not> P (the (find (\<lambda>a. \<not> P a) xs))"
  using assms by (induction xs) auto

lemma check_link_Inl:
  assumes "check_link (length pre) (if pre = [] then None else Some (last pre)) g now = Inl e"
  shows "error_holds root agent (pre @ g # post) now e"
proof -
  have prev: "pre \<noteq> [] \<Longrightarrow> (pre @ g # post) ! (length pre - Suc 0) = last pre"
    by (simp add: nth_append last_conv_nth)
  have patterns: "parent_patterns f (pre @ g # post) (length pre)
      = (case (if pre = [] then None else Some (last pre)) of None \<Rightarrow> [''*''] | Some p \<Rightarrow> f p)" for f
    using prev by (simp add: parent_patterns_def)
  show ?thesis
    using assms prev
    by (auto simp: check_link_def Let_def patterns find_first_uncovered split: if_splits)
qed

lemma check_links_Inl:
  "check_links (length pre) (if pre = [] then None else Some (last pre)) gs now = Inl e \<Longrightarrow>
   error_holds root agent (pre @ gs) now e"
proof (induction gs arbitrary: pre)
  case (Cons g gs)
  then show ?case
    using check_link_Inl [of pre g now e root agent gs] Cons.IH [of "pre @ [g]"]
    by (auto simp: bindR_eq_Inl)
qed simp

lemma link_ok_step:
  assumes "link_ok p g" and "\<forall>q \<in> set (f p). \<not> double_star q"
    and "f = del_allowed_actions \<or> f = del_resource_scope"
    and "list_ex (\<lambda>q. pattern_matches q v) (f g)"
  shows "list_ex (\<lambda>q. pattern_matches q v) (f p)"
  using assms covered_sound
  by (fastforce simp: link_ok_def list_all_iff list_ex_iff covered_by_any_def)

lemma chain_attenuates:
  assumes links: "\<forall>i. Suc i < length gs \<longrightarrow> link_ok (gs ! i) (gs ! Suc i)"
    and stars: "\<forall>g \<in> set gs. \<forall>q \<in> set (f g). \<not> double_star q"
    and f: "f = del_allowed_actions \<or> f = del_resource_scope"
    and "i \<le> j" and "j < length gs" and "list_ex (\<lambda>q. pattern_matches q v) (f (gs ! j))"
  shows "list_ex (\<lambda>q. pattern_matches q v) (f (gs ! i))"
  using assms(4-6)
proof (induction j rule: dec_induct)
  case (step j)
  have "list_ex (\<lambda>q. pattern_matches q v) (f (gs ! j))"
  proof (rule link_ok_step [OF _ _ f])
    show "link_ok (gs ! j) (gs ! Suc j)" using links step.prems by simp
    show "\<forall>q \<in> set (f (gs ! j)). \<not> double_star q"
      using stars nth_mem [of j gs] step.prems(1) Suc_lessD by blast
  qed (use step.prems in simp)
  with step.IH step.prems show ?case by simp
qed simp

lemma validate_chain_Inr:
  "validate_chain root agent grants now = Inr () \<longleftrightarrow> chain_ok root agent grants now"
proof (cases grants)
  case Nil
  then show ?thesis by (auto simp: validate_chain_def chain_ok_def)
next
  case (Cons g gs)
  have "last grants = grants ! (length grants - 1)" using Cons by (simp add: last_conv_nth)
  then show ?thesis
    using Cons check_links_Inr [of 0 None grants now]
    by (auto simp: validate_chain_def chain_ok_def Let_def bindR_eq_Inr split: if_splits)
qed

section \<open>Properties\<close>

text \<open>
  C8: Validating a chain accepts exactly the chains that start at the root, end at the
  executing agent, whose grants are all unrevoked and in force, and in which every grant is
  issued by the recipient of the one before and delegates only patterns that one covers.
  A rejection names a link and a reason that really hold.
\<close>

theorem validate_chain_correct:
  "(validate_chain root agent grants now = Inr () \<longleftrightarrow> chain_ok root agent grants now) \<and>
   (\<forall>e. validate_chain root agent grants now = Inl e \<longrightarrow> error_holds root agent grants now e)"
proof -
  have "error_holds root agent grants now e" if "check_links 0 None grants now = Inl e" for e
    using check_links_Inl [of "[]" grants now e root agent] that by simp
  moreover have "grants \<noteq> [] \<Longrightarrow> last grants = grants ! (length grants - 1)" by (rule last_conv_nth)
  ultimately show ?thesis
    by (auto simp: validate_chain_Inr [symmetric])
      (auto simp: validate_chain_def Let_def bindR_eq_Inl split: list.splits if_splits)
qed

definition sample_grant :: "uuid \<Rightarrow> uuid \<Rightarrow> string list \<Rightarrow> Delegation" where
  "sample_grant issuer recipient actions =
     \<lparr> del_id = 1, del_issuer = issuer, del_recipient = recipient, del_allowed_actions = actions,
       del_resource_scope = [''*''], del_scope = default_scope, del_valid_from = 0,
       del_valid_until = 10, del_revoked = False \<rparr>"

theorem validate_chain_correct_witness:
  "error_holds 1 3 [sample_grant 1 2 [''doc:*''], sample_grant 2 3 [''note:read'']] 5
     (InsufficientActionAuthority 1 ''note:read'')"
  by (rule validate_chain_correct [THEN conjunct2, rule_format]) code_simp

text \<open>
  C9: Authority only shrinks along a valid chain. When no pattern ends with two stars, every
  action and every resource a grant allows is allowed by each grant before it, and so by the
  first one.
\<close>

theorem delegation_attenuates:
  assumes "validate_chain root agent grants now = Inr ()"
    and "\<forall>g \<in> set grants. \<forall>q \<in> set (del_allowed_actions g @ del_resource_scope g). \<not> double_star q"
    and "i \<le> j" and "j < length grants"
  shows "(allows_action (grants ! j) action \<longrightarrow> allows_action (grants ! i) action) \<and>
    (in_scope (grants ! j) resource \<longrightarrow> in_scope (grants ! i) resource)"
proof -
  have "\<forall>i. Suc i < length grants \<longrightarrow> link_ok (grants ! i) (grants ! Suc i)"
    using assms(1,4) check_links_Inr [of 0 None grants now]
    by (auto simp: validate_chain_def bindR_eq_Inr split: list.splits if_splits)
  then show ?thesis
    unfolding allows_action_def in_scope_def
    using chain_attenuates [of grants del_allowed_actions i j action]
      chain_attenuates [of grants del_resource_scope i j resource] assms(2-4) by auto
qed

theorem delegation_attenuates_witness:
  "allows_action (sample_grant 1 2 [''doc:*'']) ''doc:edit''"
proof -
  let ?gs = "[sample_grant 1 2 [''doc:*''], sample_grant 2 3 [''doc:e*'']]"
  have "validate_chain 1 3 ?gs 5 = Inr ()" by code_simp
  moreover have "\<forall>g \<in> set ?gs. \<forall>q \<in> set (del_allowed_actions g @ del_resource_scope g). \<not> double_star q"
    by code_simp
  moreover have "allows_action (?gs ! 1) ''doc:edit''" by code_simp
  ultimately show ?thesis
    using delegation_attenuates [of 1 3 ?gs 5 0 1 "''doc:edit''" "[]"] by simp
qed

text \<open>
  For a parent pattern that does not end with two stars, the cover test is exact: a child
  pattern is covered if and only if the parent matches everything the child matches.
\<close>

theorem pattern_is_covered_exact:
  assumes "\<not> double_star p"
  shows "pattern_is_covered c p \<longleftrightarrow> (\<forall>v. pattern_matches c v \<longrightarrow> pattern_matches p v)"
  using covered_sound [OF _ assms] covered_complete by blast

theorem pattern_is_covered_exact_witness: "pattern_matches ''doc:*'' ''doc:abc''"
proof -
  have "\<not> double_star ''doc:*''" and "pattern_is_covered ''doc:a*'' ''doc:*''"
    and "pattern_matches ''doc:a*'' ''doc:abc''"
    by code_simp+
  then show ?thesis using pattern_is_covered_exact [of "''doc:*''" "''doc:a*''"] by blast
qed


end
