(* ===== verification/AgentDef.thy ===== *)
theory AgentDef
  imports Evidence StoreContracts
begin

text \<open>
  Agent definitions, their limits, run events, and the recording store for them:
  \<^verbatim>\<open>crates/proof-kernel/src/agent.rs\<close>. Fresh identifiers are arguments.
\<close>

section \<open>Data\<close>

record AgentTool =
  tool_operation :: string
  tool_version :: string

record AgentLimits =
  max_steps :: u32
  max_model_calls :: u32
  max_total_tokens :: u64
  max_duration_seconds :: u64
  max_output_tokens_per_call :: u32
  max_cost_microusd :: "u64 option"

definition default_limits :: AgentLimits where
  "default_limits =
     \<lparr> max_steps = 16, max_model_calls = 24, max_total_tokens = 100000,
       max_duration_seconds = 900, max_output_tokens_per_call = 4096, max_cost_microusd = None \<rparr>"

record AgentDefinition =
  def_id :: uuid
  def_name :: string
  def_instructions :: string
  def_provider :: string
  def_model :: string
  def_tools :: "AgentTool list"
  def_limits :: AgentLimits
  def_created_at :: utc

datatype AgentRunEventKind =
    EvStarted | EvModelRequested | EvModelResponded | EvToolRequested | EvToolSucceeded
  | EvToolFailed | EvApprovalRequired | EvApprovalResumed | EvCompleted | EvFailed
  | EvBudgetExceeded

record AgentRunEvent =
  event_id :: uuid
  event_run_id :: uuid
  event_sequence :: u32
  event_kind :: AgentRunEventKind
  event_data :: json
  event_data_digest :: ContentDigest
  event_created_at :: utc

datatype AgentDefinitionError =
    EmptyName
  | EmptyInstructions
  | EmptyProvider
  | EmptyModel
  | NoTools
  | InvalidOperation string
  | InvalidVersion string
  | DuplicateTool string string
  | InvalidLimits
  | InvalidEventData

section \<open>Construction\<close>

definition valid_operation :: "string \<Rightarrow> bool" where
  "valid_operation operation =
     (case split_on CHR ''.'' operation of
        first # second # rest \<Rightarrow> first \<noteq> [] \<and> second \<noteq> [] \<and> list_all (\<lambda>part. part \<noteq> []) rest
      | _ \<Rightarrow> False)"

definition valid_version :: "string \<Rightarrow> bool" where
  "valid_version version =
     (case strip_prefix_char version CHR ''v'' of
        None \<Rightarrow> False
      | Some number \<Rightarrow> number \<noteq> [] \<and> list_all is_digit_char number)"

definition agent_tool_new :: "string \<Rightarrow> string \<Rightarrow> AgentDefinitionError + AgentTool" where
  "agent_tool_new operation version =
     (if \<not> valid_operation operation then Inl (InvalidOperation operation)
      else if \<not> valid_version version then Inl (InvalidVersion version)
      else Inr \<lparr> tool_operation = operation, tool_version = version \<rparr>)"

definition agent_tool_key :: "AgentTool \<Rightarrow> string" where
  "agent_tool_key tool = tool_operation tool @ ''::'' @ tool_version tool"

definition agent_limits_validate :: "AgentLimits \<Rightarrow> AgentDefinitionError + unit" where
  "agent_limits_validate limits =
     (if max_steps limits = 0 \<or> max_model_calls limits = 0 \<or> max_total_tokens limits = 0
         \<or> max_duration_seconds limits = 0 \<or> max_output_tokens_per_call limits = 0
         \<or> max_cost_microusd limits = Some 0
      then Inl InvalidLimits else Inr ())"

fun check_tools :: "(string \<times> string) set \<Rightarrow> AgentTool list \<Rightarrow> AgentDefinitionError + unit" where
  "check_tools unique [] = Inr ()"
| "check_tools unique (tool # tools) =
     (if \<not> valid_operation (tool_operation tool) then Inl (InvalidOperation (tool_operation tool))
      else if \<not> valid_version (tool_version tool) then Inl (InvalidVersion (tool_version tool))
      else if (tool_operation tool, tool_version tool) \<in> unique
      then Inl (DuplicateTool (tool_operation tool) (tool_version tool))
      else check_tools (insert (tool_operation tool, tool_version tool) unique) tools)"

definition agent_definition_new :: "uuid \<Rightarrow> string \<Rightarrow> string \<Rightarrow> string \<Rightarrow> string \<Rightarrow> AgentTool list
    \<Rightarrow> AgentLimits \<Rightarrow> utc \<Rightarrow> AgentDefinitionError + AgentDefinition" where
  "agent_definition_new fresh_id name instructions provider model tools limits created_at =
     (if trim_is_empty name then Inl EmptyName
      else if trim_is_empty instructions then Inl EmptyInstructions
      else if trim_is_empty provider then Inl EmptyProvider
      else if trim_is_empty model then Inl EmptyModel
      else if tools = [] then Inl NoTools
      else
        bindR (check_tools {} tools) (\<lambda>_.
        bindR (agent_limits_validate limits) (\<lambda>_.
        Inr \<lparr> def_id = fresh_id, def_name = name, def_instructions = instructions,
              def_provider = provider, def_model = model, def_tools = tools,
              def_limits = limits, def_created_at = created_at \<rparr>)))"

definition agent_run_event_create :: "host \<Rightarrow> uuid \<Rightarrow> uuid \<Rightarrow> u32 \<Rightarrow> AgentRunEventKind \<Rightarrow> json \<Rightarrow> utc
    \<Rightarrow> AgentDefinitionError + AgentRunEvent" where
  "agent_run_event_create H fresh_id run_id sequence kind data created_at =
     bindR (map_err (\<lambda>_. InvalidEventData) (canonicalize H data)) (\<lambda>canonical.
       Inr \<lparr> event_id = fresh_id, event_run_id = run_id, event_sequence = sequence,
             event_kind = kind, event_data = data,
             event_data_digest = digest H KAgentEvent canonical, event_created_at = created_at \<rparr>)"

section \<open>The recording store\<close>

record RecordingAgentStore =
  as_definitions :: "(uuid \<times> AgentDefinition) list"
  as_events :: "(uuid \<times> AgentRunEvent) list"

definition event_slot :: "AgentRunEvent \<Rightarrow> uuid \<times> u32" where
  "event_slot e = (event_run_id e, event_sequence e)"

definition name_taken_text :: "AgentDefinition \<Rightarrow> string" where
  "name_taken_text agent = ''agent name already exists: '' @ def_name agent"

definition sequence_taken_text :: "host \<Rightarrow> string \<Rightarrow> u32 \<Rightarrow> uuid \<Rightarrow> string" where
  "sequence_taken_text H record_name sequence run_id =
     record_name @ '' sequence '' @ show_nat (unat sequence) @ '' already exists for run ''
     @ host_uuid_text H run_id"

definition conflicting_text :: "host \<Rightarrow> string \<Rightarrow> uuid \<Rightarrow> string" where
  "conflicting_text H record_name rid = ''conflicting '' @ record_name @ '': '' @ host_uuid_text H rid"

definition as_save_agent_definition :: "host \<Rightarrow> RecordingAgentStore \<Rightarrow> AgentDefinition
    \<Rightarrow> string + RecordingAgentStore" where
  "as_save_agent_definition H s agent =
     bindR (save_unique (name_taken_text agent) (conflicting_text H ''agent definition'' (def_id agent))
              def_name def_id (as_definitions s) agent)
       (\<lambda>m. Inr (s\<lparr>as_definitions := m\<rparr>))"

definition as_load_agent_definition :: "RecordingAgentStore \<Rightarrow> uuid \<Rightarrow> AgentDefinition option" where
  "as_load_agent_definition s agent_id = map_of (as_definitions s) agent_id"

definition as_list_agent_definitions :: "RecordingAgentStore \<Rightarrow> AgentDefinition list" where
  "as_list_agent_definitions s =
     sort_key (\<lambda>agent. (def_created_at agent, def_id agent)) (bt_values (as_definitions s))"

definition as_save_agent_run_event :: "host \<Rightarrow> RecordingAgentStore \<Rightarrow> AgentRunEvent
    \<Rightarrow> string + RecordingAgentStore" where
  "as_save_agent_run_event H s event =
     bindR (save_unique
              (sequence_taken_text H ''agent run event'' (event_sequence event) (event_run_id event))
              (conflicting_text H ''agent run event'' (event_id event))
              event_slot event_id (as_events s) event)
       (\<lambda>m. Inr (s\<lparr>as_events := m\<rparr>))"

definition as_list_agent_run_events :: "RecordingAgentStore \<Rightarrow> uuid \<Rightarrow> AgentRunEvent list" where
  "as_list_agent_run_events s run_id =
     sort_key event_sequence (filter (\<lambda>event. event_run_id event = run_id) (bt_values (as_events s)))"

definition agent_store_ok :: "RecordingAgentStore \<Rightarrow> bool" where
  "agent_store_ok s \<longleftrightarrow> keyed def_id (as_definitions s) \<and> keyed event_id (as_events s)"

interpretation agent_definitions: unique_log agent_store_ok "as_save_agent_definition H"
  "\<lambda>s. set (bt_values (as_definitions s))" def_id def_name for H
  by (rule unique_log_table [OF _ as_save_agent_definition_def]) (simp_all add: agent_store_ok_def)

interpretation agent_events: unique_log agent_store_ok "as_save_agent_run_event H"
  "\<lambda>s. set (bt_values (as_events s))" event_id event_slot for H
  by (rule unique_log_table [OF _ as_save_agent_run_event_def]) (simp_all add: agent_store_ok_def)

section \<open>Lemmas\<close>

text \<open>What a definition that passed construction looks like.\<close>

definition limits_ok :: "AgentLimits \<Rightarrow> bool" where
  "limits_ok l \<longleftrightarrow>
     0 < max_steps l \<and> 0 < max_model_calls l \<and> 0 < max_total_tokens l \<and>
     0 < max_duration_seconds l \<and> 0 < max_output_tokens_per_call l \<and>
     (\<forall>c. max_cost_microusd l = Some c \<longrightarrow> 0 < c)"

definition tool_ok :: "AgentTool \<Rightarrow> bool" where
  "tool_ok t \<longleftrightarrow> valid_operation (tool_operation t) \<and> valid_version (tool_version t)"

definition agent_definition_ok :: "AgentDefinition \<Rightarrow> bool" where
  "agent_definition_ok d \<longleftrightarrow>
     \<not> trim_is_empty (def_name d) \<and> \<not> trim_is_empty (def_instructions d) \<and>
     \<not> trim_is_empty (def_provider d) \<and> \<not> trim_is_empty (def_model d) \<and>
     def_tools d \<noteq> [] \<and> (\<forall>t \<in> set (def_tools d). tool_ok t) \<and>
     distinct (map agent_tool_key (def_tools d)) \<and> limits_ok (def_limits d)"

lemma check_tools_ok:
  "check_tools unique tools = Inr () \<longleftrightarrow>
     (\<forall>t \<in> set tools. tool_ok t \<and> (tool_operation t, tool_version t) \<notin> unique) \<and>
     distinct (map (\<lambda>t. (tool_operation t, tool_version t)) tools)"
  by (induction tools arbitrary: unique) (auto simp: tool_ok_def image_iff)

lemma limits_validate_ok: "agent_limits_validate l = Inr () \<longleftrightarrow> limits_ok l"
  by (auto simp: agent_limits_validate_def limits_ok_def word_gt_0)

text \<open>A version has no colon, so the last \<open>::\<close> of a tool key separates its parts.\<close>

lemma valid_version_no_colon: "valid_version v \<Longrightarrow> CHR '':'' \<notin> set v"
  by (cases v) (auto simp: valid_version_def strip_prefix_char_def list_all_iff is_digit_char_def
      split: if_splits)

lemma tool_key_parts:
  assumes "p @ ''::'' @ v = q @ ''::'' @ w" and "CHR '':'' \<notin> set v" and "CHR '':'' \<notin> set w"
  shows "p = q \<and> v = w"
proof -
  have "rev v @ CHR '':'' # (CHR '':'' # rev p) = rev w @ CHR '':'' # (CHR '':'' # rev q)"
    using arg_cong [OF assms(1), of rev] by simp
  from nul_separated_eq [OF this] assms(2,3) show ?thesis by simp
qed

lemma tool_key_inj:
  assumes "tool_ok s" and "tool_ok t"
  shows "agent_tool_key s = agent_tool_key t \<longleftrightarrow> s = t"
  using assms tool_key_parts [of "tool_operation s" "tool_version s" "tool_operation t" "tool_version t"]
  by (auto simp: agent_tool_key_def tool_ok_def valid_version_no_colon intro: AgentTool.equality)

lemma distinct_tool_keys:
  assumes "\<forall>t \<in> set tools. tool_ok t"
  shows "distinct (map (\<lambda>t. (tool_operation t, tool_version t)) tools)
    \<longleftrightarrow> distinct (map agent_tool_key tools)"
proof -
  have "inj_on (\<lambda>t. (tool_operation t, tool_version t)) (set tools)"
    by (auto simp: inj_on_def intro: AgentTool.equality)
  moreover have "inj_on agent_tool_key (set tools)"
    using assms tool_key_inj by (auto simp: inj_on_def)
  ultimately show ?thesis by (simp add: distinct_map)
qed

section \<open>Properties\<close>


text \<open>
  The recording store keeps agent names unique and gives every position of a run at most
  one event, whatever saves are attempted, and it never loses a record.
\<close>

theorem agent_store_unique:
  assumes "agent_store_ok s"
    and "inj_on def_name (set (bt_values (as_definitions s)))"
    and "inj_on event_slot (set (bt_values (as_events s)))"
  shows "inj_on def_name (set (bt_values (as_definitions (attempts (as_save_agent_definition H) s ds)))) \<and>
    inj_on event_slot (set (bt_values (as_events (attempts (as_save_agent_run_event H) s es)))) \<and>
    set (bt_values (as_events s)) \<subseteq> set (bt_values (as_events (attempts (as_save_agent_run_event H) s es)))"
proof -
  have ids: "inj_on def_id (set (bt_values (as_definitions s)))"
    "inj_on event_id (set (bt_values (as_events s)))"
    using assms(1) keyed_inj by (auto simp: agent_store_ok_def)
  show ?thesis
    using agent_definitions.attempts_unique [OF assms(1) ids(1) assms(2)]
      agent_events.attempts_unique [OF assms(1) ids(2) assms(3)] by blast
qed

theorem agent_store_unique_witness:
  "inj_on event_slot (set (bt_values (as_events
     (attempts (as_save_agent_run_event sample_host) \<lparr> as_definitions = [], as_events = [] \<rparr>
        [\<lparr> event_id = 1, event_run_id = 9, event_sequence = 0, event_kind = EvStarted,
           event_data = JNull, event_data_digest = ContentDigest [], event_created_at = 0 \<rparr>,
         \<lparr> event_id = 2, event_run_id = 9, event_sequence = 0, event_kind = EvCompleted,
           event_data = JNull, event_data_digest = ContentDigest [], event_created_at = 0 \<rparr>]))))"
  by (rule agent_store_unique [THEN conjunct2, THEN conjunct1]) (simp_all add: agent_store_ok_def)

end
