(* ===== verification/AgentRun.thy ===== *)
theory AgentRun
  imports AgentDef
begin

text \<open>
  Agent runs, steps, checkpoints, evaluations and the live-start claim:
  the record types and their operations in
  \<^verbatim>\<open>crates/proof-kernel/src/agent_run.rs\<close> (the store is in \<open>RunStore\<close>).
  The revision counters are 64-bit words; their increment wraps as in a release build.
\<close>

section \<open>Data\<close>

datatype AgentRunMode = OneShot | Session

datatype AgentRunStatus =
  RunQueued | RunRunning | RunWaitingForInput | RunSucceeded | RunFailed | RunCancelled

datatype AgentRunStepStatus =
  StepPending | StepRunning | StepWaitingForApproval | StepSucceeded | StepFailed | StepCancelled

definition run_status_is_terminal :: "AgentRunStatus \<Rightarrow> bool" where
  "run_status_is_terminal status = (status \<in> {RunSucceeded, RunFailed, RunCancelled})"

definition step_status_is_terminal :: "AgentRunStepStatus \<Rightarrow> bool" where
  "step_status_is_terminal status = (status \<in> {StepSucceeded, StepFailed, StepCancelled})"

record AgentRun =
  run_id :: uuid
  run_actor :: uuid
  run_agent_id :: "uuid option"
  run_mode :: AgentRunMode
  run_goal :: string
  run_status :: AgentRunStatus
  run_retry_count :: u32
  run_revision :: u64
  run_created_at :: utc
  run_updated_at :: utc
  run_completed_at :: "utc option"

record AgentRunStep =
  step_id :: uuid
  step_run_id :: uuid
  step_ordinal :: u32
  step_attempt :: u32
  step_retry_of :: "uuid option"
  step_operation :: string
  step_version :: string
  step_input_digest :: ContentDigest
  step_status :: AgentRunStepStatus
  step_approval_request_id :: "uuid option"
  step_output :: "json option"
  step_proof :: "Proof option"
  step_error :: "string option"
  step_revision :: u64
  step_created_at :: utc
  step_updated_at :: utc
  step_started_at :: "utc option"
  step_completed_at :: "utc option"

record AgentCheckpoint =
  cp_id :: uuid
  cp_run_id :: uuid
  cp_sequence :: u32
  cp_state :: json
  cp_state_digest :: ContentDigest
  cp_created_at :: utc

record AgentCheckpointTail =
  tail_checkpoint_id :: uuid
  tail_sequence :: u32
  tail_state_digest :: ContentDigest

definition checkpoint_tail :: "AgentCheckpoint \<Rightarrow> AgentCheckpointTail" where
  "checkpoint_tail c =
     \<lparr> tail_checkpoint_id = cp_id c, tail_sequence = cp_sequence c,
       tail_state_digest = cp_state_digest c \<rparr>"

datatype AgentCheckpointAppendResult = Appended | Stale | AppendUnsupported

datatype AgentEvaluationOutcome = EvalPassed | EvalFailed

record AgentRunEvaluation =
  eval_id :: uuid
  eval_run_id :: uuid
  eval_evaluator :: string
  eval_outcome :: AgentEvaluationOutcome
  eval_score_bps :: "u16 option"
  eval_metrics :: json
  eval_summary :: "string option"
  eval_created_at :: utc

record LiveRunStartClaim =
  claim_schema :: string
  claim_readiness_binding_digest :: ContentDigest
  claim_setup_digest :: ContentDigest

datatype LiveRunStartClaimResult = Acquired | Existing uuid | Conflict | ClaimUnsupported

datatype AgentRunError =
    EmptyGoal
  | RunEmptyOperation
  | RunEmptyVersion
  | InvalidRunTransition AgentRunStatus AgentRunStatus
  | InvalidStepTransition AgentRunStepStatus AgentRunStepStatus
  | RetryOverflow
  | ProofMismatch
  | ApprovalBindingImmutable
  | InvalidInput
  | InvalidCheckpoint
  | RunNotTerminal
  | EmptyEvaluator
  | InvalidScore
  | InvalidMetrics
  | InvalidLiveStartClaim

section \<open>Runs\<close>

definition run_create :: "uuid \<Rightarrow> uuid \<Rightarrow> uuid option \<Rightarrow> AgentRunMode \<Rightarrow> string \<Rightarrow> utc
    \<Rightarrow> AgentRunError + AgentRun" where
  "run_create fresh_id actor agent mode goal created_at =
     (if trim_is_empty goal then Inl EmptyGoal
      else Inr \<lparr> run_id = fresh_id, run_actor = actor, run_agent_id = agent, run_mode = mode,
                 run_goal = goal, run_status = RunQueued, run_retry_count = 0, run_revision = 0,
                 run_created_at = created_at, run_updated_at = created_at,
                 run_completed_at = None \<rparr>)"

definition run_new :: "uuid \<Rightarrow> uuid \<Rightarrow> AgentRunMode \<Rightarrow> string \<Rightarrow> utc \<Rightarrow> AgentRunError + AgentRun" where
  "run_new fresh_id actor mode goal created_at = run_create fresh_id actor None mode goal created_at"

definition run_new_for_agent :: "uuid \<Rightarrow> uuid \<Rightarrow> uuid \<Rightarrow> AgentRunMode \<Rightarrow> string \<Rightarrow> utc
    \<Rightarrow> AgentRunError + AgentRun" where
  "run_new_for_agent fresh_id actor agent mode goal created_at =
     run_create fresh_id actor (Some agent) mode goal created_at"

fun run_transition_valid :: "AgentRunStatus \<Rightarrow> AgentRunStatus \<Rightarrow> bool" where
  "run_transition_valid RunQueued RunRunning = True"
| "run_transition_valid RunQueued RunCancelled = True"
| "run_transition_valid RunRunning RunWaitingForInput = True"
| "run_transition_valid RunRunning RunSucceeded = True"
| "run_transition_valid RunRunning RunFailed = True"
| "run_transition_valid RunRunning RunCancelled = True"
| "run_transition_valid RunWaitingForInput RunRunning = True"
| "run_transition_valid RunWaitingForInput RunFailed = True"
| "run_transition_valid RunWaitingForInput RunCancelled = True"
| "run_transition_valid RunFailed RunRunning = True"
| "run_transition_valid RunFailed RunCancelled = True"
| "run_transition_valid _ _ = False"

definition run_transition :: "AgentRun \<Rightarrow> AgentRunStatus \<Rightarrow> utc \<Rightarrow> AgentRunError + AgentRun" where
  "run_transition r next now =
     (if \<not> run_transition_valid (run_status r) next
      then Inl (InvalidRunTransition (run_status r) next)
      else Inr (r\<lparr> run_status := next, run_updated_at := now, run_revision := run_revision r + 1,
                  run_completed_at := (if run_status_is_terminal next then Some now else None) \<rparr>))"

definition run_start :: "AgentRun \<Rightarrow> utc \<Rightarrow> AgentRunError + AgentRun" where
  "run_start r now = run_transition r RunRunning now"

definition run_wait_for_input :: "AgentRun \<Rightarrow> utc \<Rightarrow> AgentRunError + AgentRun" where
  "run_wait_for_input r now = run_transition r RunWaitingForInput now"

definition run_resume :: "AgentRun \<Rightarrow> utc \<Rightarrow> AgentRunError + AgentRun" where
  "run_resume r now =
     bindR (if run_status r = RunFailed
            then bindR (ok_or RetryOverflow (checked_add (run_retry_count r) 1)) (\<lambda>count.
                   Inr (r\<lparr> run_retry_count := count \<rparr>))
            else Inr r)
       (\<lambda>r'. run_transition r' RunRunning now)"

definition run_succeed :: "AgentRun \<Rightarrow> utc \<Rightarrow> AgentRunError + AgentRun" where
  "run_succeed r now = run_transition r RunSucceeded now"

definition run_fail :: "AgentRun \<Rightarrow> utc \<Rightarrow> AgentRunError + AgentRun" where
  "run_fail r now = run_transition r RunFailed now"

definition run_cancel :: "AgentRun \<Rightarrow> utc \<Rightarrow> AgentRunError + AgentRun" where
  "run_cancel r now = run_transition r RunCancelled now"

section \<open>Steps\<close>

definition step_new :: "host \<Rightarrow> uuid \<Rightarrow> uuid \<Rightarrow> u32 \<Rightarrow> string \<Rightarrow> string \<Rightarrow> json \<Rightarrow> utc
    \<Rightarrow> AgentRunError + AgentRunStep" where
  "step_new H fresh_id run ordinal operation version input created_at =
     (if trim_is_empty operation then Inl RunEmptyOperation
      else if trim_is_empty version then Inl RunEmptyVersion
      else bindR (map_err (\<lambda>_. InvalidInput) (canonicalize H input)) (\<lambda>text.
        Inr \<lparr> step_id = fresh_id, step_run_id = run, step_ordinal = ordinal, step_attempt = 1,
              step_retry_of = None, step_operation = operation, step_version = version,
              step_input_digest = digest H KOperationInput text, step_status = StepPending,
              step_approval_request_id = None, step_output = None, step_proof = None,
              step_error = None, step_revision = 0, step_created_at = created_at,
              step_updated_at = created_at, step_started_at = None, step_completed_at = None \<rparr>))"

fun step_transition_valid :: "AgentRunStepStatus \<Rightarrow> AgentRunStepStatus \<Rightarrow> bool" where
  "step_transition_valid StepPending StepRunning = True"
| "step_transition_valid StepPending StepCancelled = True"
| "step_transition_valid StepRunning StepWaitingForApproval = True"
| "step_transition_valid StepRunning StepSucceeded = True"
| "step_transition_valid StepRunning StepFailed = True"
| "step_transition_valid StepRunning StepCancelled = True"
| "step_transition_valid StepWaitingForApproval StepRunning = True"
| "step_transition_valid StepWaitingForApproval StepFailed = True"
| "step_transition_valid StepWaitingForApproval StepCancelled = True"
| "step_transition_valid _ _ = False"

definition step_transition :: "AgentRunStep \<Rightarrow> AgentRunStepStatus \<Rightarrow> utc \<Rightarrow> AgentRunError + AgentRunStep" where
  "step_transition s next now =
     (if \<not> step_transition_valid (step_status s) next
      then Inl (InvalidStepTransition (step_status s) next)
      else Inr (s\<lparr> step_status := next, step_updated_at := now, step_revision := step_revision s + 1,
                  step_completed_at := (if step_status_is_terminal next then Some now else None) \<rparr>))"

definition step_start :: "AgentRunStep \<Rightarrow> utc \<Rightarrow> AgentRunError + AgentRunStep" where
  "step_start s now =
     bindR (step_transition s StepRunning now) (\<lambda>s'.
       Inr (s'\<lparr> step_started_at :=
         (case step_started_at s' of None \<Rightarrow> Some now | Some t \<Rightarrow> Some t) \<rparr>))"

definition step_wait_for_approval :: "AgentRunStep \<Rightarrow> uuid \<Rightarrow> utc \<Rightarrow> AgentRunError + AgentRunStep" where
  "step_wait_for_approval s approval now =
     (if (case step_approval_request_id s of None \<Rightarrow> False | Some existing \<Rightarrow> existing \<noteq> approval)
      then Inl ApprovalBindingImmutable
      else bindR (step_transition s StepWaitingForApproval now) (\<lambda>s'.
             Inr (s'\<lparr> step_approval_request_id := Some approval \<rparr>)))"

definition step_resume_from_approval :: "AgentRunStep \<Rightarrow> utc \<Rightarrow> AgentRunError + AgentRunStep" where
  "step_resume_from_approval s now = step_transition s StepRunning now"

definition step_succeed :: "host \<Rightarrow> AgentRunStep \<Rightarrow> json \<Rightarrow> Proof \<Rightarrow> utc
    \<Rightarrow> AgentRunError + AgentRunStep" where
  "step_succeed H s output prf now =
     bindR (map_err (\<lambda>_. ProofMismatch) (canonicalize H output)) (\<lambda>output_canonical.
     let proof_operation = step_operation s @ ''::'' @ step_version s in
     if body_operation (proof_body prf) \<noteq> proof_operation
        \<or> body_input_digest (proof_body prf) \<noteq> step_input_digest s
        \<or> body_output_digest (proof_body prf) \<noteq> digest H KOperationOutput output_canonical
     then Inl ProofMismatch
     else bindR (step_transition s StepSucceeded now) (\<lambda>s'.
            Inr (s'\<lparr> step_output := Some output, step_proof := Some prf, step_error := None \<rparr>)))"

definition step_fail :: "AgentRunStep \<Rightarrow> string \<Rightarrow> utc \<Rightarrow> AgentRunError + AgentRunStep" where
  "step_fail s message now =
     bindR (step_transition s StepFailed now) (\<lambda>s'. Inr (s'\<lparr> step_error := Some message \<rparr>))"

definition step_cancel :: "AgentRunStep \<Rightarrow> utc \<Rightarrow> AgentRunError + AgentRunStep" where
  "step_cancel s now = step_transition s StepCancelled now"

definition step_retry :: "AgentRunStep \<Rightarrow> uuid \<Rightarrow> utc \<Rightarrow> AgentRunError + AgentRunStep" where
  "step_retry s fresh_id created_at =
     (if step_status s \<notin> {StepFailed, StepCancelled}
      then Inl (InvalidStepTransition (step_status s) StepPending)
      else bindR (ok_or RetryOverflow (checked_add (step_attempt s) 1)) (\<lambda>attempt.
        Inr \<lparr> step_id = fresh_id, step_run_id = step_run_id s, step_ordinal = step_ordinal s,
              step_attempt = attempt, step_retry_of = Some (step_id s),
              step_operation = step_operation s, step_version = step_version s,
              step_input_digest = step_input_digest s, step_status = StepPending,
              step_approval_request_id = None, step_output = None, step_proof = None,
              step_error = None, step_revision = 0, step_created_at = created_at,
              step_updated_at = created_at, step_started_at = None, step_completed_at = None \<rparr>))"

section \<open>Checkpoints, evaluations and live-start claims\<close>

definition checkpoint_create :: "host \<Rightarrow> uuid \<Rightarrow> uuid \<Rightarrow> u32 \<Rightarrow> json \<Rightarrow> utc
    \<Rightarrow> AgentRunError + AgentCheckpoint" where
  "checkpoint_create H fresh_id run sequence state created_at =
     bindR (map_err (\<lambda>_. InvalidCheckpoint) (canonicalize H state)) (\<lambda>canonical.
       Inr \<lparr> cp_id = fresh_id, cp_run_id = run, cp_sequence = sequence, cp_state = state,
             cp_state_digest = digest H KAgentCheckpoint canonical, cp_created_at = created_at \<rparr>)"

definition evaluation_create :: "host \<Rightarrow> uuid \<Rightarrow> AgentRun \<Rightarrow> string \<Rightarrow> AgentEvaluationOutcome
    \<Rightarrow> u16 option \<Rightarrow> json \<Rightarrow> string option \<Rightarrow> utc \<Rightarrow> AgentRunError + AgentRunEvaluation" where
  "evaluation_create H fresh_id r evaluator outcome score_bps metrics summary created_at =
     (if \<not> run_status_is_terminal (run_status r) then Inl RunNotTerminal
      else if trim_is_empty evaluator then Inl EmptyEvaluator
      else if (case score_bps of None \<Rightarrow> False | Some score \<Rightarrow> score > 10000) then Inl InvalidScore
      else bindR (map_err (\<lambda>_. InvalidMetrics) (canonicalize H metrics)) (\<lambda>_.
        Inr \<lparr> eval_id = fresh_id, eval_run_id = run_id r, eval_evaluator = evaluator,
              eval_outcome = outcome, eval_score_bps = score_bps, eval_metrics = metrics,
              eval_summary = (case summary of None \<Rightarrow> None
                | Some text \<Rightarrow> if trim_is_empty text then None else Some text),
              eval_created_at = created_at \<rparr>))"

definition LIVE_RUN_START_CLAIM_SCHEMA :: string where
  "LIVE_RUN_START_CLAIM_SCHEMA = ''proof-live-run-start-claim/v1''"

definition zero_digest :: ContentDigest where
  "zero_digest = ContentDigest (replicate 32 0)"

definition live_claim_create :: "ContentDigest \<Rightarrow> ContentDigest \<Rightarrow> AgentRunError + LiveRunStartClaim" where
  "live_claim_create readiness setup =
     (if readiness = zero_digest \<or> setup = zero_digest then Inl InvalidLiveStartClaim
      else Inr \<lparr> claim_schema = LIVE_RUN_START_CLAIM_SCHEMA,
                 claim_readiness_binding_digest = readiness, claim_setup_digest = setup \<rparr>)"

definition json_as_object :: "json \<Rightarrow> (string \<times> json) list option" where
  "json_as_object v = (case v of JObject members \<Rightarrow> Some members | _ \<Rightarrow> None)"

text \<open>\<open>serde_json::from_value\<close> at \<open>Uuid\<close> and at \<open>DateTime<Utc>\<close>.\<close>

definition json_to_uuid :: "host \<Rightarrow> json \<Rightarrow> uuid option" where
  "json_to_uuid H v = Option.bind (json_as_str v) (host_parse_uuid H)"

definition json_to_utc :: "host \<Rightarrow> json \<Rightarrow> utc option" where
  "json_to_utc H v = Option.bind (json_as_str v) (host_parse_utc H)"

text \<open>The first block of checks of \<open>validate_initial_bundle\<close>: claim, run, checkpoint, event.\<close>

definition initial_rows_ok :: "host \<Rightarrow> LiveRunStartClaim \<Rightarrow> AgentRun \<Rightarrow> AgentCheckpoint \<Rightarrow> AgentRunEvent
    \<Rightarrow> bool" where
  "initial_rows_ok H claim r checkpoint started_event =
     (\<not> (claim_schema claim \<noteq> LIVE_RUN_START_CLAIM_SCHEMA
         \<or> claim_readiness_binding_digest claim = zero_digest
         \<or> claim_setup_digest claim = zero_digest
         \<or> \<not> uuid_is_v7 H (run_id r)
         \<or> (case run_agent_id r of None \<Rightarrow> True | Some agent \<Rightarrow> \<not> uuid_is_v7 H agent)
         \<or> run_mode r \<noteq> Session
         \<or> run_status r \<noteq> RunRunning
         \<or> run_retry_count r \<noteq> 0
         \<or> run_revision r \<noteq> 1
         \<or> run_created_at r \<noteq> run_updated_at r
         \<or> run_completed_at r \<noteq> None
         \<or> \<not> uuid_is_v7 H (cp_id checkpoint)
         \<or> cp_run_id checkpoint \<noteq> run_id r
         \<or> cp_sequence checkpoint \<noteq> 0
         \<or> cp_created_at checkpoint < run_created_at r
         \<or> \<not> uuid_is_v7 H (event_id started_event)
         \<or> event_run_id started_event \<noteq> run_id r
         \<or> event_sequence started_event \<noteq> 0
         \<or> event_kind started_event \<noteq> EvStarted
         \<or> event_created_at started_event < cp_created_at checkpoint))"

definition member_or_null :: "(string \<times> json) list \<Rightarrow> string \<Rightarrow> json" where
  "member_or_null members k = (case map_of members k of None \<Rightarrow> JNull | Some v \<Rightarrow> v)"

definition expected_started_data :: "(string \<times> json) list \<Rightarrow> json" where
  "expected_started_data runtime = jobject
     [(''live'', JBool True), (''schema'', member_or_null runtime ''schema''),
      (''process_epoch_id'', member_or_null runtime ''process_epoch_id''),
      (''policy_binding'', member_or_null runtime ''policy_binding''),
      (''authority'', member_or_null runtime ''authority'')]"

definition validate_initial_bundle :: "host \<Rightarrow> LiveRunStartClaim \<Rightarrow> AgentRun \<Rightarrow> AgentCheckpoint
    \<Rightarrow> AgentRunEvent \<Rightarrow> AgentRunError + unit" where
  "validate_initial_bundle H claim r checkpoint started_event =
     (if \<not> initial_rows_ok H claim r checkpoint started_event then Inl InvalidLiveStartClaim
      else
        bindR (ok_or InvalidLiveStartClaim (json_as_object (cp_state checkpoint))) (\<lambda>envelope.
        if length envelope \<noteq> 2
           \<or> Option.bind (map_of envelope ''kind'') json_as_str \<noteq> Some ''agent_runtime_v2''
        then Inl InvalidLiveStartClaim
        else
          bindR (ok_or InvalidLiveStartClaim
                   (Option.bind (map_of envelope ''runtime'') json_as_object)) (\<lambda>runtime.
          if Option.bind (map_of runtime ''schema'') json_as_str \<noteq> Some ''proof-agent-runtime-state/v2''
             \<or> Option.bind (map_of runtime ''run_id'') (json_to_uuid H) \<noteq> Some (run_id r)
             \<or> Option.bind (map_of runtime ''agent_id'') (json_to_uuid H) \<noteq> run_agent_id r
             \<or> Option.bind (map_of runtime ''started_at'') (json_to_utc H) \<noteq> Some (run_created_at r)
             \<or> (case Option.bind (map_of runtime ''process_epoch_id'') (json_to_uuid H) of
                  None \<Rightarrow> True | Some epoch \<Rightarrow> \<not> uuid_is_v7 H epoch)
          then Inl InvalidLiveStartClaim
          else
            bindR (map_err (\<lambda>_. InvalidLiveStartClaim) (canonicalize H (cp_state checkpoint)))
              (\<lambda>checkpoint_canonical.
            if cp_state_digest checkpoint \<noteq> digest H KAgentCheckpoint checkpoint_canonical
            then Inl InvalidLiveStartClaim
            else
              bindR (map_err (\<lambda>_. InvalidLiveStartClaim) (canonicalize H (event_data started_event)))
                (\<lambda>event_canonical.
              if event_data started_event \<noteq> expected_started_data runtime
                 \<or> event_data_digest started_event \<noteq> digest H KAgentEvent event_canonical
              then Inl InvalidLiveStartClaim
              else Inr ())))))"

section \<open>Run histories\<close>

datatype RunOp = OpStart | OpWaitForInput | OpResume | OpSucceed | OpFail | OpCancel

fun run_op :: "RunOp \<Rightarrow> AgentRun \<Rightarrow> utc \<Rightarrow> AgentRunError + AgentRun" where
  "run_op OpStart r now = run_start r now"
| "run_op OpWaitForInput r now = run_wait_for_input r now"
| "run_op OpResume r now = run_resume r now"
| "run_op OpSucceed r now = run_succeed r now"
| "run_op OpFail r now = run_fail r now"
| "run_op OpCancel r now = run_cancel r now"

text \<open>\<open>run_reach r n s\<close>: \<open>s\<close> is reached from \<open>r\<close> by \<open>n\<close> successful operations.\<close>

inductive run_reach :: "AgentRun \<Rightarrow> nat \<Rightarrow> AgentRun \<Rightarrow> bool" where
  reach_refl: "run_reach r 0 r"
| reach_step: "run_reach r n s \<Longrightarrow> run_op op s now = Inr t \<Longrightarrow> run_reach r (Suc n) t"

inductive_cases run_reach_SucE: "run_reach r (Suc n) t"

definition run_identity :: "AgentRun \<Rightarrow> uuid \<times> uuid \<times> uuid option \<times> AgentRunMode \<times> string \<times> utc" where
  "run_identity r =
     (run_id r, run_actor r, run_agent_id r, run_mode r, run_goal r, run_created_at r)"

definition run_inv :: "AgentRun \<Rightarrow> bool" where
  "run_inv r \<longleftrightarrow> run_completed_at r = (if run_status_is_terminal (run_status r)
                                       then Some (run_updated_at r) else None)"

lemma run_transition_Inr:
  "run_transition r next now = Inr s \<longleftrightarrow>
     run_transition_valid (run_status r) next \<and>
     s = r\<lparr> run_status := next, run_updated_at := now, run_revision := run_revision r + 1,
           run_completed_at := (if run_status_is_terminal next then Some now else None) \<rparr>"
  by (auto simp: run_transition_def)

lemmas run_op_defs = run_start_def run_wait_for_input_def run_resume_def run_succeed_def
  run_fail_def run_cancel_def run_transition_Inr bindR_eq_Inr

lemma run_op_facts:
  assumes "run_op op r now = Inr s"
  shows "run_transition_valid (run_status r) (run_status s)" and "run_revision s = run_revision r + 1"
    and "run_identity s = run_identity r" and "run_updated_at s = now" and "run_inv s"
    and "unat (run_retry_count s) = unat (run_retry_count r)
           + (if op = OpResume \<and> run_status r = RunFailed then 1 else 0)"
  using assms
  by (cases op; auto simp: run_op_defs run_identity_def run_inv_def dest: unat_checked_add
      split: if_splits)+

lemma run_final: "run_status r \<in> {RunSucceeded, RunCancelled} \<Longrightarrow> \<not> run_transition_valid (run_status r) s"
  by (cases s) auto

lemma run_reach_inv:
  "run_reach r n s \<Longrightarrow> run_inv r \<Longrightarrow>
     run_inv s \<and> run_identity s = run_identity r \<and> run_revision s = run_revision r + of_nat n \<and>
     unat (run_retry_count s) \<le> unat (run_retry_count r) + n"
  by (induction rule: run_reach.induct) (auto simp: run_op_facts)

lemma run_reach_final:
  "run_reach r n s \<Longrightarrow> run_status r \<in> {RunSucceeded, RunCancelled} \<Longrightarrow> n = 0 \<and> s = r"
proof (induction rule: run_reach.induct)
  case (reach_step r n s op now t)
  then show ?case using run_final [of s] run_op_facts(1) [of op s now t] by auto
qed simp

section \<open>Step histories\<close>

datatype StepOp =
    SOpStart
  | SOpWaitForApproval uuid
  | SOpResumeFromApproval
  | SOpSucceed json Proof
  | SOpFail string
  | SOpCancel

fun step_op :: "host \<Rightarrow> StepOp \<Rightarrow> AgentRunStep \<Rightarrow> utc \<Rightarrow> AgentRunError + AgentRunStep" where
  "step_op H SOpStart s now = step_start s now"
| "step_op H (SOpWaitForApproval approval) s now = step_wait_for_approval s approval now"
| "step_op H SOpResumeFromApproval s now = step_resume_from_approval s now"
| "step_op H (SOpSucceed output prf) s now = step_succeed H s output prf now"
| "step_op H (SOpFail message) s now = step_fail s message now"
| "step_op H SOpCancel s now = step_cancel s now"

inductive step_reach :: "host \<Rightarrow> AgentRunStep \<Rightarrow> nat \<Rightarrow> AgentRunStep \<Rightarrow> bool" for H where
  step_reach_refl: "step_reach H s 0 s"
| step_reach_step: "step_reach H r n s \<Longrightarrow> step_op H op s now = Inr t \<Longrightarrow> step_reach H r (Suc n) t"

definition step_identity :: "AgentRunStep \<Rightarrow>
    (uuid \<times> uuid \<times> u32 \<times> u32) \<times> uuid option \<times> string \<times> string \<times> ContentDigest \<times> utc" where
  "step_identity s =
     ((step_id s, step_run_id s, step_ordinal s, step_attempt s), step_retry_of s,
      step_operation s, step_version s, step_input_digest s, step_created_at s)"

text \<open>The proof of a finished step is about its operation, its input and its output.\<close>

definition step_evidence :: "host \<Rightarrow> AgentRunStep \<Rightarrow> bool" where
  "step_evidence H s \<longleftrightarrow>
     (\<exists>output prf text. step_output s = Some output \<and> step_proof s = Some prf \<and>
        canonicalize H output = Inr text \<and>
        body_operation (proof_body prf) = step_operation s @ ''::'' @ step_version s \<and>
        body_input_digest (proof_body prf) = step_input_digest s \<and>
        body_output_digest (proof_body prf) = digest H KOperationOutput text)"

definition step_inv :: "host \<Rightarrow> AgentRunStep \<Rightarrow> bool" where
  "step_inv H s \<longleftrightarrow>
     step_completed_at s = (if step_status_is_terminal (step_status s)
                            then Some (step_updated_at s) else None) \<and>
     (if step_status s = StepSucceeded then step_evidence H s
      else step_output s = None \<and> step_proof s = None) \<and>
     (step_status s = StepWaitingForApproval \<longrightarrow> step_approval_request_id s \<noteq> None) \<and>
     (step_status s = StepFailed \<longrightarrow> step_error s \<noteq> None)"

lemma step_transition_Inr:
  "step_transition s target now = Inr t \<longleftrightarrow>
     step_transition_valid (step_status s) target \<and>
     t = s\<lparr> step_status := target, step_updated_at := now, step_revision := step_revision s + 1,
           step_completed_at := (if step_status_is_terminal target then Some now else None) \<rparr>"
  by (auto simp: step_transition_def)

lemmas step_op_defs = step_start_def step_wait_for_approval_def step_resume_from_approval_def
  step_succeed_def step_fail_def step_cancel_def step_transition_Inr bindR_eq_Inr Let_def

lemma step_op_facts:
  assumes "step_op H op s now = Inr t"
  shows "step_transition_valid (step_status s) (step_status t)"
    and "step_revision t = step_revision s + 1" and "step_identity t = step_identity s"
    and "step_approval_request_id s = Some a \<Longrightarrow> step_approval_request_id t = Some a"
  using assms
  by (cases op; auto simp: step_op_defs step_identity_def split: if_splits option.splits)+

lemma step_final: "step_status_is_terminal st \<Longrightarrow> \<not> step_transition_valid st target"
  by (cases st; cases target) (auto simp: step_status_is_terminal_def)

lemma step_op_inv:
  assumes "step_inv H s" and "step_op H op s now = Inr t"
  shows "step_inv H t"
proof -
  have "step_status s \<noteq> StepSucceeded"
    using step_final [of "step_status s"] step_op_facts(1) [OF assms(2)]
    by (auto simp: step_status_is_terminal_def)
  then have none: "step_output s = None" "step_proof s = None"
    using assms(1) by (simp_all add: step_inv_def)
  show ?thesis
  proof (cases op)
    case (SOpSucceed v p)
    with assms(2) have "step_evidence H t" and "step_status t = StepSucceeded"
      and "step_completed_at t = Some now" and "step_updated_at t = now"
      by (auto simp: step_op_defs step_evidence_def step_status_is_terminal_def split: if_splits)
    then show ?thesis by (simp add: step_inv_def step_status_is_terminal_def)
  qed (use assms(2) none in \<open>auto simp: step_op_defs step_inv_def step_status_is_terminal_def
        split: if_splits option.splits\<close>)
qed

lemma step_reach_inv:
  "step_reach H r n s \<Longrightarrow> step_inv H r \<Longrightarrow>
     step_inv H s \<and> step_identity s = step_identity r \<and> step_revision s = step_revision r + of_nat n"
  by (induction rule: step_reach.induct) (auto simp: step_op_facts step_op_inv)

lemma step_reach_approval:
  "step_reach H r n s \<Longrightarrow> step_approval_request_id r = Some a \<Longrightarrow> step_approval_request_id s = Some a"
  by (induction rule: step_reach.induct) (auto simp: step_op_facts)

lemma step_reach_final:
  "step_reach H r n s \<Longrightarrow> step_status_is_terminal (step_status r) \<Longrightarrow> n = 0 \<and> s = r"
proof (induction rule: step_reach.induct)
  case (step_reach_step r n s op now t)
  then show ?case using step_final [of "step_status s"] step_op_facts(1) [of H op s now t] by auto
qed simp

lemma step_new_inv:
  "step_new H fresh run ordinal operation version input now = Inr s \<Longrightarrow>
     step_inv H s \<and> step_revision s = 0"
  by (auto simp: step_new_def step_inv_def step_status_is_terminal_def bindR_eq_Inr split: if_splits)

lemma step_retry_inv: "step_retry s fresh now = Inr t \<Longrightarrow> step_inv H t \<and> step_revision t = 0"
  by (auto simp: step_retry_def step_inv_def step_status_is_terminal_def bindR_eq_Inr split: if_splits)

section \<open>Properties\<close>

definition sample_run :: AgentRun where
  "sample_run =
     \<lparr> run_id = 1, run_actor = 7, run_agent_id = None, run_mode = OneShot, run_goal = ''goal'',
       run_status = RunQueued, run_retry_count = 0, run_revision = 0, run_created_at = 0,
       run_updated_at = 0, run_completed_at = None \<rparr>"

text \<open>
  C17: However a run is driven, its revision counts the operations that succeeded, its identity
  (id, actor, agent, mode, goal, creation time) never changes, it carries a completion time
  exactly while its status is terminal, and it was retried at most once per operation.
\<close>

theorem run_history:
  assumes "run_create fresh actor agent mode goal now = Inr r" and "run_reach r n s"
  shows "run_revision s = of_nat n \<and> run_identity s = (fresh, actor, agent, mode, goal, now) \<and>
    run_completed_at s = (if run_status_is_terminal (run_status s) then Some (run_updated_at s) else None) \<and>
    unat (run_retry_count s) \<le> n"
proof -
  have "run_inv r" and "run_revision r = 0" and "run_retry_count r = 0"
    and "run_identity r = (fresh, actor, agent, mode, goal, now)"
    using assms(1) by (auto simp: run_create_def run_inv_def run_status_is_terminal_def
        run_identity_def split: if_splits)
  with run_reach_inv [OF assms(2)] show ?thesis by (simp add: run_inv_def)
qed

theorem run_history_witness:
  "\<exists>s. run_reach sample_run 1 s \<and> run_revision s = 1"
proof -
  have "run_create 1 7 None OneShot ''goal'' 0 = Inr sample_run"
    by (simp add: run_create_def sample_run_def ws1_def ws2_def ws3_def)
  moreover obtain s where "run_op OpStart sample_run 5 = Inr s"
    by (simp add: run_start_def run_transition_def sample_run_def)
  then have "run_reach sample_run 1 s"
    using reach_step [OF reach_refl, of OpStart sample_run 5 s] by (simp only: One_nat_def)
  ultimately show ?thesis using run_history [of 1 7 None OneShot "''goal''" 0 sample_run 1 s] by auto
qed


definition sample_step :: AgentRunStep where
  "sample_step =
     \<lparr> step_id = 2, step_run_id = 1, step_ordinal = 0, step_attempt = 1, step_retry_of = None,
       step_operation = ''doc.create'', step_version = ''v1'',
       step_input_digest = digest sample_host KOperationInput ''null'', step_status = StepPending,
       step_approval_request_id = None, step_output = None, step_proof = None, step_error = None,
       step_revision = 0, step_created_at = 0, step_updated_at = 0, step_started_at = None,
       step_completed_at = None \<rparr>"



lemma sample_step_new:
  "step_new sample_host 2 1 0 ''doc.create'' ''v1'' JNull 0 = Inr sample_step"
  by (simp add: step_new_def sample_step_def canonicalize_def ws1_def ws2_def ws3_def)


text \<open>
  C20: The approval request a step waits for cannot be exchanged: once assigned it stays,
  through every operation, and waiting for a different one is refused.
\<close>

theorem approval_binding_immutable:
  assumes "step_reach H a n s" and "step_approval_request_id a = Some approval"
  shows "step_approval_request_id s = Some approval \<and>
    (other \<noteq> approval \<longrightarrow> step_wait_for_approval s other now = Inl ApprovalBindingImmutable)"
  using step_reach_approval [OF assms] by (auto simp: step_wait_for_approval_def)

theorem approval_binding_immutable_witness:
  "step_wait_for_approval (sample_step\<lparr>step_approval_request_id := Some 4\<rparr>) 5 0
     = Inl ApprovalBindingImmutable"
  using approval_binding_immutable [OF step_reach_refl,
      of "sample_step\<lparr>step_approval_request_id := Some 4\<rparr>" 4 5 0] by simp

end
