(* ===== verification/ReplayStore.thy ===== *)
theory ReplayStore
  imports Approval Registry Delegation AgentRun
begin

text \<open>
  What the execution engine and its storage share: contexts and errors
  (\<^verbatim>\<open>crates/proof-kernel/src/executor/context.rs\<close>, \<^verbatim>\<open>error.rs\<close>), the exact-replay
  protocol and the in-memory execution store (\<^verbatim>\<open>executor/store.rs\<close>). A store is a
  record of its operations over a state, as the \<open>ExecutionStore\<close> trait object is; the
  operations return the state beside their result, since a failing call may have changed it.
\<close>

section \<open>Contexts and errors\<close>

record ExecutionContext =
  ctx_actor :: uuid
  ctx_principal_kind :: "PrincipalKind option"
  ctx_delegation_id :: "uuid option"
  ctx_delegation_chain :: "DelegationChain option"
  ctx_workspace_path :: string
  ctx_timestamp :: utc

record AuditFilter =
  filter_operation :: "string option"
  filter_actor :: "uuid option"
  filter_since :: "utc option"
  filter_limit :: nat
  filter_offset :: nat

definition DEFAULT_LIMIT :: nat where
  "DEFAULT_LIMIT = 20"

definition MAX_LIMIT :: nat where
  "MAX_LIMIT = 100"

definition audit_filter_new :: AuditFilter where
  "audit_filter_new =
     \<lparr> filter_operation = None, filter_actor = None, filter_since = None,
       filter_limit = DEFAULT_LIMIT, filter_offset = 0 \<rparr>"

definition clamp_limit :: "AuditFilter \<Rightarrow> AuditFilter" where
  "clamp_limit f = f\<lparr>filter_limit := max 1 (min (filter_limit f) MAX_LIMIT)\<rparr>"

datatype IdempotencyError =
  MissingKey | InvalidUuidV7 | IdemConflict | IdemInProgress | Indeterminate | StorageRequired

datatype ExecutionError =
    OperationNotFound string string
  | NoHandler string
  | ExecHumanOnly
  | ExecApproval ApprovalError
  | ExecSunset
  | ExecDelegation DelegationError
  | ScopeViolation
  | HandlerFailed string
  | EvidenceFailed string
  | BenchmarkExpired string string
  | Idempotency IdempotencyError
  | StorageFailed string

subsection \<open>Messages\<close>

fun idempotency_error_text :: "IdempotencyError \<Rightarrow> string" where
  "idempotency_error_text MissingKey = ''idempotency_key is required''"
| "idempotency_error_text InvalidUuidV7 = ''idempotency_key must be a UUIDv7 string''"
| "idempotency_error_text IdemConflict = ''idempotency key is already bound to different input''"
| "idempotency_error_text IdemInProgress =
     ''idempotency key is currently being executed; retry later''"
| "idempotency_error_text Indeterminate =
     ''idempotency key has an indeterminate prior execution and requires reconciliation''"
| "idempotency_error_text StorageRequired =
     ''durable exact-replay storage is required for this operation''"

fun approval_error_text :: "ApprovalError \<Rightarrow> string" where
  "approval_error_text EmptyOperation = ''approval operation must not be empty''"
| "approval_error_text EmptyVersion = ''approval version must not be empty''"
| "approval_error_text InvalidWindow = ''approval expiration must be after its request time''"
| "approval_error_text RequesterMustBeAgent = ''approval requester must use an agent identity''"
| "approval_error_text RequesterMismatch =
     ''approval requester does not match the signing identity''"
| "approval_error_text ApproverMustBeHuman = ''approval decision must use a human identity''"
| "approval_error_text ApproverMismatch =
     ''approval decision does not match the signing identity''"
| "approval_error_text ApprovalInvalidSignature = ''approval signature is invalid''"
| "approval_error_text ApprovalCanonicalization =
     ''approval payload could not be canonicalized''"
| "approval_error_text RequestMismatch = ''approval request does not match the decision''"
| "approval_error_text ApprovalDenied = ''approval request was denied''"
| "approval_error_text ApprovalExpired = ''approval request has expired''"
| "approval_error_text DecisionOutOfWindow =
     ''approval decision falls outside the request validity window''"
| "approval_error_text OperationMismatch =
     ''approval operation does not match the requested execution''"
| "approval_error_text VersionMismatch =
     ''approval version does not match the requested execution''"
| "approval_error_text InputMismatch =
     ''approval input does not match the requested execution''"
| "approval_error_text ApprovalActorMismatch =
     ''approval actor does not match the requesting agent''"
| "approval_error_text UntrustedApprover =
     ''approval was signed by an untrusted human principal''"

fun delegation_error_text :: "host \<Rightarrow> DelegationError \<Rightarrow> string" where
  "delegation_error_text H EmptyChain = ''delegation chain cannot be empty''"
| "delegation_error_text H (InvalidRoot r) =
     ''delegation chain does not start at root principal '' @ host_uuid_text H r"
| "delegation_error_text H (BrokenChain i) =
     ''delegation links are not connected at link '' @ show_nat i"
| "delegation_error_text H (InvalidTerminalAgent i) =
     ''delegation recipient at link '' @ show_nat i @ '' is not the executing agent''"
| "delegation_error_text H (InsufficientActionAuthority i a) =
     ''grantor at link '' @ show_nat i @ '' cannot delegate '' @ a"
| "delegation_error_text H (InsufficientResourceAuthority i r) =
     ''grantor at link '' @ show_nat i @ '' cannot delegate resource '' @ r"
| "delegation_error_text H (InvalidTime i) =
     ''delegation at link '' @ show_nat i @ '' is not valid at the requested time''"
| "delegation_error_text H (Revoked i) = ''delegation at link '' @ show_nat i @ '' is revoked''"

fun execution_error_text :: "host \<Rightarrow> ExecutionError \<Rightarrow> string" where
  "execution_error_text H (OperationNotFound operation version) =
     ''operation not found: '' @ operation @ '' '' @ version"
| "execution_error_text H (NoHandler operation) = ''no handler registered for: '' @ operation"
| "execution_error_text H ExecHumanOnly = ''operation is human-only, agents cannot execute''"
| "execution_error_text H (ExecApproval e) = ''approval invalid: '' @ approval_error_text e"
| "execution_error_text H ExecSunset = ''operation is sunset and cannot be executed''"
| "execution_error_text H (ExecDelegation e) =
     ''delegation chain invalid: '' @ delegation_error_text H e"
| "execution_error_text H ScopeViolation = ''operation is outside the delegation scope''"
| "execution_error_text H (HandlerFailed e) = ''handler execution failed: '' @ e"
| "execution_error_text H (EvidenceFailed e) = ''evidence generation failed: '' @ e"
| "execution_error_text H (BenchmarkExpired b p) =
     ''benchmark proof expired: benchmark='' @ b @ '' proof='' @ p"
| "execution_error_text H (Idempotency e) = ''idempotency failed: '' @ idempotency_error_text e"
| "execution_error_text H (StorageFailed e) = ''storage failed: '' @ e"

fun proof_error_text :: "ProofError \<Rightarrow> string" where
  "proof_error_text InvalidSignature = ''invalid proof signature''"
| "proof_error_text ActorMismatch = ''proof actor does not match signing key''"
| "proof_error_text ProofCanonicalization = ''canonicalization failed''"

section \<open>The exact-replay protocol\<close>

datatype IdempotencyPolicy = PolicyNone | RequiredUuidV7ExactReplay

record ExecutionReplayKey =
  rkey_operation :: string
  rkey_version :: string
  rkey_idempotency_key :: uuid

record ExecutionReplayClaim =
  claim_key :: ExecutionReplayKey
  claim_input_digest :: ContentDigest
  claim_token :: uuid
  claim_claimed_by :: uuid
  claim_claimed_at :: utc

record ExecutionOutcome =
  outcome_output :: json
  outcome_proof :: Proof

datatype ExecutionReplayClaimResult =
    ReplayAcquired
  | ReplayCompleted ExecutionOutcome
  | ReplayConflict
  | ReplayInProgress
  | ReplayFailed
  | ReplayUnsupported

text \<open>The \<open>ExecutionStore\<close> trait; \<open>load_audit_contexts\<close> is not used by the engine.\<close>

record 's ExecutionStore =
  so_load_delegation :: "'s \<Rightarrow> uuid \<Rightarrow> string + Delegation option"
  so_save_proof :: "'s \<Rightarrow> Proof \<Rightarrow> (string + unit) \<times> 's"
  so_latest_proof_for_operation :: "'s \<Rightarrow> string \<Rightarrow> string \<Rightarrow> string + Proof option"
  so_save_execution_context :: "'s \<Rightarrow> ExecutionContext \<Rightarrow> (string + string) \<times> 's"
  so_claim_execution_replay ::
    "'s \<Rightarrow> ExecutionReplayClaim \<Rightarrow> (string + ExecutionReplayClaimResult) \<times> 's"
  so_complete_execution_replay ::
    "'s \<Rightarrow> ExecutionReplayClaim \<Rightarrow> ExecutionContext \<Rightarrow> ExecutionOutcome \<Rightarrow> (string + unit) \<times> 's"
  so_fail_execution_replay ::
    "'s \<Rightarrow> ExecutionReplayClaim \<Rightarrow> utc \<Rightarrow> string \<Rightarrow> (string + unit) \<times> 's"

section \<open>The in-memory store\<close>

datatype RecordingReplayState =
    RepClaimed
  | RepCompleted ExecutionContext ExecutionOutcome
  | RepFailed utc string

record RecordingReplay =
  replay_claim :: ExecutionReplayClaim
  replay_state :: RecordingReplayState

record RecordingStore =
  rec_proofs :: "Proof list"
  rec_contexts :: "ExecutionContext list"
  rec_delegations :: "Delegation list"
  rec_execution_replays :: "ExecutionReplayKey \<Rightarrow> RecordingReplay option"

definition rec_load_delegation :: "RecordingStore \<Rightarrow> uuid \<Rightarrow> string + Delegation option" where
  "rec_load_delegation s delegation_id = Inr (find (\<lambda>d. del_id d = delegation_id) (rec_delegations s))"

definition rec_save_proof :: "RecordingStore \<Rightarrow> Proof \<Rightarrow> (string + unit) \<times> RecordingStore" where
  "rec_save_proof s p = (Inr (), s\<lparr>rec_proofs := rec_proofs s @ [p]\<rparr>)"

text \<open>\<open>fresh\<close> is the identifier that \<open>Uuid::now_v7\<close> yields.\<close>

definition rec_save_execution_context :: "host \<Rightarrow> uuid \<Rightarrow> RecordingStore \<Rightarrow> ExecutionContext
    \<Rightarrow> (string + string) \<times> RecordingStore" where
  "rec_save_execution_context H fresh s context =
     (Inr (host_uuid_text H fresh), s\<lparr>rec_contexts := rec_contexts s @ [context]\<rparr>)"

definition rec_latest_proof_for_operation :: "RecordingStore \<Rightarrow> string \<Rightarrow> string \<Rightarrow> string + Proof option" where
  "rec_latest_proof_for_operation s operation version =
     (let full_operation = operation @ ''::'' @ version in
      Inr (max_by_key (\<lambda>p. body_timestamp (proof_body p))
             (filter (\<lambda>p. body_operation (proof_body p) = full_operation) (rec_proofs s))))"

definition rec_claim_execution_replay :: "RecordingStore \<Rightarrow> ExecutionReplayClaim
    \<Rightarrow> (string + ExecutionReplayClaimResult) \<times> RecordingStore" where
  "rec_claim_execution_replay s claim =
     (case rec_execution_replays s (claim_key claim) of
        None \<Rightarrow>
          (Inr ReplayAcquired,
           s\<lparr>rec_execution_replays := (rec_execution_replays s)
               (claim_key claim \<mapsto> \<lparr> replay_claim = claim, replay_state = RepClaimed \<rparr>)\<rparr>)
      | Some replay \<Rightarrow>
          if claim_input_digest (replay_claim replay) \<noteq> claim_input_digest claim
          then (Inr ReplayConflict, s)
          else (Inr (case replay_state replay of
                       RepClaimed \<Rightarrow> ReplayInProgress
                     | RepCompleted _ outcome \<Rightarrow> ReplayCompleted outcome
                     | RepFailed _ _ \<Rightarrow> ReplayFailed), s))"

definition execution_contexts_equal :: "ExecutionContext \<Rightarrow> ExecutionContext \<Rightarrow> bool" where
  "execution_contexts_equal left right =
     (ctx_actor left = ctx_actor right \<and> ctx_principal_kind left = ctx_principal_kind right
      \<and> ctx_delegation_id left = ctx_delegation_id right
      \<and> ctx_delegation_chain left = ctx_delegation_chain right
      \<and> ctx_workspace_path left = ctx_workspace_path right
      \<and> ctx_timestamp left = ctx_timestamp right)"

definition validate_replay_completion :: "host \<Rightarrow> ExecutionReplayClaim \<Rightarrow> ExecutionContext
    \<Rightarrow> ExecutionOutcome \<Rightarrow> string + unit" where
  "validate_replay_completion H claim context outcome =
     (let p = proof_body (outcome_proof outcome);
          expected_operation = rkey_operation (claim_key claim) @ ''::'' @ rkey_version (claim_key claim) in
      if body_operation p \<noteq> expected_operation
      then Inl ''execution replay proof operation does not match the claim''
      else if body_input_digest p \<noteq> claim_input_digest claim
      then Inl ''execution replay proof input digest does not match the claim''
      else if body_actor p \<noteq> claim_claimed_by claim \<or> body_actor p \<noteq> ctx_actor context
      then Inl ''execution replay proof actor does not match the claim''
      else if body_delegation_id p \<noteq> ctx_delegation_id context
              \<or> body_timestamp p \<noteq> ctx_timestamp context
      then Inl ''execution replay proof context does not match''
      else bindR (map_err (\<lambda>_. ''execution replay output could not be canonicalized'')
                    (canonicalize H (outcome_output outcome))) (\<lambda>canonical.
             if body_output_digest p \<noteq> digest H KOperationOutput canonical
             then Inl ''execution replay proof output digest does not match the output''
             else Inr ()))"

definition find_replay :: "RecordingStore \<Rightarrow> ExecutionReplayClaim \<Rightarrow> string + RecordingReplay" where
  "find_replay s claim =
     bindR (ok_or ''execution replay claim does not exist''
              (rec_execution_replays s (claim_key claim))) (\<lambda>replay.
       if claim_input_digest (replay_claim replay) \<noteq> claim_input_digest claim
       then Inl ''execution replay input digest conflicts with the claim''
       else if claim_token (replay_claim replay) \<noteq> claim_token claim
       then Inl ''execution replay claim token does not match''
       else Inr replay)"

definition rec_complete_execution_replay :: "host \<Rightarrow> RecordingStore \<Rightarrow> ExecutionReplayClaim
    \<Rightarrow> ExecutionContext \<Rightarrow> ExecutionOutcome \<Rightarrow> (string + unit) \<times> RecordingStore" where
  "rec_complete_execution_replay H s claim context outcome =
     (case bindR (validate_replay_completion H claim context outcome) (\<lambda>_. find_replay s claim) of
        Inl e \<Rightarrow> (Inl e, s)
      | Inr replay \<Rightarrow>
          (case replay_state replay of
             RepClaimed \<Rightarrow>
               (Inr (),
                s\<lparr>rec_contexts := rec_contexts s @ [context],
                  rec_proofs := rec_proofs s @ [outcome_proof outcome],
                  rec_execution_replays := (rec_execution_replays s)
                    (claim_key claim \<mapsto> replay\<lparr>replay_state := RepCompleted context outcome\<rparr>)\<rparr>)
           | RepCompleted stored_context stored_outcome \<Rightarrow>
               if execution_contexts_equal stored_context context \<and> stored_outcome = outcome
               then (Inr (), s)
               else (Inl ''execution replay is already completed differently'', s)
           | RepFailed _ _ \<Rightarrow> (Inl ''failed execution replay cannot be completed'', s)))"

definition rec_fail_execution_replay :: "RecordingStore \<Rightarrow> ExecutionReplayClaim \<Rightarrow> utc \<Rightarrow> string
    \<Rightarrow> (string + unit) \<times> RecordingStore" where
  "rec_fail_execution_replay s claim failed_at failure =
     (if failure = [] then (Inl ''execution replay failure must not be empty'', s)
      else case find_replay s claim of
        Inl e \<Rightarrow> (Inl e, s)
      | Inr replay \<Rightarrow>
          (case replay_state replay of
             RepClaimed \<Rightarrow>
               (Inr (),
                s\<lparr>rec_execution_replays := (rec_execution_replays s)
                    (claim_key claim \<mapsto> replay\<lparr>replay_state := RepFailed failed_at failure\<rparr>)\<rparr>)
           | RepFailed stored_at stored_failure \<Rightarrow>
               if stored_at = failed_at \<and> stored_failure = failure then (Inr (), s)
               else (Inl ''execution replay is already failed differently'', s)
           | RepCompleted _ _ \<Rightarrow> (Inl ''completed execution replay cannot be failed'', s)))"

definition recording_store :: "host \<Rightarrow> uuid \<Rightarrow> RecordingStore ExecutionStore" where
  "recording_store H fresh =
     \<lparr> so_load_delegation = rec_load_delegation,
       so_save_proof = rec_save_proof,
       so_latest_proof_for_operation = rec_latest_proof_for_operation,
       so_save_execution_context = rec_save_execution_context H fresh,
       so_claim_execution_replay = rec_claim_execution_replay,
       so_complete_execution_replay = rec_complete_execution_replay H,
       so_fail_execution_replay = rec_fail_execution_replay \<rparr>"

section \<open>What the engine relies on\<close>

text \<open>
  A key is taken from the moment it is claimed and stays taken; a claim is acquired only on a
  key that is free. That is all that running a handler at most once per key needs.
\<close>

locale replay_store =
  fixes ops :: "'s ExecutionStore" and taken :: "'s \<Rightarrow> ExecutionReplayKey set"
  assumes claim_acquired: "so_claim_execution_replay ops s c = (Inr ReplayAcquired, s') \<Longrightarrow>
      claim_key c \<notin> taken s \<and> claim_key c \<in> taken s'"
    and claim_keeps: "taken s \<subseteq> taken (snd (so_claim_execution_replay ops s c))"
    and complete_keeps: "taken s \<subseteq> taken (snd (so_complete_execution_replay ops s c ctx out))"
    and fail_keeps: "taken s \<subseteq> taken (snd (so_fail_execution_replay ops s c at why))"
    and proof_keeps: "taken s \<subseteq> taken (snd (so_save_proof ops s p))"
    and context_keeps: "taken s \<subseteq> taken (snd (so_save_execution_context ops s ctx))"

text \<open>
  Moreover a settled key (completed with an outcome, or failed) keeps its settlement, and a
  claim on it is answered by it without effect.
\<close>

locale exact_replay_store = replay_store ops taken
  for ops :: "'s ExecutionStore" and taken :: "'s \<Rightarrow> ExecutionReplayKey set" +
  fixes settled :: "'s \<Rightarrow> ExecutionReplayKey \<Rightarrow> (ContentDigest \<times> ExecutionOutcome option) option"
  assumes complete_settles: "so_complete_execution_replay ops s c ctx out = (Inr (), s') \<Longrightarrow>
      settled s' (claim_key c) = Some (claim_input_digest c, Some out)"
    and fail_settles: "so_fail_execution_replay ops s c at why = (Inr (), s') \<Longrightarrow>
      settled s' (claim_key c) = Some (claim_input_digest c, None)"
    and completed_settled: "so_claim_execution_replay ops s c = (Inr (ReplayCompleted out), s') \<Longrightarrow>
      settled s' (claim_key c) = Some (claim_input_digest c, Some out)"
    and settled_answer: "settled s (claim_key c) = Some (d, r) \<Longrightarrow>
      so_claim_execution_replay ops s c =
        (Inr (if d \<noteq> claim_input_digest c then ReplayConflict
              else case r of Some out \<Rightarrow> ReplayCompleted out | None \<Rightarrow> ReplayFailed), s)"
    and claim_settled: "settled s k = Some v \<Longrightarrow>
      settled (snd (so_claim_execution_replay ops s c)) k = Some v"
    and complete_settled: "settled s k = Some v \<Longrightarrow>
      settled (snd (so_complete_execution_replay ops s c ctx out)) k = Some v"
    and fail_settled: "settled s k = Some v \<Longrightarrow>
      settled (snd (so_fail_execution_replay ops s c at why)) k = Some v"
    and proof_settled: "settled s k = Some v \<Longrightarrow> settled (snd (so_save_proof ops s p)) k = Some v"
    and context_settled: "settled s k = Some v \<Longrightarrow>
      settled (snd (so_save_execution_context ops s ctx)) k = Some v"

section \<open>The in-memory store keeps the contract\<close>

definition rec_taken :: "RecordingStore \<Rightarrow> ExecutionReplayKey set" where
  "rec_taken s = dom (rec_execution_replays s)"

definition rec_settled :: "RecordingStore \<Rightarrow> ExecutionReplayKey
    \<Rightarrow> (ContentDigest \<times> ExecutionOutcome option) option" where
  "rec_settled s k =
     (case rec_execution_replays s k of
        None \<Rightarrow> None
      | Some r \<Rightarrow>
          (case replay_state r of
             RepClaimed \<Rightarrow> None
           | RepCompleted _ out \<Rightarrow> Some (claim_input_digest (replay_claim r), Some out)
           | RepFailed _ _ \<Rightarrow> Some (claim_input_digest (replay_claim r), None)))"

lemma recording_store_sel [simp]:
  "so_load_delegation (recording_store H fresh) = rec_load_delegation"
  "so_save_proof (recording_store H fresh) = rec_save_proof"
  "so_latest_proof_for_operation (recording_store H fresh) = rec_latest_proof_for_operation"
  "so_save_execution_context (recording_store H fresh) = rec_save_execution_context H fresh"
  "so_claim_execution_replay (recording_store H fresh) = rec_claim_execution_replay"
  "so_complete_execution_replay (recording_store H fresh) = rec_complete_execution_replay H"
  "so_fail_execution_replay (recording_store H fresh) = rec_fail_execution_replay"
  by (simp_all add: recording_store_def)

lemma find_replay_Inr:
  "find_replay s c = Inr r \<longleftrightarrow>
     rec_execution_replays s (claim_key c) = Some r \<and>
     claim_input_digest (replay_claim r) = claim_input_digest c \<and>
     claim_token (replay_claim r) = claim_token c"
  by (auto simp: find_replay_def result_simps split: if_splits)

lemmas rec_defs = rec_claim_execution_replay_def rec_complete_execution_replay_def
  rec_fail_execution_replay_def rec_save_proof_def rec_save_execution_context_def

interpretation recording: replay_store "recording_store H fresh" rec_taken
  by unfold_locales
    (auto simp: rec_taken_def rec_defs find_replay_Inr
      split: option.splits sum.splits RecordingReplayState.splits if_splits)

interpretation recording: exact_replay_store "recording_store H fresh" rec_taken rec_settled
  by unfold_locales
    (auto simp: rec_settled_def rec_defs find_replay_Inr result_simps
      split: option.splits sum.splits RecordingReplayState.splits if_splits)

text \<open>A key that completes was claimed with the same token and input by this very claim.\<close>

lemma rec_complete_Inr:
  assumes "rec_complete_execution_replay H s c ctx out = (Inr (), s')"
  shows "validate_replay_completion H c ctx out = Inr ()"
    and "\<exists>r. rec_execution_replays s (claim_key c) = Some r \<and>
           claim_input_digest (replay_claim r) = claim_input_digest c \<and>
           claim_token (replay_claim r) = claim_token c"
  using assms unfolding rec_complete_execution_replay_def
  by (auto simp: result_simps find_replay_Inr split: sum.splits)

end
