(* ===== verification/Engine.thy ===== *)
theory Engine
  imports ReplayStore
begin

text \<open>
  The execution engine: \<^verbatim>\<open>crates/proof-kernel/src/executor/engine.rs\<close>. The function
  \<open>execute_inner\<close> is cut at its effects into \<open>authorize\<close> (checks that only read),
  \<open>acquire\<close> (the exact-replay claim), \<open>benchmark_gate\<close>, \<open>run_handler\<close> and
  \<open>conclude\<close> (evidence and storage), so that executions can be interleaved between them.
  The state of a computation is the store beside the world the handlers act on. An
  \<open>expect\<close> that fails is the error \<open>Panic\<close>. Fresh identifiers are arguments.
\<close>

section \<open>State and errors\<close>

text \<open>A handler: its name, its replay policy per version, and its effect on the world.\<close>

record 'w OperationHandler =
  handler_operation :: string
  handler_idempotency_policy_for :: "string \<Rightarrow> IdempotencyPolicy"
  handler_execute_versioned ::
    "string \<Rightarrow> json \<Rightarrow> ExecutionContext \<Rightarrow> 'w \<Rightarrow> (ExecutionError + json) \<times> 'w"

record ('s, 'w) ExecutionEngine =
  eng_registry :: Registry
  eng_handlers :: "string \<Rightarrow> 'w OperationHandler option"
  eng_storage :: "'s ExecutionStore option"
  eng_keypair :: Keypair

record InternalExecutionOutcome =
  internal_output :: json
  internal_proof :: "Proof option"

datatype engine_error = Panic | Raise ExecutionError

definition new_with_keypair :: "Registry \<Rightarrow> Keypair \<Rightarrow> ('s, 'w) ExecutionEngine" where
  "new_with_keypair registry keypair =
     \<lparr> eng_registry = registry, eng_handlers = (\<lambda>_. None), eng_storage = None,
       eng_keypair = keypair \<rparr>"

definition with_storage :: "('s, 'w) ExecutionEngine \<Rightarrow> 's ExecutionStore \<Rightarrow> ('s, 'w) ExecutionEngine" where
  "with_storage eng storage = eng\<lparr>eng_storage := Some storage\<rparr>"

definition register_handler :: "('s, 'w) ExecutionEngine \<Rightarrow> 'w OperationHandler
    \<Rightarrow> ('s, 'w) ExecutionEngine" where
  "register_handler eng handler =
     eng\<lparr>eng_handlers := (eng_handlers eng)(handler_operation handler \<mapsto> handler)\<rparr>"

definition bindE :: "(engine_error + 'a) \<times> 's \<Rightarrow> ('a \<Rightarrow> 's \<Rightarrow> (engine_error + 'b) \<times> 's)
    \<Rightarrow> (engine_error + 'b) \<times> 's" where
  "bindE r f = (case r of (Inl e, s) \<Rightarrow> (Inl e, s) | (Inr x, s) \<Rightarrow> f x s)"

definition raise :: "(ExecutionError + 'a) \<Rightarrow> engine_error + 'a" where
  "raise r = map_err Raise r"

section \<open>Evidence\<close>

definition create_proof :: "host \<Rightarrow> uuid \<Rightarrow> uuid \<Rightarrow> uuid option \<Rightarrow> string \<Rightarrow> json \<Rightarrow> json \<Rightarrow> utc
    \<Rightarrow> Keypair \<Rightarrow> ProofError + Proof" where
  "create_proof H fresh actor delegation_id operation input result timestamp keypair =
     bindR (map_err (\<lambda>_. ProofCanonicalization) (canonicalize H input)) (\<lambda>input_canonical.
     bindR (map_err (\<lambda>_. ProofCanonicalization) (canonicalize H result)) (\<lambda>output_canonical.
       proof_sign H
         (proof_new fresh actor delegation_id operation (digest H KOperationInput input_canonical)
            (digest H KOperationOutput output_canonical) timestamp) keypair))"

definition create_operation_proof :: "host \<Rightarrow> ('s, 'w) ExecutionEngine \<Rightarrow> uuid \<Rightarrow> string \<Rightarrow> string
    \<Rightarrow> json \<Rightarrow> json \<Rightarrow> ExecutionContext \<Rightarrow> ProofError + Proof" where
  "create_operation_proof H eng fresh operation version input result context =
     create_proof H fresh (ctx_actor context) (ctx_delegation_id context)
       (operation @ ''::'' @ version) input result (ctx_timestamp context) (eng_keypair eng)"

section \<open>Checks that only read\<close>

text \<open>\<open>iter().position(..)\<close>\<close>

fun position :: "('a \<Rightarrow> bool) \<Rightarrow> 'a list \<Rightarrow> nat option" where
  "position P [] = None"
| "position P (x # xs) = (if P x then Some 0 else map_option Suc (position P xs))"

definition enforced_delegation :: "('s, 'w) ExecutionEngine \<Rightarrow> uuid \<Rightarrow> DelegationChain
    \<Rightarrow> ExecutionContext \<Rightarrow> 's \<Rightarrow> ExecutionError + Delegation" where
  "enforced_delegation eng delegation_id chain context s =
     (case eng_storage eng of
        Some storage \<Rightarrow>
          bindR (map_err StorageFailed (so_load_delegation storage s delegation_id)) (\<lambda>loaded.
          bindR (ok_or (ExecDelegation EmptyChain) loaded) (\<lambda>delegation.
          bindR (ok_or (ExecDelegation EmptyChain)
                   (position (\<lambda>grant. del_id grant = delegation_id) (chain_grants chain)))
            (\<lambda>chain_index.
             if chain_grants chain ! chain_index \<noteq> delegation
             then Inl (ExecDelegation EmptyChain)
             else if del_recipient delegation \<noteq> ctx_actor context
             then Inl (ExecDelegation (InvalidTerminalAgent chain_index))
             else Inr delegation)))
      | None \<Rightarrow>
          ok_or (ExecDelegation EmptyChain)
            (find (\<lambda>grant. del_id grant = delegation_id) (chain_grants chain)))"

definition enforce_delegation :: "('s, 'w) ExecutionEngine \<Rightarrow> string \<Rightarrow> string \<Rightarrow> uuid
    \<Rightarrow> ExecutionContext \<Rightarrow> 's \<Rightarrow> ExecutionError + unit" where
  "enforce_delegation eng operation domain delegation_id context s =
     bindR (ok_or (ExecDelegation EmptyChain) (ctx_delegation_chain context)) (\<lambda>chain.
     bindR (map_err ExecDelegation (chain_validate chain (ctx_actor context) (ctx_timestamp context)))
       (\<lambda>_.
     bindR (enforced_delegation eng delegation_id chain context s) (\<lambda>delegation.
       if scope_allows_operation (del_scope delegation) operation domain then Inr ()
       else Inl ScopeViolation)))"

definition check_governance :: "host \<Rightarrow> ('s, 'w) ExecutionEngine \<Rightarrow> RegistryEntry \<Rightarrow> string \<Rightarrow> string
    \<Rightarrow> json \<Rightarrow> ExecutionContext \<Rightarrow> (ApprovalGrant \<times> Principal) option \<Rightarrow> ExecutionError + unit" where
  "check_governance H eng entry operation version input context approval =
     (if entry_governance entry = HumanOnly \<and> ctx_principal_kind context \<noteq> Some Human
      then (case approval of
              None \<Rightarrow> Inl ExecHumanOnly
            | Some (grant, trusted_approver) \<Rightarrow>
                map_err ExecApproval
                  (verify_for_execution H grant (eng_keypair eng) trusted_approver operation
                     version input (ctx_actor context) (ctx_timestamp context)))
      else Inr ())"

definition check_delegation :: "('s, 'w) ExecutionEngine \<Rightarrow> RegistryEntry \<Rightarrow> string
    \<Rightarrow> ExecutionContext \<Rightarrow> 's \<Rightarrow> ExecutionError + unit" where
  "check_delegation eng entry operation context s =
     (case ctx_delegation_id context of
        Some delegation_id \<Rightarrow>
          enforce_delegation eng operation (entry_domain entry) delegation_id context s
      | None \<Rightarrow>
          (case ctx_delegation_chain context of
             Some chain \<Rightarrow>
               map_err ExecDelegation (chain_validate chain (ctx_actor context) (ctx_timestamp context))
           | None \<Rightarrow> Inr ()))"

definition authorize :: "host \<Rightarrow> ('s, 'w) ExecutionEngine \<Rightarrow> string \<Rightarrow> string \<Rightarrow> json
    \<Rightarrow> ExecutionContext \<Rightarrow> (ApprovalGrant \<times> Principal) option \<Rightarrow> 's
    \<Rightarrow> ExecutionError + RegistryEntry \<times> 'w OperationHandler" where
  "authorize H eng operation version input context approval s =
     bindR (ok_or (OperationNotFound operation version)
              (registry_find (eng_registry eng) operation version)) (\<lambda>entry.
     bindR (check_governance H eng entry operation version input context approval) (\<lambda>_.
       if entry_status entry = Sunset then Inl ExecSunset
       else
         bindR (check_delegation eng entry operation context s) (\<lambda>_.
         bindR (ok_or (NoHandler operation) (eng_handlers eng operation)) (\<lambda>handler.
           Inr (entry, handler)))))"

definition is_agent_executable :: "('s, 'w) ExecutionEngine \<Rightarrow> string \<Rightarrow> string
    \<Rightarrow> ExecutionError + bool" where
  "is_agent_executable eng operation version =
     bindR (ok_or (OperationNotFound operation version)
              (registry_find (eng_registry eng) operation version)) (\<lambda>entry.
       Inr (entry_governance entry = AgentExecutable))"

section \<open>Exact replay\<close>

definition execution_replay_claim :: "host \<Rightarrow> uuid \<Rightarrow> string \<Rightarrow> string \<Rightarrow> json \<Rightarrow> ExecutionContext
    \<Rightarrow> ExecutionError + ExecutionReplayClaim" where
  "execution_replay_claim H fresh operation version input context =
     bindR (ok_or (Idempotency MissingKey) (json_get input ''idempotency_key'')) (\<lambda>value.
     bindR (ok_or (Idempotency InvalidUuidV7) (json_as_str value)) (\<lambda>text.
     bindR (ok_or (Idempotency InvalidUuidV7) (host_parse_uuid H text)) (\<lambda>idempotency_key.
       if \<not> uuid_is_v7 H idempotency_key then Inl (Idempotency InvalidUuidV7)
       else
         bindR (map_err (\<lambda>e. EvidenceFailed (canonicalization_error_text e)) (canonicalize H input))
           (\<lambda>canonical.
             Inr \<lparr> claim_key =
                     \<lparr> rkey_operation = operation, rkey_version = version,
                       rkey_idempotency_key = idempotency_key \<rparr>,
                   claim_input_digest = digest H KOperationInput canonical,
                   claim_token = fresh, claim_claimed_by = ctx_actor context,
                   claim_claimed_at = ctx_timestamp context \<rparr>))))"

definition validate_replayed_outcome :: "host \<Rightarrow> ExecutionReplayClaim \<Rightarrow> ExecutionOutcome
    \<Rightarrow> ExecutionError + unit" where
  "validate_replayed_outcome H claim outcome =
     (let p = proof_body (outcome_proof outcome);
          expected_operation = rkey_operation (claim_key claim) @ ''::'' @ rkey_version (claim_key claim) in
      if body_operation p \<noteq> expected_operation
      then Inl (StorageFailed ''stored replay proof operation does not match the claim'')
      else if body_input_digest p \<noteq> claim_input_digest claim
      then Inl (StorageFailed ''stored replay proof input digest does not match the claim'')
      else bindR (map_err (\<lambda>_. StorageFailed ''stored replay output could not be canonicalized'')
                    (canonicalize H (outcome_output outcome))) (\<lambda>canonical.
             if body_output_digest p \<noteq> digest H KOperationOutput canonical
             then Inl (StorageFailed ''stored replay proof output digest does not match the output'')
             else Inr ()))"

text \<open>The execution goes on, under an acquired claim or none, or is answered by a replay.\<close>

datatype admission = Proceed "ExecutionReplayClaim option" | Replayed InternalExecutionOutcome

definition acquire :: "host \<Rightarrow> ('s, 'w) ExecutionEngine \<Rightarrow> 'w OperationHandler \<Rightarrow> uuid \<Rightarrow> string
    \<Rightarrow> string \<Rightarrow> json \<Rightarrow> ExecutionContext \<Rightarrow> 's \<Rightarrow> (ExecutionError + admission) \<times> 's" where
  "acquire H eng handler fresh operation version input context s =
     (case handler_idempotency_policy_for handler version of
        PolicyNone \<Rightarrow> (Inr (Proceed None), s)
      | RequiredUuidV7ExactReplay \<Rightarrow>
          (case execution_replay_claim H fresh operation version input context of
             Inl e \<Rightarrow> (Inl e, s)
           | Inr claim \<Rightarrow>
               (case eng_storage eng of
                  None \<Rightarrow> (Inl (Idempotency StorageRequired), s)
                | Some storage \<Rightarrow>
                    (case so_claim_execution_replay storage s claim of
                       (Inl e, s') \<Rightarrow> (Inl (StorageFailed e), s')
                     | (Inr claimed, s') \<Rightarrow>
                         ((case claimed of
                             ReplayAcquired \<Rightarrow> Inr (Proceed (Some claim))
                           | ReplayCompleted outcome \<Rightarrow>
                               bindR (validate_replayed_outcome H claim outcome) (\<lambda>_.
                                 Inr (Replayed \<lparr> internal_output = outcome_output outcome,
                                                 internal_proof = Some (outcome_proof outcome) \<rparr>))
                           | ReplayConflict \<Rightarrow> Inl (Idempotency IdemConflict)
                           | ReplayInProgress \<Rightarrow> Inl (Idempotency IdemInProgress)
                           | ReplayFailed \<Rightarrow> Inl (Idempotency Indeterminate)
                           | ReplayUnsupported \<Rightarrow> Inl (Idempotency StorageRequired)), s')))))"

definition fail_acquired_claim :: "host \<Rightarrow> ('s, 'w) ExecutionEngine \<Rightarrow> ExecutionReplayClaim option
    \<Rightarrow> utc \<Rightarrow> ExecutionError \<Rightarrow> 's \<Rightarrow> engine_error \<times> 's" where
  "fail_acquired_claim H eng claim failed_at error s =
     (case claim of
        None \<Rightarrow> (Raise error, s)
      | Some c \<Rightarrow>
          (case eng_storage eng of
             None \<Rightarrow> (Panic, s)
           | Some storage \<Rightarrow>
               (case so_fail_execution_replay storage s c failed_at (execution_error_text H error) of
                  (Inr _, s') \<Rightarrow> (Raise error, s')
                | (Inl failure, s') \<Rightarrow>
                    (Raise (StorageFailed
                       (''failed to record indeterminate execution after ''
                        @ execution_error_text H error @ '': '' @ failure)), s'))))"

section \<open>Dispatch\<close>

definition benchmark_gate :: "host \<Rightarrow> ('s, 'w) ExecutionEngine \<Rightarrow> RegistryEntry \<Rightarrow> string \<Rightarrow> string
    \<Rightarrow> ExecutionContext \<Rightarrow> ExecutionReplayClaim option \<Rightarrow> 's \<Rightarrow> (engine_error + unit) \<times> 's" where
  "benchmark_gate H eng entry operation version context claim s =
     (case (entry_benchmark entry, eng_storage eng) of
        (Some benchmark_id, Some storage) \<Rightarrow>
          (case so_latest_proof_for_operation storage s operation version of
             Inl e \<Rightarrow>
               apfst Inl (fail_acquired_claim H eng claim (ctx_timestamp context) (StorageFailed e) s)
           | Inr None \<Rightarrow> (Inr (), s)
           | Inr (Some p) \<Rightarrow>
               if proof_is_expired p (ctx_timestamp context)
               then apfst Inl (fail_acquired_claim H eng claim (ctx_timestamp context)
                      (BenchmarkExpired benchmark_id (host_uuid_text H (body_id (proof_body p)))) s)
               else (Inr (), s))
      | _ \<Rightarrow> (Inr (), s))"

definition run_handler :: "host \<Rightarrow> ('s, 'w) ExecutionEngine \<Rightarrow> 'w OperationHandler \<Rightarrow> string \<Rightarrow> json
    \<Rightarrow> ExecutionContext \<Rightarrow> ExecutionReplayClaim option \<Rightarrow> 's \<times> 'w
    \<Rightarrow> (engine_error + json) \<times> 's \<times> 'w" where
  "run_handler H eng handler version input context claim sw =
     (case handler_execute_versioned handler version input context (snd sw) of
        (Inr result, w') \<Rightarrow> (Inr result, fst sw, w')
      | (Inl error, w') \<Rightarrow>
          (case fail_acquired_claim H eng claim (ctx_timestamp context) error (fst sw) of
             (e, s') \<Rightarrow> (Inl e, s', w')))"

definition evidence :: "host \<Rightarrow> ('s, 'w) ExecutionEngine \<Rightarrow> uuid \<Rightarrow> string \<Rightarrow> string \<Rightarrow> json \<Rightarrow> json
    \<Rightarrow> ExecutionContext \<Rightarrow> ExecutionReplayClaim option \<Rightarrow> bool \<Rightarrow> 's
    \<Rightarrow> (engine_error + Proof option) \<times> 's" where
  "evidence H eng fresh operation version input result context claim evidence_required s =
     (if evidence_required \<or> eng_storage eng \<noteq> None \<or> claim \<noteq> None
      then (case create_operation_proof H eng fresh operation version input result context of
              Inr p \<Rightarrow> (Inr (Some p), s)
            | Inl error \<Rightarrow>
                apfst Inl (fail_acquired_claim H eng claim (ctx_timestamp context)
                  (EvidenceFailed (proof_error_text error)) s))
      else (Inr None, s))"

definition persist :: "('s, 'w) ExecutionEngine \<Rightarrow> json \<Rightarrow> Proof option \<Rightarrow> ExecutionContext
    \<Rightarrow> ExecutionReplayClaim option \<Rightarrow> 's \<Rightarrow> (engine_error + unit) \<times> 's" where
  "persist eng result p context claim s =
     (case claim of
        Some c \<Rightarrow>
          (case (p, eng_storage eng) of
             (Some q, Some storage) \<Rightarrow>
               apfst (\<lambda>r. map_err (\<lambda>e. Raise (StorageFailed e)) r)
                 (so_complete_execution_replay storage s c context
                    \<lparr> outcome_output = result, outcome_proof = q \<rparr>)
           | _ \<Rightarrow> (Inl Panic, s))
      | None \<Rightarrow>
          (case eng_storage eng of
             None \<Rightarrow> (Inr (), s)
           | Some storage \<Rightarrow>
               bindE (apfst (\<lambda>r. map_err (\<lambda>e. Raise (StorageFailed e)) r)
                        (so_save_execution_context storage s context)) (\<lambda>_ s'.
                 case p of
                   None \<Rightarrow> (Inl Panic, s')
                 | Some q \<Rightarrow>
                     apfst (\<lambda>r. map_err (\<lambda>e. Raise (StorageFailed e)) r) (so_save_proof storage s' q))))"

definition conclude :: "host \<Rightarrow> ('s, 'w) ExecutionEngine \<Rightarrow> uuid \<Rightarrow> string \<Rightarrow> string \<Rightarrow> json \<Rightarrow> json
    \<Rightarrow> ExecutionContext \<Rightarrow> ExecutionReplayClaim option \<Rightarrow> bool \<Rightarrow> 's
    \<Rightarrow> (engine_error + InternalExecutionOutcome) \<times> 's" where
  "conclude H eng fresh operation version input result context claim evidence_required s =
     bindE (evidence H eng fresh operation version input result context claim evidence_required s)
       (\<lambda>p s'. bindE (persist eng result p context claim s') (\<lambda>_ s''.
          (Inr \<lparr> internal_output = result, internal_proof = p \<rparr>, s'')))"

section \<open>Execution\<close>

text \<open>The arguments of one call, with the identifiers it draws.\<close>

record exec_call =
  call_operation :: string
  call_version :: string
  call_input :: json
  call_context :: ExecutionContext
  call_approval :: "(ApprovalGrant \<times> Principal) option"
  call_evidence_required :: bool
  call_claim_token :: uuid
  call_proof_id :: uuid

text \<open>Run a computation on the store beside a world it does not touch.\<close>

definition on_store :: "('a \<times> 's) \<Rightarrow> 'w \<Rightarrow> 'a \<times> 's \<times> 'w" where
  "on_store r w = (fst r, snd r, w)"

definition execute_admit :: "host \<Rightarrow> ('s, 'w) ExecutionEngine \<Rightarrow> exec_call \<Rightarrow> 's
    \<Rightarrow> (engine_error + (RegistryEntry \<times> 'w OperationHandler) \<times> admission) \<times> 's" where
  "execute_admit H eng c s =
     (case authorize H eng (call_operation c) (call_version c) (call_input c) (call_context c)
             (call_approval c) s of
        Inl e \<Rightarrow> (Inl (Raise e), s)
      | Inr (entry, handler) \<Rightarrow>
          apfst (\<lambda>r. raise (bindR r (\<lambda>a. Inr ((entry, handler), a))))
            (acquire H eng handler (call_claim_token c) (call_operation c) (call_version c)
               (call_input c) (call_context c) s))"

definition execute_dispatch :: "host \<Rightarrow> ('s, 'w) ExecutionEngine \<Rightarrow> exec_call \<Rightarrow> RegistryEntry
    \<Rightarrow> 'w OperationHandler \<Rightarrow> ExecutionReplayClaim option \<Rightarrow> 's \<times> 'w
    \<Rightarrow> (engine_error + InternalExecutionOutcome) \<times> 's \<times> 'w" where
  "execute_dispatch H eng c entry handler claim sw =
     bindE (on_store (benchmark_gate H eng entry (call_operation c) (call_version c)
                        (call_context c) claim (fst sw)) (snd sw)) (\<lambda>_ sw1.
     bindE (run_handler H eng handler (call_version c) (call_input c) (call_context c) claim sw1)
       (\<lambda>result sw2.
          on_store (conclude H eng (call_proof_id c) (call_operation c) (call_version c) (call_input c)
                      result (call_context c) claim (call_evidence_required c) (fst sw2)) (snd sw2)))"

definition execute_inner :: "host \<Rightarrow> ('s, 'w) ExecutionEngine \<Rightarrow> exec_call \<Rightarrow> 's \<times> 'w
    \<Rightarrow> (engine_error + InternalExecutionOutcome) \<times> 's \<times> 'w" where
  "execute_inner H eng c sw =
     bindE (on_store (execute_admit H eng c (fst sw)) (snd sw)) (\<lambda>admitted sw'.
       case admitted of
         (_, Replayed outcome) \<Rightarrow> (Inr outcome, sw')
       | ((entry, handler), Proceed claim) \<Rightarrow> execute_dispatch H eng c entry handler claim sw')"

text \<open>\<open>execute_operation\<close> adds only tracing to \<open>execute_inner\<close>.\<close>

definition execute :: "host \<Rightarrow> ('s, 'w) ExecutionEngine \<Rightarrow> exec_call \<Rightarrow> 's \<times> 'w
    \<Rightarrow> (engine_error + json) \<times> 's \<times> 'w" where
  "execute H eng c sw =
     apfst (map_sum id internal_output)
       (execute_inner H eng (c\<lparr>call_approval := None, call_evidence_required := False\<rparr>) sw)"

text \<open>\<open>proof.expect(..)\<close> of the two evidenced entry points.\<close>

definition evidenced :: "(engine_error + InternalExecutionOutcome) \<times> 's \<times> 'w
    \<Rightarrow> (engine_error + ExecutionOutcome) \<times> 's \<times> 'w" where
  "evidenced r =
     bindE r (\<lambda>outcome sw.
       (case internal_proof outcome of
          None \<Rightarrow> Inl Panic
        | Some p \<Rightarrow> Inr \<lparr> outcome_output = internal_output outcome, outcome_proof = p \<rparr>, sw))"

definition execute_evidenced :: "host \<Rightarrow> ('s, 'w) ExecutionEngine \<Rightarrow> exec_call \<Rightarrow> 's \<times> 'w
    \<Rightarrow> (engine_error + ExecutionOutcome) \<times> 's \<times> 'w" where
  "execute_evidenced H eng c sw =
     evidenced (execute_inner H eng (c\<lparr>call_approval := None, call_evidence_required := True\<rparr>) sw)"

definition execute_with_approval :: "host \<Rightarrow> ('s, 'w) ExecutionEngine \<Rightarrow> exec_call
    \<Rightarrow> ApprovalGrant \<times> Principal \<Rightarrow> 's \<times> 'w \<Rightarrow> (engine_error + json) \<times> 's \<times> 'w" where
  "execute_with_approval H eng c approval sw =
     apfst (map_sum id internal_output)
       (execute_inner H eng (c\<lparr>call_approval := Some approval, call_evidence_required := False\<rparr>) sw)"

definition execute_with_approval_evidenced :: "host \<Rightarrow> ('s, 'w) ExecutionEngine \<Rightarrow> exec_call
    \<Rightarrow> ApprovalGrant \<times> Principal \<Rightarrow> 's \<times> 'w \<Rightarrow> (engine_error + ExecutionOutcome) \<times> 's \<times> 'w" where
  "execute_with_approval_evidenced H eng c approval sw =
     evidenced
       (execute_inner H eng (c\<lparr>call_approval := Some approval, call_evidence_required := True\<rparr>) sw)"

section \<open>Interleaved executions\<close>

text \<open>
  Calls run concurrently against one store and one world. A machine holds the phase of each
  call and the list of the calls whose handler has run; \<open>advance\<close> moves the call that the
  scheduler picks through its next phase.
\<close>

datatype 'w phase =
    Waiting
  | Admitted RegistryEntry "'w OperationHandler" "ExecutionReplayClaim option"
  | Gated "'w OperationHandler" "ExecutionReplayClaim option"
  | Ran json "ExecutionReplayClaim option"
  | Finished "engine_error + InternalExecutionOutcome"

record ('s, 'w) machine =
  m_pool :: "nat \<Rightarrow> 'w phase"
  m_store :: 's
  m_world :: 'w
  m_runs :: "nat list"

definition set_phase :: "nat \<Rightarrow> 'w phase \<Rightarrow> 's \<Rightarrow> ('s, 'w) machine \<Rightarrow> ('s, 'w) machine" where
  "set_phase i p s m = m\<lparr>m_pool := (m_pool m)(i := p), m_store := s\<rparr>"

definition advance :: "host \<Rightarrow> ('s, 'w) ExecutionEngine \<Rightarrow> (nat \<Rightarrow> exec_call) \<Rightarrow> nat
    \<Rightarrow> ('s, 'w) machine \<Rightarrow> ('s, 'w) machine" where
  "advance H eng calls i m =
     (let c = calls i; s = m_store m in
      case m_pool m i of
        Waiting \<Rightarrow>
          (case execute_admit H eng c s of
             (Inl e, s') \<Rightarrow> set_phase i (Finished (Inl e)) s' m
           | (Inr (_, Replayed outcome), s') \<Rightarrow> set_phase i (Finished (Inr outcome)) s' m
           | (Inr ((entry, handler), Proceed claim), s') \<Rightarrow>
               set_phase i (Admitted entry handler claim) s' m)
      | Admitted entry handler claim \<Rightarrow>
          (case benchmark_gate H eng entry (call_operation c) (call_version c) (call_context c) claim s of
             (Inl e, s') \<Rightarrow> set_phase i (Finished (Inl e)) s' m
           | (Inr _, s') \<Rightarrow> set_phase i (Gated handler claim) s' m)
      | Gated handler claim \<Rightarrow>
          (case run_handler H eng handler (call_version c) (call_input c) (call_context c) claim
                  (s, m_world m) of
             (r, s', w') \<Rightarrow>
               (set_phase i (case r of Inl e \<Rightarrow> Finished (Inl e) | Inr result \<Rightarrow> Ran result claim) s' m)
                 \<lparr>m_world := w', m_runs := m_runs m @ [i]\<rparr>)
      | Ran result claim \<Rightarrow>
          (case conclude H eng (call_proof_id c) (call_operation c) (call_version c) (call_input c)
                  result (call_context c) claim (call_evidence_required c) s of
             (r, s') \<Rightarrow> set_phase i (Finished r) s' m)
      | Finished _ \<Rightarrow> m)"

definition run_schedule :: "host \<Rightarrow> ('s, 'w) ExecutionEngine \<Rightarrow> (nat \<Rightarrow> exec_call) \<Rightarrow> nat list
    \<Rightarrow> ('s, 'w) machine \<Rightarrow> ('s, 'w) machine" where
  "run_schedule H eng calls schedule m = fold (advance H eng calls) schedule m"

text \<open>The replay key a call is bound to, when its operation requires exact replay.\<close>

definition exact_replay :: "('s, 'w) ExecutionEngine \<Rightarrow> exec_call \<Rightarrow> bool" where
  "exact_replay eng c =
     (case eng_handlers eng (call_operation c) of
        None \<Rightarrow> False
      | Some h \<Rightarrow> handler_idempotency_policy_for h (call_version c) = RequiredUuidV7ExactReplay)"

definition replay_key :: "host \<Rightarrow> exec_call \<Rightarrow> ExecutionReplayKey option" where
  "replay_key H c =
     Option.bind (Option.bind (json_get (call_input c) ''idempotency_key'') json_as_str) (\<lambda>text.
       map_option (\<lambda>u. \<lparr> rkey_operation = call_operation c, rkey_version = call_version c,
                           rkey_idempotency_key = u \<rparr>) (host_parse_uuid H text))"

text \<open>A call past its admission, and what holds of all of them at any time.\<close>

definition entered :: "('s, 'w) machine \<Rightarrow> nat \<Rightarrow> bool" where
  "entered m i \<longleftrightarrow>
     i \<in> set (m_runs m) \<or>
     (case m_pool m i of Admitted _ _ _ \<Rightarrow> True | Gated _ _ \<Rightarrow> True | Ran _ _ \<Rightarrow> True | _ \<Rightarrow> False)"

definition machine_inv :: "host \<Rightarrow> ('s, 'w) ExecutionEngine \<Rightarrow> (nat \<Rightarrow> exec_call)
    \<Rightarrow> ('s \<Rightarrow> ExecutionReplayKey set) \<Rightarrow> ('s, 'w) machine \<Rightarrow> bool" where
  "machine_inv H eng calls taken m \<longleftrightarrow>
     (\<forall>i. entered m i \<longrightarrow> exact_replay eng (calls i) \<longrightarrow>
        (\<exists>k. replay_key H (calls i) = Some k \<and> k \<in> taken (m_store m))) \<and>
     (\<forall>i j. entered m i \<longrightarrow> entered m j \<longrightarrow> exact_replay eng (calls i) \<longrightarrow>
        exact_replay eng (calls j) \<longrightarrow> replay_key H (calls i) = replay_key H (calls j) \<longrightarrow> i = j) \<and>
     distinct (m_runs m) \<and>
     (\<forall>i \<in> set (m_runs m). case m_pool m i of Ran _ _ \<Rightarrow> True | Finished _ \<Rightarrow> True | _ \<Rightarrow> False)"

section \<open>Lemmas\<close>

lemma bindE_simps [simp]:
  "bindE (Inl e, s) f = (Inl e, s)"
  "bindE (Inr x, s) f = f x s"
  by (simp_all add: bindE_def)

lemma bindE_eq: "bindE r f = (case fst r of Inl e \<Rightarrow> (Inl e, snd r) | Inr x \<Rightarrow> f x (snd r))"
  by (cases r; cases "fst r") (auto simp: bindE_def)

lemma authorize_Inr:
  "authorize H eng operation version input context approval s = Inr (entry, handler) \<longleftrightarrow>
     registry_find (eng_registry eng) operation version = Some entry \<and>
     check_governance H eng entry operation version input context approval = Inr () \<and>
     entry_status entry \<noteq> Sunset \<and>
     check_delegation eng entry operation context s = Inr () \<and>
     eng_handlers eng operation = Some handler"
  by (auto simp: authorize_def result_simps split: if_splits)

lemma replay_claim_Inr:
  assumes "execution_replay_claim H fresh (call_operation c) (call_version c) (call_input c) context
    = Inr claim"
  shows "replay_key H c = Some (claim_key claim)"
    and "rkey_operation (claim_key claim) = call_operation c"
    and "rkey_version (claim_key claim) = call_version c"
    and "claim_claimed_by claim = ctx_actor context" and "claim_token claim = fresh"
    and "\<exists>canonical. canonicalize H (call_input c) = Inr canonical \<and>
           claim_input_digest claim = digest H KOperationInput canonical"
  using assms unfolding execution_replay_claim_def replay_key_def
  by (auto simp: result_simps split: if_splits)

lemma acquire_Inr:
  assumes "acquire H eng handler fresh operation version input context s = (Inr a, s')"
  shows "(handler_idempotency_policy_for handler version = PolicyNone \<and> a = Proceed None \<and> s' = s) \<or>
    (\<exists>claim storage. handler_idempotency_policy_for handler version = RequiredUuidV7ExactReplay \<and>
       execution_replay_claim H fresh operation version input context = Inr claim \<and>
       eng_storage eng = Some storage \<and>
       ((a = Proceed (Some claim) \<and>
         so_claim_execution_replay storage s claim = (Inr ReplayAcquired, s')) \<or>
        (\<exists>out. so_claim_execution_replay storage s claim = (Inr (ReplayCompleted out), s') \<and>
           validate_replayed_outcome H claim out = Inr () \<and>
           a = Replayed \<lparr> internal_output = outcome_output out,
                          internal_proof = Some (outcome_proof out) \<rparr>)))"
  using assms unfolding acquire_def
  by (auto simp: result_simps split: IdempotencyPolicy.splits sum.splits option.splits prod.splits
      ExecutionReplayClaimResult.splits)

lemma execute_admit_Inr:
  assumes "execute_admit H eng c s = (Inr ((entry, handler), a), s')"
  shows "authorize H eng (call_operation c) (call_version c) (call_input c) (call_context c)
           (call_approval c) s = Inr (entry, handler)"
    and "acquire H eng handler (call_claim_token c) (call_operation c) (call_version c) (call_input c)
           (call_context c) s = (Inr a, s')"
  using assms unfolding execute_admit_def
  by (auto simp: raise_def apfst_def map_prod_def result_simps split: sum.splits prod.splits)

text \<open>A call that is admitted under exact replay has acquired the claim on its key.\<close>

lemma admitted_exact:
  assumes "execute_admit H eng c s = (Inr ((entry, handler), Proceed claim), s')"
    and "exact_replay eng c" and "eng_storage eng = Some storage"
  obtains cl where "claim = Some cl" and "replay_key H c = Some (claim_key cl)"
    and "so_claim_execution_replay storage s cl = (Inr ReplayAcquired, s')"
proof -
  from execute_admit_Inr(1) [OF assms(1)] have "eng_handlers eng (call_operation c) = Some handler"
    by (simp add: authorize_Inr)
  with assms(2) have "handler_idempotency_policy_for handler (call_version c) = RequiredUuidV7ExactReplay"
    by (simp add: exact_replay_def)
  with acquire_Inr [OF execute_admit_Inr(2) [OF assms(1)]] assms(3) that replay_claim_Inr(1)
  show thesis by auto
qed

lemma entered_set_phase:
  "entered (set_phase i p s m) j \<longleftrightarrow>
     (if j = i then i \<in> set (m_runs m) \<or>
        (case p of Admitted _ _ _ \<Rightarrow> True | Gated _ _ \<Rightarrow> True | Ran _ _ \<Rightarrow> True | _ \<Rightarrow> False)
      else entered m j)"
  by (simp add: entered_def set_phase_def)

text \<open>
  A step that takes no key and lets no new call enter keeps the invariant. The remaining step
  is the admission of a call.
\<close>

lemma machine_inv_stay:
  assumes "machine_inv H eng calls taken m" and "\<And>j. entered m' j \<Longrightarrow> entered m j"
    and "taken (m_store m) \<subseteq> taken (m_store m')" and "distinct (m_runs m')"
    and "\<forall>i \<in> set (m_runs m'). case m_pool m' i of Ran _ _ \<Rightarrow> True | Finished _ \<Rightarrow> True | _ \<Rightarrow> False"
  shows "machine_inv H eng calls taken m'"
  using assms unfolding machine_inv_def by blast

lemma machine_inv_enter:
  assumes "machine_inv H eng calls taken m" and "m_pool m i = Waiting"
    and "taken (m_store m) \<subseteq> taken s'"
    and "exact_replay eng (calls i) \<Longrightarrow>
      \<exists>k. replay_key H (calls i) = Some k \<and> k \<notin> taken (m_store m) \<and> k \<in> taken s'"
  shows "machine_inv H eng calls taken (set_phase i (Admitted entry handler claim) s' m)"
proof -
  let ?m = "set_phase i (Admitted entry handler claim) s' m"
  have sel: "m_store ?m = s'" "m_runs ?m = m_runs m" by (simp_all add: set_phase_def)
  have new: "entered ?m j \<longleftrightarrow> j = i \<or> entered m j" for j
    by (auto simp: entered_set_phase)
  have out: "i \<notin> set (m_runs m)" using assms(1,2) by (force simp: machine_inv_def)
  have keys: "\<exists>k. replay_key H (calls j) = Some k \<and> k \<in> taken (m_store m)"
    if "entered m j" "exact_replay eng (calls j)" for j
    using assms(1) that unfolding machine_inv_def by blast
  have other: "replay_key H (calls i) \<noteq> replay_key H (calls j)"
    if "entered m j" "exact_replay eng (calls j)" "exact_replay eng (calls i)" for j
    using keys [OF that(1,2)] assms(4) [OF that(3)] by auto
  show ?thesis
    unfolding machine_inv_def new sel
  proof (intro conjI allI impI)
    fix j assume "j = i \<or> entered m j" and "exact_replay eng (calls j)"
    then show "\<exists>k. replay_key H (calls j) = Some k \<and> k \<in> taken s'"
      using keys [of j] assms(3,4) by blast
  next
    fix j l assume "j = i \<or> entered m j" and "l = i \<or> entered m l" and "exact_replay eng (calls j)"
      and "exact_replay eng (calls l)" and "replay_key H (calls j) = replay_key H (calls l)"
    then show "j = l"
      using other [of j] other [of l] assms(1) unfolding machine_inv_def by metis
  next
    show "distinct (m_runs m)" using assms(1) by (simp add: machine_inv_def)
  next
    show "\<forall>j \<in> set (m_runs m). case m_pool ?m j of Ran _ _ \<Rightarrow> True | Finished _ \<Rightarrow> True | _ \<Rightarrow> False"
      using assms(1) out by (auto simp: machine_inv_def set_phase_def)
  qed
qed

lemma set_phase_sel [simp]:
  "m_store (set_phase i p s m) = s" "m_runs (set_phase i p s m) = m_runs m"
  "m_world (set_phase i p s m) = m_world m" "m_pool (set_phase i p s m) = (m_pool m)(i := p)"
  by (simp_all add: set_phase_def)

lemma entered_world [simp]: "entered (m\<lparr>m_world := w\<rparr>) = entered m"
  by (simp add: entered_def fun_eq_iff)

text \<open>What each phase does to the store.\<close>

lemma fail_claim_store:
  "eng_storage eng = Some st \<Longrightarrow>
   snd (fail_acquired_claim H eng claim at e s) =
     (case claim of None \<Rightarrow> s | Some c \<Rightarrow> snd (so_fail_execution_replay st s c at (execution_error_text H e)))"
  by (auto simp: fail_acquired_claim_def split: option.splits sum.splits prod.splits)

lemma run_handler_store:
  "run_handler H eng h version input ctx claim (s, w) = (r, s', w') \<Longrightarrow>
   s' = s \<or> (\<exists>e. s' = snd (fail_acquired_claim H eng claim (ctx_timestamp ctx) e s))"
  by (auto simp: run_handler_def split: sum.splits prod.splits) (metis snd_conv)

lemma acquire_store:
  "eng_storage eng = Some st \<Longrightarrow>
   snd (acquire H eng h fresh operation version input ctx s) = s \<or>
   (\<exists>c. snd (acquire H eng h fresh operation version input ctx s) = snd (so_claim_execution_replay st s c))"
  by (auto simp: acquire_def split: IdempotencyPolicy.splits sum.splits option.splits prod.splits)
    (metis snd_conv)+

lemma admit_store:
  assumes "eng_storage eng = Some st"
  shows "snd (execute_admit H eng c s) = s \<or>
    (\<exists>cl. snd (execute_admit H eng c s) = snd (so_claim_execution_replay st s cl))"
  using acquire_store [OF assms] by (simp add: execute_admit_def split: sum.splits prod.splits)

subsection \<open>Evidence\<close>

lemma create_operation_proof_Inr:
  "create_operation_proof H eng fresh operation version input result ctx = Inr p \<longleftrightarrow>
     (\<exists>ci co. canonicalize H input = Inr ci \<and> canonicalize H result = Inr co \<and>
        keypair_principal_id (eng_keypair eng) = ctx_actor ctx \<and>
        proof_sign H (proof_new fresh (ctx_actor ctx) (ctx_delegation_id ctx)
          (operation @ ''::'' @ version) (digest H KOperationInput ci) (digest H KOperationOutput co)
          (ctx_timestamp ctx)) (eng_keypair eng) = Inr p)"
  by (auto simp: create_operation_proof_def create_proof_def result_simps proof_sign_ok proof_new_def)

lemma create_operation_proof_body:
  assumes "create_operation_proof H eng fresh operation version input result ctx = Inr p"
  shows "body_operation (proof_body p) = operation @ ''::'' @ version"
    and "body_actor (proof_body p) = ctx_actor ctx" and "body_delegation_id (proof_body p) = ctx_delegation_id ctx"
    and "body_timestamp (proof_body p) = ctx_timestamp ctx"
    and "canonicalize H input = Inr ci \<Longrightarrow> body_input_digest (proof_body p) = digest H KOperationInput ci"
    and "\<exists>co. canonicalize H result = Inr co \<and> body_output_digest (proof_body p) = digest H KOperationOutput co"
    and "keypair_principal_id (eng_keypair eng) = ctx_actor ctx"
  using assms by (auto simp: create_operation_proof_Inr proof_sign_ok proof_new_def)

lemma evidence_Inr:
  "evidence H eng fresh operation version input result ctx claim req s = (Inr q, s') \<longleftrightarrow>
     s' = s \<and>
     (if req \<or> eng_storage eng \<noteq> None \<or> claim \<noteq> None
      then \<exists>p. q = Some p \<and> create_operation_proof H eng fresh operation version input result ctx = Inr p
      else q = None)"
  by (auto simp: evidence_def apfst_def map_prod_def split: sum.splits prod.splits if_splits)

lemma conclude_Inr:
  assumes "conclude H eng fresh operation version input result ctx claim req s = (Inr out, s')"
  shows "internal_output out = result"
    and "if req \<or> eng_storage eng \<noteq> None \<or> claim \<noteq> None
         then \<exists>p. internal_proof out = Some p \<and>
                create_operation_proof H eng fresh operation version input result ctx = Inr p
         else internal_proof out = None"
    and "persist eng result (internal_proof out) ctx claim s = (Inr (), s')"
proof -
  obtain q where q: "evidence H eng fresh operation version input result ctx claim req s = (Inr q, s)"
    and p: "persist eng result q ctx claim s = (Inr (), s')"
    and out: "out = \<lparr> internal_output = result, internal_proof = q \<rparr>"
    using assms unfolding conclude_def bindE_def
    by (auto simp: evidence_Inr split: sum.splits prod.splits)
  from out p show "internal_output out = result"
    and "persist eng result (internal_proof out) ctx claim s = (Inr (), s')" by simp_all
  from q out show "if req \<or> eng_storage eng \<noteq> None \<or> claim \<noteq> None
         then \<exists>p. internal_proof out = Some p \<and>
                create_operation_proof H eng fresh operation version input result ctx = Inr p
         else internal_proof out = None" by (simp add: evidence_Inr split: if_splits)
qed

text \<open>A successful execution: admitted, and then either replayed or run to its end.\<close>

lemma gate_Inr:
  "benchmark_gate H eng entry operation version ctx claim s = (Inr (), s') \<Longrightarrow> s' = s"
  by (auto simp: benchmark_gate_def apfst_def map_prod_def split: option.splits sum.splits if_splits prod.splits)

lemma run_handler_Inr:
  "run_handler H eng h version input ctx claim (s, w) = (Inr result, s', w') \<longleftrightarrow>
     s' = s \<and> handler_execute_versioned h version input ctx w = (Inr result, w')"
  by (auto simp: run_handler_def split: sum.splits prod.splits)

lemma execute_inner_Inr:
  assumes "execute_inner H eng c (s, w) = (Inr out, s', w')"
  obtains (replayed) entry handler
    where "execute_admit H eng c s = (Inr ((entry, handler), Replayed out), s')" and "w' = w"
  | (ran) entry handler claim s1 result
    where "execute_admit H eng c s = (Inr ((entry, handler), Proceed claim), s1)"
      and "handler_execute_versioned handler (call_version c) (call_input c) (call_context c) w = (Inr result, w')"
      and "conclude H eng (call_proof_id c) (call_operation c) (call_version c) (call_input c) result
             (call_context c) claim (call_evidence_required c) s1 = (Inr out, s')"
proof -
  obtain entry handler a s1 where ad: "execute_admit H eng c s = (Inr ((entry, handler), a), s1)"
    using assms unfolding execute_inner_def bindE_def on_store_def
    by (cases "execute_admit H eng c s") (auto split: sum.splits)
  show thesis
  proof (cases a)
    case (Replayed r)
    with ad assms replayed show thesis by (simp add: execute_inner_def on_store_def)
  next
    case (Proceed claim)
    with ad assms have d: "execute_dispatch H eng c entry handler claim (s1, w) = (Inr out, s', w')"
      by (simp add: execute_inner_def on_store_def)
    then have gate: "benchmark_gate H eng entry (call_operation c) (call_version c) (call_context c) claim s1
        = (Inr (), s1)"
      unfolding execute_dispatch_def bindE_def on_store_def
      by (auto split: sum.splits dest: gate_Inr prod.expand)
         (metis gate_Inr old.unit.exhaust prod.collapse)
    then have d': "bindE (run_handler H eng handler (call_version c) (call_input c) (call_context c) claim
        (s1, w)) (\<lambda>result sw2. on_store (conclude H eng (call_proof_id c) (call_operation c)
          (call_version c) (call_input c) result (call_context c) claim (call_evidence_required c)
          (fst sw2)) (snd sw2)) = (Inr out, s', w')"
      using d by (simp add: execute_dispatch_def on_store_def)
    obtain r s2 w2 where run: "run_handler H eng handler (call_version c) (call_input c)
        (call_context c) claim (s1, w) = (r, s2, w2)" by (metis prod_cases3)
    with d' obtain result where r: "r = Inr result" by (cases r) auto
    with run have "s2 = s1"
      and h: "handler_execute_versioned handler (call_version c) (call_input c) (call_context c) w
        = (Inr result, w2)" by (simp_all add: run_handler_Inr)
    with d' run r have "conclude H eng (call_proof_id c) (call_operation c) (call_version c)
        (call_input c) result (call_context c) claim (call_evidence_required c) s1 = (Inr out, s')"
      and "w2 = w'" by (auto simp: on_store_def intro: prod_eqI)
    with h ad Proceed ran show thesis by simp
  qed
qed

subsection \<open>No panic\<close>

lemma fail_claim_no_panic:
  "claim \<noteq> None \<longrightarrow> eng_storage eng \<noteq> None \<Longrightarrow> fst (fail_acquired_claim H eng claim at e s) \<noteq> Panic"
  by (auto simp: fail_acquired_claim_def split: option.splits sum.splits prod.splits)

lemma admit_claim_storage:
  assumes "execute_admit H eng c s = (Inr (eh, Proceed claim), s')"
  shows "claim \<noteq> None \<longrightarrow> eng_storage eng \<noteq> None"
proof -
  obtain entry handler where "eh = (entry, handler)" by fastforce
  with acquire_Inr [OF execute_admit_Inr(2)] assms show ?thesis by fastforce
qed

lemma evidence_no_panic:
  assumes "claim \<noteq> None \<longrightarrow> eng_storage eng \<noteq> None"
  shows "fst (evidence H eng fresh operation version input result ctx claim req s) \<noteq> Inl Panic"
  using fail_claim_no_panic [OF assms]
  by (simp add: evidence_def split: sum.splits)

lemma persist_no_panic:
  assumes "claim \<noteq> None \<longrightarrow> eng_storage eng \<noteq> None" and "eng_storage eng \<noteq> None \<longrightarrow> p \<noteq> None"
  shows "fst (persist eng result p ctx claim s) \<noteq> Inl Panic"
  using assms
  by (auto simp: persist_def bindE_eq map_err_def split: option.splits sum.splits)

lemma conclude_no_panic:
  assumes "claim \<noteq> None \<longrightarrow> eng_storage eng \<noteq> None"
  shows "fst (conclude H eng fresh operation version input result ctx claim req s) \<noteq> Inl Panic"
proof -
  obtain r s' where ev: "evidence H eng fresh operation version input result ctx claim req s = (r, s')"
    by fastforce
  show ?thesis
  proof (cases r)
    case (Inl e)
    with ev evidence_no_panic [OF assms, of H fresh operation version input result ctx req s] show ?thesis
      by (simp add: conclude_def)
  next
    case (Inr q)
    with ev have "eng_storage eng \<noteq> None \<longrightarrow> q \<noteq> None" by (auto simp: evidence_Inr split: if_splits)
    from persist_no_panic [OF assms this, of result ctx s'] Inr ev show ?thesis
      by (auto simp: conclude_def bindE_eq split: sum.splits)
  qed
qed

lemma dispatch_no_panic:
  assumes "claim \<noteq> None \<longrightarrow> eng_storage eng \<noteq> None"
  shows "fst (execute_dispatch H eng c entry handler claim sw) \<noteq> Inl Panic"
proof -
  have gate: "fst (benchmark_gate H eng entry operation version ctx claim s) \<noteq> Inl Panic"
    for operation version ctx s
    using fail_claim_no_panic [OF assms]
    by (auto simp: benchmark_gate_def split: option.splits sum.splits)
  have run: "fst (run_handler H eng handler version input ctx claim sw) \<noteq> Inl Panic"
    for version input ctx sw
    using fail_claim_no_panic [OF assms]
    by (auto simp: run_handler_def split: sum.splits prod.splits) (metis fst_conv)
  show ?thesis
    using gate run conclude_no_panic [OF assms]
    by (auto simp: execute_dispatch_def bindE_eq on_store_def split: sum.splits)
qed

lemma execute_inner_no_panic: "fst (execute_inner H eng c sw) \<noteq> Inl Panic"
proof -
  obtain s w where sw: "sw = (s, w)" by fastforce
  obtain r s' where ad: "execute_admit H eng c s = (r, s')" by fastforce
  show ?thesis
  proof (cases r)
    case (Inl e)
    with ad have "e \<noteq> Panic"
      by (auto simp: execute_admit_def raise_def apfst_def map_prod_def result_simps
          split: sum.splits prod.splits)
    with Inl ad sw show ?thesis by (simp add: execute_inner_def on_store_def)
  next
    case (Inr eha)
    obtain entry handler a where "eha = ((entry, handler), a)" by (metis prod.collapse)
    with Inr ad sw show ?thesis
      using dispatch_no_panic [OF admit_claim_storage, of H eng c s "(entry, handler)"]
      by (cases a) (simp_all add: execute_inner_def on_store_def)
  qed
qed

lemma execute_inner_proof:
  assumes "execute_inner H eng c (s, w) = (Inr out, s', w')"
    and "call_evidence_required c \<or> eng_storage eng \<noteq> None"
  shows "internal_proof out \<noteq> None"
  using assms(1)
proof (cases rule: execute_inner_Inr)
  case (replayed entry handler)
  then show ?thesis using acquire_Inr [OF execute_admit_Inr(2)] by fastforce
next
  case (ran entry handler claim s1 result)
  then show ?thesis using conclude_Inr(2) [OF ran(3)] assms(2) by (auto split: if_splits)
qed

subsection \<open>At most one run per key\<close>

context replay_store
begin

lemma fail_claim_keeps:
  "eng_storage eng = Some ops \<Longrightarrow> taken s \<subseteq> taken (snd (fail_acquired_claim H eng claim at e s))"
  using fail_keeps by (simp add: fail_claim_store split: option.splits)

lemma gate_keeps:
  "eng_storage eng = Some ops \<Longrightarrow>
   taken s \<subseteq> taken (snd (benchmark_gate H eng entry operation version ctx claim s))"
  using fail_claim_keeps [of eng]
  by (simp add: benchmark_gate_def split: option.splits sum.splits)

lemma run_keeps:
  assumes "eng_storage eng = Some ops" and "run_handler H eng h version input ctx claim (s, w) = (r, s', w')"
  shows "taken s \<subseteq> taken s'"
  using run_handler_store [OF assms(2)] fail_claim_keeps [OF assms(1)] by blast

lemma conclude_keeps:
  assumes "eng_storage eng = Some ops"
  shows "taken s \<subseteq> taken (snd (conclude H eng fresh operation version input result ctx claim req s))"
proof -
  have ev: "taken s \<subseteq> taken (snd (evidence H eng fresh operation version input result ctx claim req s))"
    using fail_claim_keeps [OF assms] by (simp add: evidence_def split: sum.splits)
  have pe: "taken t \<subseteq> taken (snd (persist eng result p ctx claim t))" for t p
    using assms complete_keeps context_keeps proof_keeps
    by (auto simp: persist_def bindE_eq split: option.splits sum.splits) (meson subsetD)+
  show ?thesis
    using ev pe by (simp add: conclude_def bindE_eq split: sum.splits) (meson subset_trans)
qed

lemma admit_keeps:
  "eng_storage eng = Some ops \<Longrightarrow> taken s \<subseteq> taken (snd (execute_admit H eng c s))"
  using admit_store claim_keeps by (metis order_refl)

lemma advance_inv:
  assumes st: "eng_storage eng = Some ops" and inv: "machine_inv H eng calls taken m"
  shows "machine_inv H eng calls taken (advance H eng calls i m)"
proof (cases "m_pool m i")
  case Waiting
  obtain r s' where ad: "execute_admit H eng (calls i) (m_store m) = (r, s')" by fastforce
  have keep: "taken (m_store m) \<subseteq> taken s'" using admit_keeps [OF st, of "m_store m" H "calls i"] ad by simp
  have stay: "machine_inv H eng calls taken (set_phase i (Finished x) s' m)" for x
    using keep inv by (intro machine_inv_stay [OF inv])
      (auto simp: entered_set_phase entered_def machine_inv_def split: if_splits)
  have enter: "machine_inv H eng calls taken (set_phase i (Admitted entry handler claim) s' m)"
    if "r = Inr ((entry, handler), Proceed claim)" for entry handler claim
    using ad that st claim_acquired
    by (intro machine_inv_enter [OF inv Waiting keep]) (metis admitted_exact)
  show ?thesis using Waiting ad stay enter
    by (auto simp: advance_def split: sum.splits admission.splits prod.splits)
next
  case (Admitted entry handler claim)
  obtain r s' where g: "benchmark_gate H eng entry (call_operation (calls i)) (call_version (calls i))
      (call_context (calls i)) claim (m_store m) = (r, s')" by fastforce
  have keep: "taken (m_store m) \<subseteq> taken s'" using gate_keeps [OF st] g by (metis snd_conv)
  have "machine_inv H eng calls taken (set_phase i x s' m)" if "x = Gated handler claim \<or> x = Finished y" for x y
    using keep inv Admitted that by (intro machine_inv_stay [OF inv])
      (auto simp: entered_set_phase entered_def machine_inv_def split: if_splits)
  then show ?thesis using Admitted g by (auto simp: advance_def split: sum.splits)
next
  case (Gated handler claim)
  obtain r s' w' where h: "run_handler H eng handler (call_version (calls i)) (call_input (calls i))
      (call_context (calls i)) claim (m_store m, m_world m) = (r, s', w')" by (metis prod_cases3)
  have keep: "taken (m_store m) \<subseteq> taken s'" using run_keeps [OF st h] .
  have new: "i \<notin> set (m_runs m)" using inv Gated by (force simp: machine_inv_def)
  show ?thesis using Gated h keep inv new
    by (intro machine_inv_stay [OF inv])
      (auto simp: advance_def entered_def machine_inv_def split: if_splits sum.splits)
next
  case (Ran result claim)
  obtain r s' where c: "conclude H eng (call_proof_id (calls i)) (call_operation (calls i))
      (call_version (calls i)) (call_input (calls i)) result (call_context (calls i)) claim
      (call_evidence_required (calls i)) (m_store m) = (r, s')" by fastforce
  have "taken (m_store m) \<subseteq> taken s'" using conclude_keeps [OF st] c by (metis snd_conv)
  then show ?thesis using Ran c inv
    by (intro machine_inv_stay [OF inv])
      (auto simp: advance_def entered_def machine_inv_def split: if_splits)
qed (use inv in \<open>simp add: advance_def\<close>)

lemma runs_at_most_once:
  assumes "eng_storage eng = Some ops" and "\<forall>i. m_pool m i = Waiting" and "m_runs m = []"
  shows "machine_inv H eng calls taken (run_schedule H eng calls schedule m)"
proof -
  have "machine_inv H eng calls taken m" using assms(2,3) by (simp add: machine_inv_def entered_def)
  then show ?thesis unfolding run_schedule_def
    by (induction schedule arbitrary: m) (simp_all add: advance_inv [OF assms(1)])
qed

end

subsection \<open>Replays\<close>

context exact_replay_store
begin

lemma fail_claim_settled:
  "eng_storage eng = Some ops \<Longrightarrow> settled s k = Some v \<Longrightarrow>
   settled (snd (fail_acquired_claim H eng claim at e s)) k = Some v"
  using fail_settled [of s k v] by (simp add: fail_claim_store split: option.splits)

lemma gate_settled:
  "eng_storage eng = Some ops \<Longrightarrow> settled s k = Some v \<Longrightarrow>
   settled (snd (benchmark_gate H eng entry operation version ctx claim s)) k = Some v"
  using fail_claim_settled [of eng]
  by (simp add: benchmark_gate_def split: option.splits sum.splits)

lemma run_settled:
  assumes "eng_storage eng = Some ops" and "settled s k = Some v"
    and "run_handler H eng h version input ctx claim (s, w) = (r, s', w')"
  shows "settled s' k = Some v"
  using run_handler_store [OF assms(3)] fail_claim_settled [OF assms(1,2)] assms(2) by blast

lemma conclude_settled:
  assumes "eng_storage eng = Some ops" and "settled s k = Some v"
  shows "settled (snd (conclude H eng fresh operation version input result ctx claim req s)) k = Some v"
proof -
  have ev: "settled (snd (evidence H eng fresh operation version input result ctx claim req s)) k = Some v"
    using fail_claim_settled [OF assms] assms(2) by (simp add: evidence_def split: sum.splits)
  have pe: "settled (snd (persist eng result p ctx claim t)) k = Some v"
    if "settled t k = Some v" for t p
    using assms(1) complete_settled [OF that] context_settled [OF that] proof_settled
    by (auto simp: persist_def bindE_eq that split: option.splits sum.splits)
  show ?thesis using ev pe by (simp add: conclude_def bindE_eq split: sum.splits)
qed

lemma admit_settled:
  assumes "eng_storage eng = Some ops" and "settled s k = Some v"
  shows "settled (snd (execute_admit H eng c s)) k = Some v"
  using admit_store [OF assms(1)] claim_settled [OF assms(2)] assms(2) by metis

lemma advance_settled:
  assumes st: "eng_storage eng = Some ops" and "settled (m_store m) k = Some v"
  shows "settled (m_store (advance H eng calls i m)) k = Some v"
proof (cases "m_pool m i")
  case Waiting
  obtain r s' where "execute_admit H eng (calls i) (m_store m) = (r, s')" by fastforce
  then show ?thesis using Waiting admit_settled [OF assms, of H "calls i"]
    by (simp add: advance_def split: sum.splits admission.splits prod.splits)
next
  case (Admitted entry handler claim)
  obtain r s' where g: "benchmark_gate H eng entry (call_operation (calls i)) (call_version (calls i))
      (call_context (calls i)) claim (m_store m) = (r, s')" by fastforce
  then have "settled s' k = Some v" using gate_settled [OF assms] by (metis snd_conv)
  then show ?thesis using Admitted g by (simp add: advance_def Let_def split: sum.splits)
next
  case (Gated handler claim)
  then show ?thesis using run_settled [OF assms] by (simp add: advance_def Let_def split: prod.splits)
next
  case (Ran result claim)
  obtain r s' where c: "conclude H eng (call_proof_id (calls i)) (call_operation (calls i))
      (call_version (calls i)) (call_input (calls i)) result (call_context (calls i)) claim
      (call_evidence_required (calls i)) (m_store m) = (r, s')" by fastforce
  then have "settled s' k = Some v" using conclude_settled [OF assms] by (metis snd_conv)
  then show ?thesis using Ran c by (simp add: advance_def)
qed (use assms in \<open>simp add: advance_def\<close>)

lemma schedule_settled:
  "eng_storage eng = Some ops \<Longrightarrow> settled (m_store m) k = Some v \<Longrightarrow>
   settled (m_store (run_schedule H eng calls schedule m)) k = Some v"
  unfolding run_schedule_def
  by (induction schedule arbitrary: m) (simp_all add: advance_settled)

text \<open>A call on a settled key is answered by the settlement and has no effect.\<close>

lemma settled_call:
  assumes "eng_storage eng = Some ops" and "exact_replay eng d"
    and "authorize H eng (call_operation d) (call_version d) (call_input d) (call_context d)
           (call_approval d) s = Inr a"
    and "execution_replay_claim H (call_claim_token d) (call_operation d) (call_version d)
           (call_input d) (call_context d) = Inr cl"
    and "settled s (claim_key cl) = Some (claim_input_digest cl, r)"
    and "\<And>out. r = Some out \<Longrightarrow> validate_replayed_outcome H cl out = Inr ()"
  shows "execute_inner H eng d (s, w) =
    (case r of
       None \<Rightarrow> Inl (Raise (Idempotency Indeterminate))
     | Some out \<Rightarrow> Inr \<lparr> internal_output = outcome_output out,
                         internal_proof = Some (outcome_proof out) \<rparr>, s, w)"
proof -
  obtain entry handler where a: "a = (entry, handler)" by fastforce
  with assms(2,3) have "handler_idempotency_policy_for handler (call_version d) = RequiredUuidV7ExactReplay"
    by (simp add: authorize_Inr exact_replay_def)
  then show ?thesis
    using assms settled_answer [OF assms(5)] a
    by (cases r) (simp_all add: execute_inner_def execute_admit_def acquire_def on_store_def raise_def)
qed

end

end
