(* ===== verification/Execution.thy ===== *)
theory Execution
  imports Engine
begin

text \<open>
  What the execution engine guarantees: no handler runs without authority, every result has
  evidence, and exact replay holds for executions that interleave on one store.
\<close>

section \<open>Authority\<close>

text \<open>The chain of a context is valid, and the grant it names allows the operation.\<close>

definition delegated :: "('s, 'w) ExecutionEngine \<Rightarrow> RegistryEntry \<Rightarrow> exec_call \<Rightarrow> 's \<Rightarrow> bool" where
  "delegated eng entry c s \<longleftrightarrow>
     (let ctx = call_context c in
      (\<forall>chain. ctx_delegation_chain ctx = Some chain \<longrightarrow>
         chain_ok (chain_root chain) (ctx_actor ctx) (chain_grants chain) (ctx_timestamp ctx)) \<and>
      (\<forall>d. ctx_delegation_id ctx = Some d \<longrightarrow>
         (\<exists>chain g. ctx_delegation_chain ctx = Some chain \<and> g \<in> set (chain_grants chain) \<and> del_id g = d \<and>
            scope_allows_operation (del_scope g) (call_operation c) (entry_domain entry) \<and>
            (\<forall>st. eng_storage eng = Some st \<longrightarrow>
               so_load_delegation st s d = Inr (Some g) \<and> del_recipient g = ctx_actor ctx))))"

definition authorized :: "host \<Rightarrow> ('s, 'w) ExecutionEngine \<Rightarrow> exec_call \<Rightarrow> 's \<Rightarrow> bool" where
  "authorized H eng c s \<longleftrightarrow>
     (\<exists>entry. registry_find (eng_registry eng) (call_operation c) (call_version c) = Some entry \<and>
        entry_status entry \<noteq> Sunset \<and>
        (entry_governance entry = HumanOnly \<longrightarrow>
           ctx_principal_kind (call_context c) = Some Human \<or>
           (\<exists>grant approver. call_approval c = Some (grant, approver) \<and>
              verify_for_execution H grant (eng_keypair eng) approver (call_operation c) (call_version c)
                (call_input c) (ctx_actor (call_context c)) (ctx_timestamp (call_context c)) = Inr ())) \<and>
        delegated eng entry c s)"

lemma position_Some:
  "position P xs = Some i \<Longrightarrow> i < length xs \<and> P (xs ! i)"
  by (induction xs arbitrary: i) (auto split: if_splits)

lemma check_governance_Inr:
  "check_governance H eng entry operation version input ctx approval = Inr () \<longleftrightarrow>
     (entry_governance entry = HumanOnly \<longrightarrow> ctx_principal_kind ctx = Some Human \<or>
        (\<exists>grant approver. approval = Some (grant, approver) \<and>
           verify_for_execution H grant (eng_keypair eng) approver operation version input
             (ctx_actor ctx) (ctx_timestamp ctx) = Inr ()))"
  by (auto simp: check_governance_def split: option.splits)

lemma enforced_delegation_Inr:
  assumes "enforced_delegation eng d chain ctx s = Inr g"
  shows "g \<in> set (chain_grants chain)" and "del_id g = d"
    and "eng_storage eng = Some st \<Longrightarrow> so_load_delegation st s d = Inr (Some g) \<and> del_recipient g = ctx_actor ctx"
  using assms unfolding enforced_delegation_def
  by (auto simp: result_simps split: option.splits if_splits dest!: position_Some find_SomeD)

lemma check_delegation_Inr:
  assumes "check_delegation eng entry (call_operation c) (call_context c) s = Inr ()"
  shows "delegated eng entry c s"
proof (cases "ctx_delegation_id (call_context c)")
  case None
  with assms show ?thesis
    by (auto simp: check_delegation_def delegated_def chain_validate_def validate_chain_Inr split: option.splits)
next
  case (Some d)
  with assms obtain chain g where "ctx_delegation_chain (call_context c) = Some chain"
    and "chain_validate chain (ctx_actor (call_context c)) (ctx_timestamp (call_context c)) = Inr ()"
    and g: "enforced_delegation eng d chain (call_context c) s = Inr g"
    and "scope_allows_operation (del_scope g) (call_operation c) (entry_domain entry)"
    by (auto simp: check_delegation_def enforce_delegation_def result_simps split: if_splits)
  with Some enforced_delegation_Inr [OF g] show ?thesis
    by (auto simp: delegated_def chain_validate_def validate_chain_Inr)
qed

lemma authorize_authorized:
  "authorize H eng (call_operation c) (call_version c) (call_input c) (call_context c)
     (call_approval c) s = Inr eh \<Longrightarrow> authorized H eng c s"
  by (cases eh) (auto simp: authorize_Inr authorized_def check_governance_Inr dest: check_delegation_Inr)

section \<open>Replay\<close>

lemma validate_fresh_outcome:
  fixes c :: exec_call
  assumes "execution_replay_claim H fresh (call_operation c) (call_version c) (call_input c) (call_context c)
      = Inr cl"
    and "create_operation_proof H eng pid (call_operation c) (call_version c) (call_input c) result
      (call_context c) = Inr p"
  shows "validate_replayed_outcome H cl \<lparr> outcome_output = result, outcome_proof = p \<rparr> = Inr ()"
    and "validate_replay_completion H cl (call_context c) \<lparr> outcome_output = result, outcome_proof = p \<rparr>
      = Inr ()"
proof -
  obtain ci where ci: "canonicalize H (call_input c) = Inr ci"
    and "claim_input_digest cl = digest H KOperationInput ci"
    using replay_claim_Inr(6) [OF assms(1)] by blast
  then have eqs: "body_input_digest (proof_body p) = claim_input_digest cl"
    "body_operation (proof_body p) = rkey_operation (claim_key cl) @ ''::'' @ rkey_version (claim_key cl)"
    "body_actor (proof_body p) = claim_claimed_by cl"
    using create_operation_proof_body [OF assms(2)] replay_claim_Inr [OF assms(1)] by simp_all
  obtain co where "canonicalize H result = Inr co"
    and "body_output_digest (proof_body p) = digest H KOperationOutput co"
    using create_operation_proof_body(6) [OF assms(2)] by blast
  with eqs create_operation_proof_body(2-4) [OF assms(2)]
  show "validate_replayed_outcome H cl \<lparr> outcome_output = result, outcome_proof = p \<rparr> = Inr ()"
    and "validate_replay_completion H cl (call_context c) \<lparr> outcome_output = result, outcome_proof = p \<rparr>
      = Inr ()"
    by (simp_all add: validate_replayed_outcome_def validate_replay_completion_def)
qed

text \<open>Two calls with the same operation, version and input name the same key and digest.\<close>

lemma same_call_claim:
  assumes "execution_replay_claim H fresh operation version input ctx = Inr cl"
  shows "execution_replay_claim H fresh' operation version input ctx' =
    Inr (cl\<lparr>claim_token := fresh', claim_claimed_by := ctx_actor ctx', claim_claimed_at := ctx_timestamp ctx'\<rparr>)"
  using assms unfolding execution_replay_claim_def
  by (auto simp: result_simps split: if_splits)

lemma validate_same_claim:
  "claim_key cl' = claim_key cl \<Longrightarrow> claim_input_digest cl' = claim_input_digest cl \<Longrightarrow>
   validate_replayed_outcome H cl' out = validate_replayed_outcome H cl out"
  by (simp add: validate_replayed_outcome_def Let_def)

lemma persist_claim_Inr:
  "persist eng result q ctx (Some cl) s = (Inr (), s') \<longleftrightarrow>
     (\<exists>p st. q = Some p \<and> eng_storage eng = Some st \<and>
        so_complete_execution_replay st s cl ctx \<lparr> outcome_output = result, outcome_proof = p \<rparr>
          = (Inr (), s'))"
  by (cases "eng_storage eng"; cases q) (auto simp: persist_def apfst_def map_prod_def split: prod.splits)

context exact_replay_store
begin

lemma success_settles:
  assumes st: "eng_storage eng = Some ops" and ex: "exact_replay eng c"
    and "execute_inner H eng c (s, w) = (Inr out, s', w')"
  obtains cl p where "execution_replay_claim H (call_claim_token c) (call_operation c) (call_version c)
      (call_input c) (call_context c) = Inr cl" and "internal_proof out = Some p"
    and "settled s' (claim_key cl) =
      Some (claim_input_digest cl, Some \<lparr> outcome_output = internal_output out, outcome_proof = p \<rparr>)"
    and "validate_replayed_outcome H cl \<lparr> outcome_output = internal_output out, outcome_proof = p \<rparr> = Inr ()"
  using assms(3)
proof (cases rule: execute_inner_Inr)
  case (replayed entry handler)
  then obtain cl oc where cl: "execution_replay_claim H (call_claim_token c) (call_operation c)
      (call_version c) (call_input c) (call_context c) = Inr cl"
    and oc: "so_claim_execution_replay ops s cl = (Inr (ReplayCompleted oc), s')"
    and "validate_replayed_outcome H cl oc = Inr ()"
    and "out = \<lparr> internal_output = outcome_output oc, internal_proof = Some (outcome_proof oc) \<rparr>"
    using acquire_Inr [OF execute_admit_Inr(2)] st by fastforce
  with that [OF cl, of "outcome_proof oc"] completed_settled [OF oc] show ?thesis
    by (cases oc) simp
next
  case (ran entry handler claim s1 result)
  from admitted_exact [OF ran(1) ex st] obtain cl where "claim = Some cl" by metis
  with ran have cl: "execution_replay_claim H (call_claim_token c) (call_operation c)
      (call_version c) (call_input c) (call_context c) = Inr cl"
    using acquire_Inr [OF execute_admit_Inr(2) [OF ran(1)]] by auto
  note c = conclude_Inr [OF ran(3)]
  from c(2) \<open>claim = Some cl\<close> obtain p where p: "internal_proof out = Some p"
    and cp: "create_operation_proof H eng (call_proof_id c) (call_operation c) (call_version c)
      (call_input c) result (call_context c) = Inr p" by auto
  from c(3) \<open>claim = Some cl\<close> p st
  have "so_complete_execution_replay ops s1 cl (call_context c) \<lparr> outcome_output = result, outcome_proof = p \<rparr>
      = (Inr (), s')" by (auto simp: persist_claim_Inr)
  from that [OF cl p] complete_settles [OF this] validate_fresh_outcome(1) [OF cl cp] c(1)
  show ?thesis by simp
qed

text \<open>The same call made again, after any other executions, returns the recorded result.\<close>

lemma replay_returns:
  assumes st: "eng_storage eng = Some ops" and ex: "exact_replay eng c"
    and "execute_inner H eng c (s, w) = (Inr out, s', w')"
    and "m_store m = s'" and "run_schedule H eng calls schedule m = m'"
    and "call_operation d = call_operation c" and "call_version d = call_version c"
    and "call_input d = call_input c"
    and "authorize H eng (call_operation d) (call_version d) (call_input d) (call_context d)
           (call_approval d) (m_store m') = Inr eh"
  shows "execute_inner H eng d (m_store m', v) = (Inr out, m_store m', v)"
proof -
  from success_settles [OF assms(1-3)] obtain cl p where
    cl: "execution_replay_claim H (call_claim_token c) (call_operation c) (call_version c)
      (call_input c) (call_context c) = Inr cl" and p: "internal_proof out = Some p"
    and se: "settled s' (claim_key cl) =
      Some (claim_input_digest cl, Some \<lparr> outcome_output = internal_output out, outcome_proof = p \<rparr>)"
    and va: "validate_replayed_outcome H cl \<lparr> outcome_output = internal_output out, outcome_proof = p \<rparr> = Inr ()" .
  define cl' where "cl' = cl\<lparr>claim_token := call_claim_token d, claim_claimed_by := ctx_actor (call_context d),
    claim_claimed_at := ctx_timestamp (call_context d)\<rparr>"
  have claim: "execution_replay_claim H (call_claim_token d) (call_operation d) (call_version d)
      (call_input d) (call_context d) = Inr cl'"
    using same_call_claim [OF cl] assms(6-8) by (simp add: cl'_def)
  have exd: "exact_replay eng d" using ex assms(6,7)
    by (simp add: exact_replay_def split: option.splits)
  have sel: "claim_key cl' = claim_key cl" "claim_input_digest cl' = claim_input_digest cl"
    by (simp_all add: cl'_def)
  have "settled (m_store m') (claim_key cl') =
      Some (claim_input_digest cl', Some \<lparr> outcome_output = internal_output out, outcome_proof = p \<rparr>)"
    using schedule_settled [OF st, of m] se assms(4,5) sel by auto
  from settled_call [OF st exd assms(9) claim this] va validate_same_claim [OF sel] p
  show ?thesis by (cases out) auto
qed

end

section \<open>Claims are always settled\<close>

text \<open>On the in-memory store: who holds a claim, and that every open claim is held.\<close>

definition held_claim :: "'w phase \<Rightarrow> ExecutionReplayClaim option" where
  "held_claim p =
     (case p of Admitted _ _ claim \<Rightarrow> claim | Gated _ claim \<Rightarrow> claim | Ran _ claim \<Rightarrow> claim | _ \<Rightarrow> None)"

definition open_claim :: "RecordingStore \<Rightarrow> ExecutionReplayClaim \<Rightarrow> bool" where
  "open_claim s cl \<longleftrightarrow>
     rec_execution_replays s (claim_key cl) = Some \<lparr> replay_claim = cl, replay_state = RepClaimed \<rparr>"

definition claims_inv :: "host \<Rightarrow> (nat \<Rightarrow> exec_call) \<Rightarrow> (RecordingStore, 'w) machine \<Rightarrow> bool" where
  "claims_inv H calls m \<longleftrightarrow>
     (\<forall>i cl. held_claim (m_pool m i) = Some cl \<longrightarrow> open_claim (m_store m) cl \<and>
        execution_replay_claim H (call_claim_token (calls i)) (call_operation (calls i))
          (call_version (calls i)) (call_input (calls i)) (call_context (calls i)) = Inr cl) \<and>
     (\<forall>i j cl cl'. held_claim (m_pool m i) = Some cl \<longrightarrow> held_claim (m_pool m j) = Some cl' \<longrightarrow>
        claim_key cl = claim_key cl' \<longrightarrow> i = j) \<and>
     (\<forall>k r. rec_execution_replays (m_store m) k = Some r \<longrightarrow> replay_state r = RepClaimed \<longrightarrow>
        (\<exists>i cl. held_claim (m_pool m i) = Some cl \<and> claim_key cl = k))"

text \<open>A call gives its claim back, settled, and leaves the other keys alone.\<close>

definition released :: "RecordingStore \<Rightarrow> RecordingStore \<Rightarrow> ExecutionReplayClaim option \<Rightarrow> bool" where
  "released s s' claim \<longleftrightarrow>
     (case claim of
        None \<Rightarrow> rec_execution_replays s' = rec_execution_replays s
      | Some cl \<Rightarrow>
          (\<exists>r. rec_execution_replays s' = (rec_execution_replays s)(claim_key cl \<mapsto> r) \<and>
               replay_state r \<noteq> RepClaimed))"

lemma execution_error_text_nonempty: "execution_error_text H e \<noteq> []"
  by (cases e) simp_all

lemma releasedI:
  "rec_execution_replays s' = (rec_execution_replays s)(claim_key cl \<mapsto> \<lparr> replay_claim = cl, replay_state = x \<rparr>) \<Longrightarrow>
   x \<noteq> RepClaimed \<Longrightarrow> released s s' (Some cl)"
  unfolding released_def by force

lemma fail_released:
  assumes "eng_storage eng = Some (recording_store H f)" and "\<forall>cl. claim = Some cl \<longrightarrow> open_claim s cl"
  shows "released s (snd (fail_acquired_claim H eng claim at e s)) claim"
proof (cases claim)
  case (Some cl)
  then show ?thesis
    using assms execution_error_text_nonempty [of H e]
    by (auto simp: fail_claim_store [OF assms(1)] open_claim_def rec_fail_execution_replay_def
        find_replay_def intro!: releasedI [where x = "RepFailed at (execution_error_text H e)"])
qed (simp add: fail_claim_store [OF assms(1)] released_def)

lemma gate_store:
  "benchmark_gate H eng entry operation version ctx claim s = (Inl e, s') \<Longrightarrow>
   \<exists>e'. s' = snd (fail_acquired_claim H eng claim (ctx_timestamp ctx) e' s)"
  by (auto simp: benchmark_gate_def apfst_def map_prod_def split: option.splits sum.splits if_splits prod.splits)
    (metis snd_conv)+

lemma run_handler_fails:
  "run_handler H eng h version input ctx claim (s, w) = (Inl e, s', w') \<Longrightarrow>
   \<exists>e'. s' = snd (fail_acquired_claim H eng claim (ctx_timestamp ctx) e' s)"
  by (auto simp: run_handler_def split: sum.splits prod.splits) (metis snd_conv)

lemma conclude_released:
  fixes c :: exec_call
  assumes st: "eng_storage eng = Some (recording_store H f)"
    and held: "\<forall>cl. claim = Some cl \<longrightarrow> open_claim s cl \<and>
      execution_replay_claim H (call_claim_token c) (call_operation c) (call_version c) (call_input c)
        (call_context c) = Inr cl"
  shows "released s (snd (conclude H eng pid (call_operation c) (call_version c) (call_input c) result
    (call_context c) claim req s)) claim"
proof (cases "create_operation_proof H eng pid (call_operation c) (call_version c) (call_input c)
    result (call_context c)")
  case (Inl e)
  then show ?thesis
    using fail_released [OF st, of claim s] held
    by (simp add: conclude_def evidence_def st bindE_eq)
next
  case (Inr p)
  show ?thesis
  proof (cases claim)
    case None
    with Inr st show ?thesis
      by (simp add: conclude_def evidence_def persist_def released_def rec_defs)
  next
    case (Some cl)
    with held have "open_claim s cl" by simp
    from Some held have "validate_replay_completion H cl (call_context c)
        \<lparr> outcome_output = result, outcome_proof = p \<rparr> = Inr ()"
      using validate_fresh_outcome(2) [OF _ Inr] by blast
    with Some Inr st \<open>open_claim s cl\<close> show ?thesis
      by (auto simp: conclude_def evidence_def persist_def open_claim_def
          rec_complete_execution_replay_def find_replay_def
          intro!: releasedI [where x = "RepCompleted (call_context c) \<lparr> outcome_output = result, outcome_proof = p \<rparr>"])
  qed
qed

text \<open>The three ways in which a step changes who holds what.\<close>

lemma claims_inv_keep:
  assumes "claims_inv H calls m" and "held_claim p = held_claim (m_pool m i)"
  shows "claims_inv H calls (set_phase i p (m_store m) m)"
proof -
  have "held_claim (m_pool (set_phase i p (m_store m) m) j) = held_claim (m_pool m j)" for j
    using assms(2) by simp
  with assms(1) show ?thesis by (simp add: claims_inv_def)
qed

lemma claims_inv_release:
  assumes inv: "claims_inv H calls m" and rel: "released (m_store m) s' (held_claim (m_pool m i))"
  shows "claims_inv H calls (set_phase i (Finished x) s' m)"
proof -
  let ?m = "set_phase i (Finished x) s' m"
  have held: "held_claim (m_pool ?m j) = (if j = i then None else held_claim (m_pool m j))" for j
    by (simp add: held_claim_def)
  have other: "rec_execution_replays s' (claim_key cl) = rec_execution_replays (m_store m) (claim_key cl)"
    if "held_claim (m_pool m j) = Some cl" "j \<noteq> i" for j cl
  proof (cases "held_claim (m_pool m i)")
    case None
    with rel show ?thesis by (simp add: released_def)
  next
    case (Some c)
    with inv that have "claim_key c \<noteq> claim_key cl" unfolding claims_inv_def by blast
    with rel Some show ?thesis by (auto simp: released_def)
  qed
  show ?thesis
    unfolding claims_inv_def held set_phase_sel(1)
  proof (intro conjI allI impI)
    fix j cl assume "(if j = i then None else held_claim (m_pool m j)) = Some cl"
    then show "open_claim s' cl" and "execution_replay_claim H (call_claim_token (calls j))
        (call_operation (calls j)) (call_version (calls j)) (call_input (calls j))
        (call_context (calls j)) = Inr cl"
      using inv other [of j cl] by (auto simp: claims_inv_def open_claim_def split: if_splits)
  next
    fix j l cl cl' assume "(if j = i then None else held_claim (m_pool m j)) = Some cl"
      and "(if l = i then None else held_claim (m_pool m l)) = Some cl'" and "claim_key cl = claim_key cl'"
    then show "j = l" using inv unfolding claims_inv_def by (metis option.distinct(1))
  next
    fix k r assume r: "rec_execution_replays s' k = Some r" "replay_state r = RepClaimed"
    then have keys: "\<forall>cl. held_claim (m_pool m i) = Some cl \<longrightarrow> claim_key cl \<noteq> k"
      and "rec_execution_replays (m_store m) k = Some r"
      using rel by (auto simp: released_def split: option.splits if_splits)
    with inv r(2) obtain j cl where "held_claim (m_pool m j) = Some cl" "claim_key cl = k"
      unfolding claims_inv_def by blast
    with keys show "\<exists>j cl. (if j = i then None else held_claim (m_pool m j)) = Some cl \<and> claim_key cl = k"
      by (metis (full_types))
  qed
qed

lemma claims_inv_acquire:
  assumes inv: "claims_inv H calls m" and "held_claim (m_pool m i) = None"
    and p: "held_claim p = Some c" and free: "rec_execution_replays (m_store m) (claim_key c) = None"
    and s': "rec_execution_replays s' =
      (rec_execution_replays (m_store m))(claim_key c \<mapsto> \<lparr> replay_claim = c, replay_state = RepClaimed \<rparr>)"
    and c: "execution_replay_claim H (call_claim_token (calls i)) (call_operation (calls i))
      (call_version (calls i)) (call_input (calls i)) (call_context (calls i)) = Inr c"
  shows "claims_inv H calls (set_phase i p s' m)"
proof -
  let ?m = "set_phase i p s' m"
  have held: "held_claim (m_pool ?m j) = (if j = i then Some c else held_claim (m_pool m j))" for j
    using p by simp
  have other: "claim_key cl \<noteq> claim_key c" if "held_claim (m_pool m j) = Some cl" for j cl
  proof -
    have "open_claim (m_store m) cl" using inv that unfolding claims_inv_def by blast
    with free show ?thesis by (auto simp: open_claim_def)
  qed
  show ?thesis
    unfolding claims_inv_def held set_phase_sel(1)
  proof (intro conjI allI impI)
    fix j cl assume "(if j = i then Some c else held_claim (m_pool m j)) = Some cl"
    then show "open_claim s' cl" and "execution_replay_claim H (call_claim_token (calls j))
        (call_operation (calls j)) (call_version (calls j)) (call_input (calls j))
        (call_context (calls j)) = Inr cl"
      using inv other [of j cl] c s' by (auto simp: claims_inv_def open_claim_def split: if_splits)
  next
    fix j l cl cl' assume "(if j = i then Some c else held_claim (m_pool m j)) = Some cl"
      and "(if l = i then Some c else held_claim (m_pool m l)) = Some cl'" and "claim_key cl = claim_key cl'"
    then show "j = l"
      using inv other [of j cl] other [of l cl'] unfolding claims_inv_def
      by (auto split: if_splits)
  next
    fix k r assume r: "rec_execution_replays s' k = Some r" "replay_state r = RepClaimed"
    show "\<exists>j cl. (if j = i then Some c else held_claim (m_pool m j)) = Some cl \<and> claim_key cl = k"
    proof (cases "k = claim_key c")
      case False
      with r s' have "rec_execution_replays (m_store m) k = Some r" by simp
      with inv r(2) obtain j cl where "held_claim (m_pool m j) = Some cl" "claim_key cl = k"
        unfolding claims_inv_def by blast
      with assms(2) show ?thesis by (metis (full_types) option.distinct(1))
    qed auto
  qed
qed

lemma acquire_effect:
  assumes st: "eng_storage eng = Some (recording_store H f)"
    and "acquire H eng h fresh operation version input ctx s = (q, s')"
  obtains (none) "s' = s" and "\<And>claim. q = Inr (Proceed claim) \<Longrightarrow> claim = None"
  | (claimed) cl where "q = Inr (Proceed (Some cl))"
    and "execution_replay_claim H fresh operation version input ctx = Inr cl"
    and "rec_execution_replays s (claim_key cl) = None"
    and "rec_execution_replays s' =
      (rec_execution_replays s)(claim_key cl \<mapsto> \<lparr> replay_claim = cl, replay_state = RepClaimed \<rparr>)"
proof (cases "handler_idempotency_policy_for h version")
  case PolicyNone
  with assms none show thesis by (auto simp: acquire_def)
next
  case req: RequiredUuidV7ExactReplay
  show thesis
  proof (cases "execution_replay_claim H fresh operation version input ctx")
    case (Inl e)
    with req assms none show thesis by (auto simp: acquire_def)
  next
    case (Inr cl)
    show thesis
    proof (cases "rec_execution_replays s (claim_key cl)")
      case None
      with req Inr assms claimed [of cl] show thesis
        by (auto simp: acquire_def rec_claim_execution_replay_def)
    next
      case (Some r)
      define x where "x = (if claim_input_digest (replay_claim r) \<noteq> claim_input_digest cl then ReplayConflict
        else case replay_state r of RepClaimed \<Rightarrow> ReplayInProgress
          | RepCompleted _ out \<Rightarrow> ReplayCompleted out | RepFailed _ _ \<Rightarrow> ReplayFailed)"
      have "x \<noteq> ReplayAcquired" by (simp add: x_def split: RecordingReplayState.splits)
      moreover have "rec_claim_execution_replay s cl = (Inr x, s)"
        using Some by (simp add: rec_claim_execution_replay_def x_def)
      ultimately have "s' = s" and "\<And>claim. q \<noteq> Inr (Proceed claim)"
        using assms req Inr by (cases x; auto simp: acquire_def bindR_eq_Inr)+
      with none show thesis by blast
    qed
  qed
qed

lemma admit_effect:
  assumes st: "eng_storage eng = Some (recording_store H f)" and ad: "execute_admit H eng c s = (r, s')"
  obtains (none) "s' = s" and "\<And>eh claim. r = Inr (eh, Proceed claim) \<Longrightarrow> claim = None"
  | (claimed) eh cl where "r = Inr (eh, Proceed (Some cl))"
    and "execution_replay_claim H (call_claim_token c) (call_operation c) (call_version c) (call_input c)
      (call_context c) = Inr cl"
    and "rec_execution_replays s (claim_key cl) = None"
    and "rec_execution_replays s' =
      (rec_execution_replays s)(claim_key cl \<mapsto> \<lparr> replay_claim = cl, replay_state = RepClaimed \<rparr>)"
proof (cases "authorize H eng (call_operation c) (call_version c) (call_input c) (call_context c)
    (call_approval c) s")
  case (Inl e)
  with ad none show thesis by (auto simp: execute_admit_def)
next
  case (Inr eh)
  obtain entry handler where eh: "eh = (entry, handler)" by fastforce
  obtain q where q: "acquire H eng handler (call_claim_token c) (call_operation c) (call_version c)
      (call_input c) (call_context c) s = (q, s')"
    and r: "r = raise (bindR q (\<lambda>a. Inr (eh, a)))"
    using ad Inr eh by (auto simp: execute_admit_def apfst_def map_prod_def split: prod.splits)
  from st q show thesis
  proof (cases rule: acquire_effect)
    case none': none
    show thesis
    proof (rule none)
      show "s' = s" by fact
      show "claim = None" if "r = Inr (eh', Proceed claim)" for eh' claim
        using that r none'(2) by (auto simp: raise_def bindR_eq_Inr)
    qed
  next
    case (claimed cl)
    with r that(2) show thesis by (simp add: raise_def)
  qed
qed

lemma claims_inv_sel [simp]:
  "claims_inv H calls (m\<lparr>m_world := w, m_runs := rs\<rparr>) = claims_inv H calls m"
  by (simp add: claims_inv_def)

lemma held_claim_simps [simp]:
  "held_claim Waiting = None" "held_claim (Admitted entry h claim) = claim"
  "held_claim (Gated h claim) = claim" "held_claim (Ran result claim) = claim"
  "held_claim (Finished x) = None"
  by (simp_all add: held_claim_def)

lemma advance_claims:
  assumes st: "eng_storage eng = Some (recording_store H f)" and inv: "claims_inv H calls m"
  shows "claims_inv H calls (advance H eng calls i m)"
proof (cases "m_pool m i")
  case Waiting
  obtain r s' where ad: "execute_admit H eng (calls i) (m_store m) = (r, s')" by fastforce
  from st ad show ?thesis
  proof (cases rule: admit_effect)
    case none
    have fin: "claims_inv H calls (set_phase i (Finished x) (m_store m) m)" for x
      using claims_inv_keep [OF inv, of "Finished x" i] Waiting by simp
    have adm: "claims_inv H calls (set_phase i (Admitted entry h None) (m_store m) m)" for entry h
      using claims_inv_keep [OF inv, of "Admitted entry h None" i] Waiting by simp
    from none(2) fin adm Waiting ad \<open>s' = m_store m\<close> show ?thesis
      by (cases r) (auto simp: advance_def split: admission.splits)
  next
    case (claimed eh cl)
    obtain entry h where "eh = (entry, h)" by fastforce
    moreover have "claims_inv H calls (set_phase i (Admitted entry h (Some cl)) s' m)"
      by (rule claims_inv_acquire [OF inv _ _ claimed(3,4,2)]) (simp_all add: Waiting)
    ultimately show ?thesis using Waiting ad claimed(1) by (simp add: advance_def)
  qed
next
  case (Admitted entry handler claim)
  have held: "\<forall>cl. claim = Some cl \<longrightarrow> open_claim (m_store m) cl"
    using inv Admitted unfolding claims_inv_def by (metis held_claim_simps(2))
  obtain r s' where g: "benchmark_gate H eng entry (call_operation (calls i)) (call_version (calls i))
      (call_context (calls i)) claim (m_store m) = (r, s')" by fastforce
  show ?thesis
  proof (cases r)
    case (Inl e)
    with g gate_store fail_released [OF st held] have "released (m_store m) s' claim" by metis
    then show ?thesis using Admitted g Inl claims_inv_release [OF inv, of s' i]
      by (simp add: advance_def)
  next
    case (Inr u)
    with g have "s' = m_store m" using gate_Inr by (metis old.unit.exhaust)
    then show ?thesis using Admitted g Inr claims_inv_keep [OF inv, of "Gated handler claim" i]
      by (simp add: advance_def)
  qed
next
  case (Gated handler claim)
  have held: "\<forall>cl. claim = Some cl \<longrightarrow> open_claim (m_store m) cl"
    using inv Gated unfolding claims_inv_def by (metis held_claim_simps(3))
  obtain r s' w' where h: "run_handler H eng handler (call_version (calls i)) (call_input (calls i))
      (call_context (calls i)) claim (m_store m, m_world m) = (r, s', w')" by (metis prod_cases3)
  show ?thesis
  proof (cases r)
    case (Inl e)
    with h run_handler_fails fail_released [OF st held] have "released (m_store m) s' claim" by metis
    then show ?thesis using Gated h Inl claims_inv_release [OF inv, of s' i]
      by (simp add: advance_def)
  next
    case (Inr result)
    with h have "s' = m_store m" by (simp add: run_handler_Inr)
    then show ?thesis using Gated h Inr claims_inv_keep [OF inv, of "Ran result claim" i]
      by (simp add: advance_def)
  qed
next
  case (Ran result claim)
  have "\<forall>cl. claim = Some cl \<longrightarrow> open_claim (m_store m) cl \<and>
      execution_replay_claim H (call_claim_token (calls i)) (call_operation (calls i))
        (call_version (calls i)) (call_input (calls i)) (call_context (calls i)) = Inr cl"
    using inv Ran unfolding claims_inv_def by (metis held_claim_simps(4))
  note rel = conclude_released [OF st this, of "call_proof_id (calls i)" result
      "call_evidence_required (calls i)"]
  obtain r s' where "conclude H eng (call_proof_id (calls i)) (call_operation (calls i))
      (call_version (calls i)) (call_input (calls i)) result (call_context (calls i)) claim
      (call_evidence_required (calls i)) (m_store m) = (r, s')" by fastforce
  then show ?thesis using rel Ran claims_inv_release [OF inv, of s' i] by (simp add: advance_def)
qed (use inv in \<open>simp add: advance_def\<close>)

text \<open>Every call needs at most four steps, whatever the others do in between.\<close>

definition remaining :: "'w phase \<Rightarrow> nat" where
  "remaining p =
     (case p of Waiting \<Rightarrow> 4 | Admitted _ _ _ \<Rightarrow> 3 | Gated _ _ \<Rightarrow> 2 | Ran _ _ \<Rightarrow> 1 | Finished _ \<Rightarrow> 0)"

lemma remaining_simps [simp]:
  "remaining Waiting = 4" "remaining (Admitted entry h claim) = 3" "remaining (Gated h claim) = 2"
  "remaining (Ran result claim) = 1" "remaining (Finished x) = 0"
  by (simp_all add: remaining_def)

lemma advance_remaining:
  "remaining (m_pool (advance H eng calls i m) j) \<le>
     (if i = j then remaining (m_pool m j) - 1 else remaining (m_pool m j))"
proof (cases "m_pool m i")
  case Waiting
  obtain r s' where "execute_admit H eng (calls i) (m_store m) = (r, s')" by fastforce
  with Waiting show ?thesis
    by (cases r) (auto simp: advance_def split: admission.splits)
next
  case (Admitted entry handler claim)
  obtain r s' where "benchmark_gate H eng entry (call_operation (calls i)) (call_version (calls i))
      (call_context (calls i)) claim (m_store m) = (r, s')" by fastforce
  with Admitted show ?thesis by (cases r) (auto simp: advance_def)
next
  case (Gated handler claim)
  obtain r s' w' where "run_handler H eng handler (call_version (calls i)) (call_input (calls i))
      (call_context (calls i)) claim (m_store m, m_world m) = (r, s', w')" by (metis prod_cases3)
  with Gated show ?thesis by (cases r) (auto simp: advance_def)
next
  case (Ran result claim)
  obtain r s' where "conclude H eng (call_proof_id (calls i)) (call_operation (calls i))
      (call_version (calls i)) (call_input (calls i)) result (call_context (calls i)) claim
      (call_evidence_required (calls i)) (m_store m) = (r, s')" by fastforce
  with Ran show ?thesis by (auto simp: advance_def)
qed (auto simp: advance_def)

lemma schedule_remaining:
  "remaining (m_pool (run_schedule H eng calls schedule m) j) \<le>
     remaining (m_pool m j) - count_list schedule j"
  unfolding run_schedule_def
proof (induction schedule arbitrary: m)
  case (Cons i schedule)
  show ?case
    using Cons.IH [of "advance H eng calls i m"] advance_remaining [of H eng calls i m j]
    by (auto split: if_splits)
qed simp

lemma schedule_claims:
  "eng_storage eng = Some (recording_store H f) \<Longrightarrow> claims_inv H calls m \<Longrightarrow>
   claims_inv H calls (run_schedule H eng calls schedule m)"
  unfolding run_schedule_def by (induction schedule arbitrary: m) (simp_all add: advance_claims)

lemma advance_pool: "j \<noteq> i \<Longrightarrow> m_pool (advance H eng calls i m) j = m_pool m j"
  by (simp add: advance_def Let_def split: phase.split sum.split prod.split admission.split)

lemma schedule_pool: "i \<notin> set schedule \<Longrightarrow> m_pool (run_schedule H eng calls schedule m) i = m_pool m i"
  unfolding run_schedule_def by (induction schedule arbitrary: m) (simp_all add: advance_pool)

lemma finished_iff: "remaining p = 0 \<longleftrightarrow> (\<exists>r. p = Finished r)"
  by (cases p) simp_all

text \<open>What a successful execution leaves in the store.\<close>

lemma admit_open:
  assumes "eng_storage eng = Some (recording_store H f)"
    and "execute_admit H eng c s = (Inr (eh, Proceed claim), s')"
  shows "\<forall>cl. claim = Some cl \<longrightarrow> open_claim s' cl"
  using assms by (cases rule: admit_effect) (auto simp: open_claim_def)

lemma persist_records:
  assumes "eng_storage eng = Some (recording_store H f)" and "\<forall>cl. claim = Some cl \<longrightarrow> open_claim s cl"
    and "persist eng result (Some p) ctx claim s = (Inr (), s')"
  shows "p \<in> set (rec_proofs s')"
proof (cases claim)
  case None
  with assms show ?thesis by (auto simp: persist_def rec_save_proof_def rec_save_execution_context_def)
next
  case (Some cl)
  with assms(2) have "open_claim s cl" by simp
  with Some assms(1,3) show ?thesis
    by (auto simp: persist_claim_Inr open_claim_def rec_complete_execution_replay_def find_replay_def
        bindR_eq_Inr split: sum.splits)
qed

section \<open>A concrete engine\<close>

text \<open>One exact-replay operation, whose handler counts its runs, on the in-memory store.\<close>

definition sample_handler :: "nat OperationHandler" where
  "sample_handler =
     \<lparr> handler_operation = ''doc.create'',
       handler_idempotency_policy_for = (\<lambda>_. RequiredUuidV7ExactReplay),
       handler_execute_versioned = (\<lambda>_ _ _ w. (Inr (JBool True), Suc w)) \<rparr>"

definition sample_engine :: "(RecordingStore, nat) ExecutionEngine" where
  "sample_engine =
     with_storage (register_handler
         (new_with_keypair
            \<lparr> reg_entries = [sample_entry ''doc.create'' ''doc'' ''v1''],
              reg_index = [((''doc.create'', ''v1''), 0)] \<rparr> sample_agent)
         sample_handler)
       (recording_store sample_host 0)"

definition sample_rec_store :: RecordingStore where
  "sample_rec_store =
     \<lparr> rec_proofs = [], rec_contexts = [], rec_delegations = [], rec_execution_replays = (\<lambda>_. None) \<rparr>"

definition sample_call :: "uuid \<Rightarrow> exec_call" where
  "sample_call token =
     \<lparr> call_operation = ''doc.create'', call_version = ''v1'',
       call_input = JObject [(''idempotency_key'', json_uuid sample_host (sample_v7 1))],
       call_context = \<lparr> ctx_actor = 7, ctx_principal_kind = None, ctx_delegation_id = None,
         ctx_delegation_chain = None, ctx_workspace_path = ''w'', ctx_timestamp = 5 \<rparr>,
       call_approval = None, call_evidence_required = False, call_claim_token = token,
       call_proof_id = 3 \<rparr>"

lemma sample_engine_sel [simp]:
  "eng_storage sample_engine = Some (recording_store sample_host 0)"
  "eng_handlers sample_engine ''doc.create'' = Some sample_handler"
  "eng_keypair sample_engine = sample_agent"
  "registry_find (eng_registry sample_engine) ''doc.create'' ''v1'' = Some (sample_entry ''doc.create'' ''doc'' ''v1'')"
  by (simp_all add: sample_engine_def with_storage_def register_handler_def new_with_keypair_def
      sample_handler_def registry_find_def)

lemma sample_call_sel [simp]:
  "call_operation (sample_call t) = ''doc.create''" "call_version (sample_call t) = ''v1''"
  "call_input (sample_call t) = JObject [(''idempotency_key'', json_uuid sample_host (sample_v7 1))]"
  "call_approval (sample_call t) = None" "call_claim_token (sample_call t) = t"
  "ctx_actor (call_context (sample_call t)) = 7" "ctx_delegation_id (call_context (sample_call t)) = None"
  "ctx_delegation_chain (call_context (sample_call t)) = None"
  by (simp_all add: sample_call_def)

lemma sample_exact: "exact_replay sample_engine (sample_call t)"
  by (simp add: exact_replay_def sample_handler_def)

lemma sample_authorize:
  "authorize H sample_engine (call_operation (sample_call t)) (call_version (sample_call t))
     (call_input (sample_call t)) (call_context (sample_call t)) (call_approval (sample_call t)) s
   = Inr (sample_entry ''doc.create'' ''doc'' ''v1'', sample_handler)"
  by (simp add: authorize_Inr check_governance_def check_delegation_def)

lemma sample_claim:
  "\<exists>cl. execution_replay_claim sample_host t (call_operation (sample_call t))
     (call_version (sample_call t)) (call_input (sample_call t)) (call_context (sample_call t)) = Inr cl"
proof -
  have "canonicalize sample_host (JObject [(''idempotency_key'', json_uuid sample_host (sample_v7 1))]) =
      Inr (render sample_host (JObject [(''idempotency_key'', json_uuid sample_host (sample_v7 1))]))"
    by (rule canonicalize_exact_ok) (simp_all add: bt_ok_def)
  moreover have "host_parse_uuid sample_host (host_uuid_text sample_host (sample_v7 1)) = Some (sample_v7 1)"
    using sample_text_law by (simp add: text_law_def)
  ultimately show ?thesis
    using sample_v7_is_v7 [of 1]
    by (simp add: execution_replay_claim_def json_get_def json_uuid_def json_as_str_def)
qed

section \<open>Properties\<close>

text \<open>
  C24: A call without authority has no effect: when the operation is unknown or sunset, is
  reserved to humans and neither the caller is one nor a signed approval covers the call, or
  the delegation does not hold or does not reach the operation, then the call fails and
  neither the store nor anything a handler acts on has changed.
\<close>

theorem unauthorized_has_no_effect:
  assumes "\<not> authorized H eng c s"
  shows "\<exists>e. execute_inner H eng c (s, w) = (Inl (Raise e), s, w) \<and>
    (\<forall>x. e \<noteq> HandlerFailed x) \<and> (\<forall>x. e \<noteq> EvidenceFailed x) \<and> (\<forall>x. e \<noteq> Idempotency x)"
proof -
  obtain e where e: "authorize H eng (call_operation c) (call_version c) (call_input c) (call_context c)
      (call_approval c) s = Inl e"
    using assms authorize_authorized by (metis sum.exhaust)
  have "(\<forall>x. e \<noteq> HandlerFailed x) \<and> (\<forall>x. e \<noteq> EvidenceFailed x) \<and> (\<forall>x. e \<noteq> Idempotency x)"
    using e
    by (auto simp: authorize_def check_governance_def check_delegation_def enforce_delegation_def
        enforced_delegation_def result_simps split: if_splits option.splits)
  with e show ?thesis by (simp add: execute_inner_def execute_admit_def on_store_def)
qed

theorem unauthorized_has_no_effect_witness:
  "\<exists>e. execute_inner sample_host sample_engine ((sample_call 1)\<lparr>call_version := ''v2''\<rparr>) (sample_rec_store, 0)
     = (Inl (Raise e), sample_rec_store, 0)"
proof -
  have "\<not> authorized sample_host sample_engine ((sample_call 1)\<lparr>call_version := ''v2''\<rparr>) sample_rec_store"
    by (simp add: authorized_def sample_engine_def with_storage_def register_handler_def
        new_with_keypair_def registry_find_def)
  from unauthorized_has_no_effect [OF this] show ?thesis by blast
qed

text \<open>
  C25: The engine never panics: none of its \<open>expect\<close> calls fails, whatever the store and the
  handlers return, and the evidenced entry points always have a proof to return.
\<close>

theorem execute_never_panics:
  "fst (execute H eng c sw) \<noteq> Inl Panic \<and> fst (execute_evidenced H eng c sw) \<noteq> Inl Panic \<and>
   fst (execute_with_approval H eng c approval sw) \<noteq> Inl Panic \<and>
   fst (execute_with_approval_evidenced H eng c approval sw) \<noteq> Inl Panic"
proof -
  have plain: "fst (apfst (map_sum id internal_output) (execute_inner H eng d sw)) \<noteq> Inl Panic" for d
    using execute_inner_no_panic [of H eng d sw]
    by (cases "fst (execute_inner H eng d sw)") simp_all
  have "fst (evidenced (execute_inner H eng d sw)) \<noteq> Inl Panic" if "call_evidence_required d" for d
    using execute_inner_no_panic [of H eng d sw] execute_inner_proof [of H eng d "fst sw" "snd sw"] that
    by (cases "execute_inner H eng d sw") (auto simp: evidenced_def bindE_def split: sum.splits option.splits)
  with plain show ?thesis
    by (simp add: execute_def execute_evidenced_def execute_with_approval_def
        execute_with_approval_evidenced_def)
qed


lemma sample_run:
  "\<exists>out s'. execute_inner sample_host sample_engine (sample_call t) (sample_rec_store, 0) = (Inr out, s', 1) \<and>
     internal_output out = JBool True"
proof -
  obtain cl where cl: "execution_replay_claim sample_host t (call_operation (sample_call t))
      (call_version (sample_call t)) (call_input (sample_call t)) (call_context (sample_call t)) = Inr cl"
    using sample_claim by blast
  obtain p where p: "create_operation_proof sample_host sample_engine (call_proof_id (sample_call t))
      (call_operation (sample_call t)) (call_version (sample_call t)) (call_input (sample_call t))
      (JBool True) (call_context (sample_call t)) = Inr p"
    using replay_claim_Inr(6) [OF cl]
    by (force simp: create_operation_proof_Inr proof_sign_ok proof_new_def sample_agent_def
        generate_keypair_for_def canonicalize_def)
  note valid = validate_fresh_outcome(2) [OF cl p]
  show ?thesis
    using cl p valid sample_authorize [of sample_host t sample_rec_store]
    by (simp add: execute_inner_def execute_admit_def acquire_def on_store_def raise_def
        execute_dispatch_def benchmark_gate_def run_handler_def sample_handler_def conclude_def
        evidence_def persist_def rec_claim_execution_replay_def rec_complete_execution_replay_def
        find_replay_def sample_rec_store_def sample_entry_def)
qed


text \<open>
  C27: Exact replay runs a handler at most once. However calls interleave on one in-memory
  store, each call runs its handler at most once, and no two calls of an exact-replay
  operation that carry the same idempotency key for the same operation and version both run
  it, whoever makes them and whatever input they carry.
\<close>

theorem replay_at_most_once:
  assumes "eng_storage eng = Some (recording_store H f)"
    and "\<forall>i. m_pool m i = Waiting" and "m_runs m = []" and "run_schedule H eng calls schedule m = m'"
  shows "distinct (m_runs m') \<and>
    (\<forall>i \<in> set (m_runs m'). \<forall>j \<in> set (m_runs m'). exact_replay eng (calls i) \<longrightarrow>
       exact_replay eng (calls j) \<longrightarrow> replay_key H (calls i) = replay_key H (calls j) \<longrightarrow> i = j)"
  using recording.runs_at_most_once [OF assms(1-3), of H calls schedule] assms(4)
  by (simp add: machine_inv_def entered_def)

definition sample_machine :: "(RecordingStore, nat) machine" where
  "sample_machine =
     \<lparr> m_pool = (\<lambda>_. Waiting), m_store = sample_rec_store, m_world = 0, m_runs = [] \<rparr>"

theorem replay_at_most_once_witness:
  "distinct (m_runs (run_schedule sample_host sample_engine (\<lambda>i. sample_call (of_nat i)) [0, 1, 1, 0, 0, 1] sample_machine))"
  using replay_at_most_once [of sample_engine sample_host 0 sample_machine "\<lambda>i. sample_call (of_nat i)"
      "[0, 1, 1, 0, 0, 1]"]
  by (simp add: sample_machine_def)





end
