(* ===== verification/RunStore.thy ===== *)
theory RunStore
  imports AgentRun
begin

text \<open>
  The recording store for agent runs, steps, checkpoints, evaluations, definitions, events and
  live-start claims: \<open>RecordingAgentRunStore\<close> in
  \<^verbatim>\<open>crates/proof-kernel/src/agent_run.rs\<close>. Its mutexes are never poisoned. The claim
  table is a hash map keyed by the readiness digest, of which the code only uses
  \<open>values().find\<close> and \<open>insert\<close>: here it is the list of its claims.
\<close>

section \<open>State\<close>

record RecordingLiveRunStartClaim =
  rc_claim :: LiveRunStartClaim
  rc_initial_run :: AgentRun
  rc_checkpoint_id :: uuid
  rc_event_id :: uuid

record RecordingAgentRunStore =
  rs_runs :: "(uuid \<times> AgentRun) list"
  rs_steps :: "(uuid \<times> AgentRunStep) list"
  rs_checkpoints :: "(uuid \<times> AgentCheckpoint) list"
  rs_evaluations :: "(uuid \<times> AgentRunEvaluation) list"
  rs_definitions :: "(uuid \<times> AgentDefinition) list"
  rs_events :: "(uuid \<times> AgentRunEvent) list"
  rs_live_start_claims :: "RecordingLiveRunStartClaim list"

definition empty_run_store :: RecordingAgentRunStore where
  "empty_run_store =
     \<lparr> rs_runs = [], rs_steps = [], rs_checkpoints = [], rs_evaluations = [], rs_definitions = [],
       rs_events = [], rs_live_start_claims = [] \<rparr>"

section \<open>Messages\<close>

definition invalid_live_start_text :: string where
  "invalid_live_start_text = ''live run start claim or initial evidence bundle is invalid''"

definition stale_text :: "u64 \<Rightarrow> u64 \<Rightarrow> string" where
  "stale_text revision stored =
     ''stale agent run revision: stored '' @ show_nat (unat stored) @ '', supplied ''
     @ show_nat (unat revision)"

definition must_start_text :: "host \<Rightarrow> uuid \<Rightarrow> string" where
  "must_start_text H rid =
     ''new agent run record '' @ host_uuid_text H rid @ '' must start at revision 0''"

section \<open>Runs\<close>

definition save_agent_run :: "host \<Rightarrow> RecordingAgentRunStore \<Rightarrow> AgentRun
    \<Rightarrow> string + RecordingAgentRunStore" where
  "save_agent_run H s r =
     bindR (save_versioned (stale_text (run_revision r)) (must_start_text H (run_id r))
              (rs_runs s) (run_id r) (run_revision r) r run_revision)
       (\<lambda>m. Inr (s\<lparr>rs_runs := m\<rparr>))"

definition load_agent_run :: "RecordingAgentRunStore \<Rightarrow> uuid \<Rightarrow> AgentRun option" where
  "load_agent_run s rid = map_of (rs_runs s) rid"

definition list_agent_runs :: "RecordingAgentRunStore \<Rightarrow> AgentRun list" where
  "list_agent_runs s = sort_key (\<lambda>r. (run_created_at r, run_id r)) (bt_values (rs_runs s))"

section \<open>Steps\<close>

definition binding_immutable_text :: "host \<Rightarrow> AgentRunStep \<Rightarrow> string" where
  "binding_immutable_text H step =
     ''agent run step '' @ host_uuid_text H (step_id step)
     @ '' approval binding is immutable once assigned''"

definition already_bound_text :: "host \<Rightarrow> uuid \<Rightarrow> AgentRunStep \<Rightarrow> string" where
  "already_bound_text H approval existing =
     ''approval request '' @ host_uuid_text H approval @ '' is already bound to agent run step ''
     @ host_uuid_text H (step_id existing)"

definition save_agent_run_step :: "host \<Rightarrow> RecordingAgentRunStore \<Rightarrow> AgentRunStep
    \<Rightarrow> string + RecordingAgentRunStore" where
  "save_agent_run_step H s step =
     (if (case map_of (rs_steps s) (step_id step) of
            None \<Rightarrow> False
          | Some existing \<Rightarrow> step_approval_request_id existing \<noteq> None
              \<and> step_approval_request_id existing \<noteq> step_approval_request_id step)
      then Inl (binding_immutable_text H step)
      else
        case (case step_approval_request_id step of
                None \<Rightarrow> None
              | Some approval \<Rightarrow>
                  map_option (already_bound_text H approval)
                    (find (\<lambda>existing. step_id existing \<noteq> step_id step
                             \<and> step_approval_request_id existing = Some approval)
                       (bt_values (rs_steps s)))) of
          Some message \<Rightarrow> Inl message
        | None \<Rightarrow>
            bindR (save_versioned (stale_text (step_revision step)) (must_start_text H (step_id step))
                     (rs_steps s) (step_id step) (step_revision step) step step_revision)
              (\<lambda>m. Inr (s\<lparr>rs_steps := m\<rparr>)))"

definition load_agent_run_step :: "RecordingAgentRunStore \<Rightarrow> uuid \<Rightarrow> AgentRunStep option" where
  "load_agent_run_step s sid = map_of (rs_steps s) sid"

definition list_agent_run_steps :: "RecordingAgentRunStore \<Rightarrow> uuid \<Rightarrow> AgentRunStep list" where
  "list_agent_run_steps s rid =
     sort_key (\<lambda>step. (step_ordinal step, step_attempt step))
       (filter (\<lambda>step. step_run_id step = rid) (bt_values (rs_steps s)))"

definition find_agent_run_step_by_approval :: "host \<Rightarrow> RecordingAgentRunStore \<Rightarrow> uuid
    \<Rightarrow> string + AgentRunStep option" where
  "find_agent_run_step_by_approval H s approval =
     (case filter (\<lambda>step. step_approval_request_id step = Some approval) (bt_values (rs_steps s)) of
        [] \<Rightarrow> Inr None
      | [matched] \<Rightarrow> Inr (Some matched)
      | _ \<Rightarrow> Inl (''approval request '' @ host_uuid_text H approval
                   @ '' is bound to multiple agent run steps''))"

section \<open>Checkpoints\<close>

definition validate_agent_checkpoint_integrity :: "host \<Rightarrow> AgentCheckpoint \<Rightarrow> string \<Rightarrow> string + unit" where
  "validate_agent_checkpoint_integrity H checkpoint description =
     bindR (map_err (\<lambda>e. description @ '' state is not canonicalizable: ''
                          @ canonicalization_error_text e) (canonicalize H (cp_state checkpoint)))
       (\<lambda>canonical.
        if cp_state_digest checkpoint \<noteq> digest H KAgentCheckpoint canonical
        then Inl (description @ '' state digest does not match its state'')
        else Inr ())"

definition cp_conflict_text :: "host \<Rightarrow> uuid \<Rightarrow> string \<Rightarrow> string" where
  "cp_conflict_text H cid message = ''agent checkpoint '' @ host_uuid_text H cid @ message"

definition wrong_run_text :: "host \<Rightarrow> AgentCheckpointTail \<Rightarrow> uuid \<Rightarrow> uuid \<Rightarrow> string" where
  "wrong_run_text H tail found wanted =
     ''expected agent checkpoint tail '' @ host_uuid_text H (tail_checkpoint_id tail)
     @ '' belongs to run '' @ host_uuid_text H found @ '', not '' @ host_uuid_text H wanted"

definition expected_sequence :: "AgentCheckpointTail option \<Rightarrow> string + u32" where
  "expected_sequence expected_tail =
     (case expected_tail of
        None \<Rightarrow> Inr 0
      | Some tail \<Rightarrow>
          ok_or ''new agent checkpoint sequence cannot follow the maximum expected tail sequence''
            (checked_add (tail_sequence tail) 1))"

definition run_checkpoints :: "RecordingAgentRunStore \<Rightarrow> uuid \<Rightarrow> AgentCheckpoint list" where
  "run_checkpoints s rid = filter (\<lambda>existing. cp_run_id existing = rid) (bt_values (rs_checkpoints s))"

text \<open>The part of \<open>append_agent_checkpoint\<close> after the candidate itself was checked.\<close>

definition append_checked :: "host \<Rightarrow> RecordingAgentRunStore \<Rightarrow> AgentCheckpointTail option
    \<Rightarrow> AgentCheckpoint \<Rightarrow> string + AgentCheckpointAppendResult \<times> RecordingAgentRunStore" where
  "append_checked H s expected_tail checkpoint =
     (let current = max_by_key cp_sequence (run_checkpoints s (cp_run_id checkpoint)) in
      bindR (case current of None \<Rightarrow> Inr ()
             | Some c \<Rightarrow> validate_agent_checkpoint_integrity H c ''stored current agent checkpoint'')
        (\<lambda>_.
      if map_option checkpoint_tail current = Some (checkpoint_tail checkpoint) then
        let predecessor =
          Option.bind (checked_sub (cp_sequence checkpoint) 1) (\<lambda>sequence.
            find (\<lambda>existing. cp_sequence existing = sequence)
              (run_checkpoints s (cp_run_id checkpoint))) in
        bindR (case predecessor of None \<Rightarrow> Inr ()
               | Some p \<Rightarrow> validate_agent_checkpoint_integrity H p ''stored predecessor agent checkpoint'')
          (\<lambda>_.
        if current \<noteq> Some checkpoint
        then Inl (cp_conflict_text H (cp_id checkpoint) '' has a conflicting immutable envelope'')
        else Inr (if map_option checkpoint_tail predecessor = expected_tail then Appended else Stale, s))
      else if map_option checkpoint_tail current \<noteq> expected_tail then Inr (Stale, s)
      else if list_ex (\<lambda>existing. cp_sequence existing = cp_sequence checkpoint)
                (run_checkpoints s (cp_run_id checkpoint))
      then Inl (''agent checkpoint sequence '' @ show_nat (unat (cp_sequence checkpoint))
                @ '' conflicts within run '' @ host_uuid_text H (cp_run_id checkpoint))
      else Inr (Appended, s\<lparr> rs_checkpoints :=
                  bt_insert (cp_id checkpoint) checkpoint (rs_checkpoints s) \<rparr>)))"

definition append_agent_checkpoint :: "host \<Rightarrow> RecordingAgentRunStore \<Rightarrow> AgentCheckpointTail option
    \<Rightarrow> AgentCheckpoint \<Rightarrow> string + AgentCheckpointAppendResult \<times> RecordingAgentRunStore" where
  "append_agent_checkpoint H s expected_tail checkpoint =
     bindR (validate_agent_checkpoint_integrity H checkpoint ''new agent checkpoint'') (\<lambda>_.
     bindR (expected_sequence expected_tail) (\<lambda>sequence.
     if cp_sequence checkpoint \<noteq> sequence
     then Inl (''new agent checkpoint sequence '' @ show_nat (unat (cp_sequence checkpoint))
               @ '' does not follow expected sequence '' @ show_nat (unat sequence))
     else if (case map_of (rs_checkpoints s) (cp_id checkpoint) of
                None \<Rightarrow> False | Some existing \<Rightarrow> existing \<noteq> checkpoint)
     then Inl (cp_conflict_text H (cp_id checkpoint)
                 '' conflicts with an existing immutable checkpoint'')
     else
       case Option.bind expected_tail (\<lambda>tail.
              map_option (\<lambda>predecessor. (tail, predecessor))
                (map_of (rs_checkpoints s) (tail_checkpoint_id tail))) of
         Some (tail, predecessor) \<Rightarrow>
           if cp_run_id predecessor \<noteq> cp_run_id checkpoint
           then Inl (wrong_run_text H tail (cp_run_id predecessor) (cp_run_id checkpoint))
           else append_checked H s expected_tail checkpoint
       | None \<Rightarrow> append_checked H s expected_tail checkpoint))"

definition checkpoint_slot :: "AgentCheckpoint \<Rightarrow> uuid \<times> u32" where
  "checkpoint_slot c = (cp_run_id c, cp_sequence c)"

definition save_agent_checkpoint :: "host \<Rightarrow> RecordingAgentRunStore \<Rightarrow> AgentCheckpoint
    \<Rightarrow> string + RecordingAgentRunStore" where
  "save_agent_checkpoint H s checkpoint =
     bindR (save_unique
              (sequence_taken_text H ''agent checkpoint'' (cp_sequence checkpoint) (cp_run_id checkpoint))
              (conflicting_text H ''agent checkpoint'' (cp_id checkpoint))
              checkpoint_slot cp_id (rs_checkpoints s) checkpoint)
       (\<lambda>m. Inr (s\<lparr>rs_checkpoints := m\<rparr>))"

definition list_agent_checkpoints :: "RecordingAgentRunStore \<Rightarrow> uuid \<Rightarrow> AgentCheckpoint list" where
  "list_agent_checkpoints s rid = sort_key cp_sequence (run_checkpoints s rid)"

section \<open>Evaluations, definitions and events\<close>

definition save_agent_run_evaluation :: "host \<Rightarrow> RecordingAgentRunStore \<Rightarrow> AgentRunEvaluation
    \<Rightarrow> string + RecordingAgentRunStore" where
  "save_agent_run_evaluation H s evaluation =
     bindR (save_once (conflicting_text H ''agent run evaluation'' (eval_id evaluation))
              (rs_evaluations s) (eval_id evaluation) evaluation)
       (\<lambda>m. Inr (s\<lparr>rs_evaluations := m\<rparr>))"

definition list_agent_run_evaluations :: "RecordingAgentRunStore \<Rightarrow> uuid \<Rightarrow> AgentRunEvaluation list" where
  "list_agent_run_evaluations s rid =
     sort_key (\<lambda>evaluation. (eval_created_at evaluation, eval_id evaluation))
       (filter (\<lambda>evaluation. eval_run_id evaluation = rid) (bt_values (rs_evaluations s)))"

definition save_agent_definition :: "host \<Rightarrow> RecordingAgentRunStore \<Rightarrow> AgentDefinition
    \<Rightarrow> string + RecordingAgentRunStore" where
  "save_agent_definition H s agent =
     bindR (save_unique (name_taken_text agent) (conflicting_text H ''agent definition'' (def_id agent))
              def_name def_id (rs_definitions s) agent)
       (\<lambda>m. Inr (s\<lparr>rs_definitions := m\<rparr>))"

definition load_agent_definition :: "RecordingAgentRunStore \<Rightarrow> uuid \<Rightarrow> AgentDefinition option" where
  "load_agent_definition s agent = map_of (rs_definitions s) agent"

definition list_agent_definitions :: "RecordingAgentRunStore \<Rightarrow> AgentDefinition list" where
  "list_agent_definitions s =
     sort_key (\<lambda>agent. (def_created_at agent, def_id agent)) (bt_values (rs_definitions s))"

definition save_agent_run_event :: "host \<Rightarrow> RecordingAgentRunStore \<Rightarrow> AgentRunEvent
    \<Rightarrow> string + RecordingAgentRunStore" where
  "save_agent_run_event H s event =
     bindR (save_unique
              (sequence_taken_text H ''agent run event'' (event_sequence event) (event_run_id event))
              (conflicting_text H ''agent run event'' (event_id event))
              event_slot event_id (rs_events s) event)
       (\<lambda>m. Inr (s\<lparr>rs_events := m\<rparr>))"

definition list_agent_run_events :: "RecordingAgentRunStore \<Rightarrow> uuid \<Rightarrow> AgentRunEvent list" where
  "list_agent_run_events s rid =
     sort_key event_sequence (filter (\<lambda>event. event_run_id event = rid) (bt_values (rs_events s)))"

section \<open>Live-start claims\<close>

definition validate_progressed_claim_run :: "AgentRun \<Rightarrow> AgentRun \<Rightarrow> string + unit" where
  "validate_progressed_claim_run initial current =
     (if run_id current \<noteq> run_id initial \<or> run_actor current \<noteq> run_actor initial
         \<or> run_agent_id current \<noteq> run_agent_id initial \<or> run_mode current \<noteq> run_mode initial
         \<or> run_goal current \<noteq> run_goal initial \<or> run_created_at current \<noteq> run_created_at initial
         \<or> run_revision current < run_revision initial \<or> run_updated_at current < run_updated_at initial
      then Inl ''claimed live run identity or history drifted'' else Inr ())"

definition same_live_start :: "LiveRunStartClaim \<Rightarrow> RecordingLiveRunStartClaim \<Rightarrow> bool" where
  "same_live_start claim existing =
     (claim_readiness_binding_digest (rc_claim existing) = claim_readiness_binding_digest claim
      \<or> claim_setup_digest (rc_claim existing) = claim_setup_digest claim)"

definition replay_live_start :: "host \<Rightarrow> RecordingAgentRunStore \<Rightarrow> RecordingLiveRunStartClaim
    \<Rightarrow> string + LiveRunStartClaimResult" where
  "replay_live_start H s existing =
     bindR (ok_or ''claimed live run is missing'' (map_of (rs_runs s) (run_id (rc_initial_run existing))))
       (\<lambda>current_run.
     bindR (ok_or ''claimed live start checkpoint is missing''
              (map_of (rs_checkpoints s) (rc_checkpoint_id existing))) (\<lambda>checkpoint.
     bindR (ok_or ''claimed live start event is missing''
              (map_of (rs_events s) (rc_event_id existing))) (\<lambda>event.
     bindR (map_err (\<lambda>_. invalid_live_start_text)
              (validate_initial_bundle H (rc_claim existing) (rc_initial_run existing) checkpoint event))
       (\<lambda>_.
     bindR (validate_progressed_claim_run (rc_initial_run existing) current_run) (\<lambda>_.
     Inr (Existing (run_id (rc_initial_run existing))))))))"

definition claim_live_run_start :: "host \<Rightarrow> RecordingAgentRunStore \<Rightarrow> LiveRunStartClaim \<Rightarrow> AgentRun
    \<Rightarrow> AgentCheckpoint \<Rightarrow> AgentRunEvent
    \<Rightarrow> string + LiveRunStartClaimResult \<times> RecordingAgentRunStore" where
  "claim_live_run_start H s claim initial_run initial_checkpoint started_event =
     bindR (map_err (\<lambda>_. invalid_live_start_text)
              (validate_initial_bundle H claim initial_run initial_checkpoint started_event)) (\<lambda>_.
     case find (same_live_start claim) (rs_live_start_claims s) of
       Some existing \<Rightarrow>
         if rc_claim existing \<noteq> claim then Inr (Conflict, s)
         else bindR (replay_live_start H s existing) (\<lambda>result. Inr (result, s))
     | None \<Rightarrow>
         if map_of (rs_runs s) (run_id initial_run) \<noteq> None
            \<or> map_of (rs_checkpoints s) (cp_id initial_checkpoint) \<noteq> None
            \<or> list_ex (\<lambda>checkpoint. cp_run_id checkpoint = run_id initial_run
                         \<and> cp_sequence checkpoint = 0) (bt_values (rs_checkpoints s))
            \<or> map_of (rs_events s) (event_id started_event) \<noteq> None
            \<or> list_ex (\<lambda>event. event_run_id event = run_id initial_run
                         \<and> event_sequence event = 0) (bt_values (rs_events s))
         then Inl ''live start initial evidence conflicts with existing rows''
         else Inr (Acquired,
           s\<lparr> rs_runs := bt_insert (run_id initial_run) initial_run (rs_runs s),
              rs_checkpoints := bt_insert (cp_id initial_checkpoint) initial_checkpoint (rs_checkpoints s),
              rs_events := bt_insert (event_id started_event) started_event (rs_events s),
              rs_live_start_claims :=
                \<lparr> rc_claim = claim, rc_initial_run = initial_run,
                  rc_checkpoint_id = cp_id initial_checkpoint, rc_event_id = event_id started_event \<rparr>
                # rs_live_start_claims s \<rparr>))"

section \<open>Contracts\<close>

definition run_store_ok :: "RecordingAgentRunStore \<Rightarrow> bool" where
  "run_store_ok s \<longleftrightarrow>
     keyed run_id (rs_runs s) \<and> keyed step_id (rs_steps s) \<and> keyed cp_id (rs_checkpoints s) \<and>
     keyed eval_id (rs_evaluations s) \<and> keyed def_id (rs_definitions s) \<and> keyed event_id (rs_events s)"

lemma save_agent_run_Inr:
  "save_agent_run H s r = Inr s' \<longleftrightarrow>
     (\<exists>m. save_versioned (stale_text (run_revision r)) (must_start_text H (run_id r))
            (rs_runs s) (run_id r) (run_revision r) r run_revision = Inr m \<and> s' = s\<lparr>rs_runs := m\<rparr>)"
  by (auto simp: save_agent_run_def bindR_eq_Inr)

lemma save_agent_run_step_Inr:
  "save_agent_run_step H s step = Inr s' \<longleftrightarrow>
     (\<forall>a old. map_of (rs_steps s) (step_id step) = Some old \<longrightarrow> step_approval_request_id old = Some a
        \<longrightarrow> step_approval_request_id step = Some a) \<and>
     (\<forall>a other. step_approval_request_id step = Some a \<longrightarrow> other \<in> set (bt_values (rs_steps s))
        \<longrightarrow> step_approval_request_id other = Some a \<longrightarrow> step_id other = step_id step) \<and>
     (\<exists>m. save_versioned (stale_text (step_revision step)) (must_start_text H (step_id step))
            (rs_steps s) (step_id step) (step_revision step) step step_revision = Inr m \<and>
          s' = s\<lparr>rs_steps := m\<rparr>)"
  by (auto simp: save_agent_run_step_def bindR_eq_Inr find_None_iff
      dest!: find_SomeD split: option.splits if_splits)

lemma save_agent_run_step_table:
  assumes "save_agent_run_step H s step = Inr s'"
  obtains m where "save_versioned (stale_text (step_revision step)) (must_start_text H (step_id step))
      (rs_steps s) (step_id step) (step_revision step) step step_revision = Inr m"
    and "s' = s\<lparr>rs_steps := m\<rparr>"
  using assms unfolding save_agent_run_step_Inr by blast

interpretation runs: versioned_store "save_agent_run H" load_agent_run run_id run_revision for H
proof
  fix s v s'
  assume "save_agent_run H s v = Inr s'"
  then obtain m where "save_versioned (stale_text (run_revision v)) (must_start_text H (run_id v))
      (rs_runs s) (run_id v) (run_revision v) v run_revision = Inr m" and s': "s' = s\<lparr>rs_runs := m\<rparr>"
    by (auto simp: save_agent_run_Inr)
  from save_versioned_Inr [OF this(1)] s'
  show "(load_agent_run s (run_id v) = Some v \<and> load_agent_run s' = load_agent_run s) \<or>
      (load_agent_run s' = (load_agent_run s)(run_id v \<mapsto> v) \<and> load_agent_run s (run_id v) \<noteq> Some v \<and>
       (case load_agent_run s (run_id v) of None \<Rightarrow> run_revision v = 0
        | Some w \<Rightarrow> unat (run_revision v) = Suc (unat (run_revision w))))"
    by (auto simp: load_agent_run_def fun_eq_iff)
qed

interpretation steps: versioned_store "save_agent_run_step H" load_agent_run_step step_id step_revision
  for H
proof
  fix s v s'
  assume "save_agent_run_step H s v = Inr s'"
  then obtain m where "save_versioned (stale_text (step_revision v)) (must_start_text H (step_id v))
      (rs_steps s) (step_id v) (step_revision v) v step_revision = Inr m" and s': "s' = s\<lparr>rs_steps := m\<rparr>"
    by (rule save_agent_run_step_table)
  from save_versioned_Inr [OF this(1)] s'
  show "(load_agent_run_step s (step_id v) = Some v \<and> load_agent_run_step s' = load_agent_run_step s) \<or>
      (load_agent_run_step s' = (load_agent_run_step s)(step_id v \<mapsto> v) \<and>
       load_agent_run_step s (step_id v) \<noteq> Some v \<and>
       (case load_agent_run_step s (step_id v) of None \<Rightarrow> step_revision v = 0
        | Some w \<Rightarrow> unat (step_revision v) = Suc (unat (step_revision w))))"
    by (auto simp: load_agent_run_step_def fun_eq_iff)
qed

interpretation evaluations: once_store "save_agent_run_evaluation H"
  "\<lambda>s. map_of (rs_evaluations s)" eval_id for H
  by unfold_locales (auto simp: save_agent_run_evaluation_def save_once_cases)

interpretation run_definitions: unique_log run_store_ok "save_agent_definition H"
  "\<lambda>s. set (bt_values (rs_definitions s))" def_id def_name for H
  by (rule unique_log_table [OF _ save_agent_definition_def]) (simp_all add: run_store_ok_def)

interpretation run_events: unique_log run_store_ok "save_agent_run_event H"
  "\<lambda>s. set (bt_values (rs_events s))" event_id event_slot for H
  by (rule unique_log_table [OF _ save_agent_run_event_def]) (simp_all add: run_store_ok_def)

interpretation run_checkpoint_log: unique_log run_store_ok "save_agent_checkpoint H"
  "\<lambda>s. set (bt_values (rs_checkpoints s))" cp_id checkpoint_slot for H
  by (rule unique_log_table [OF _ save_agent_checkpoint_def]) (simp_all add: run_store_ok_def)

section \<open>Histories of a store\<close>

text \<open>One successful mutating call, and any number of them.\<close>

inductive store_step :: "host \<Rightarrow> RecordingAgentRunStore \<Rightarrow> RecordingAgentRunStore \<Rightarrow> bool" for H where
  st_run: "save_agent_run H s r = Inr s' \<Longrightarrow> store_step H s s'"
| st_step: "save_agent_run_step H s a = Inr s' \<Longrightarrow> store_step H s s'"
| st_append: "append_agent_checkpoint H s tail c = Inr (res, s') \<Longrightarrow> store_step H s s'"
| st_checkpoint: "save_agent_checkpoint H s c = Inr s' \<Longrightarrow> store_step H s s'"
| st_evaluation: "save_agent_run_evaluation H s e = Inr s' \<Longrightarrow> store_step H s s'"
| st_definition: "save_agent_definition H s d = Inr s' \<Longrightarrow> store_step H s s'"
| st_event: "save_agent_run_event H s v = Inr s' \<Longrightarrow> store_step H s s'"
| st_claim: "claim_live_run_start H s claim r c v = Inr (out, s') \<Longrightarrow> store_step H s s'"

inductive store_steps :: "host \<Rightarrow> RecordingAgentRunStore \<Rightarrow> RecordingAgentRunStore \<Rightarrow> bool" for H where
  steps_refl: "store_steps H s s"
| steps_step: "store_steps H r s \<Longrightarrow> store_step H s t \<Longrightarrow> store_steps H r t"

text \<open>An approval request is bound to at most one step.\<close>

definition bound_once :: "RecordingAgentRunStore \<Rightarrow> bool" where
  "bound_once s \<longleftrightarrow>
     (\<forall>a \<in> set (bt_values (rs_steps s)). \<forall>b \<in> set (bt_values (rs_steps s)). \<forall>q.
        step_approval_request_id a = Some q \<longrightarrow> step_approval_request_id b = Some q
        \<longrightarrow> step_id a = step_id b)"

text \<open>What the calls do to each table.\<close>

text \<open>The conditions under which a checkpoint is really written.\<close>

definition fresh_append :: "host \<Rightarrow> RecordingAgentRunStore \<Rightarrow> AgentCheckpointTail option \<Rightarrow> AgentCheckpoint
    \<Rightarrow> bool" where
  "fresh_append H s tail c \<longleftrightarrow>
     map_option checkpoint_tail (max_by_key cp_sequence (run_checkpoints s (cp_run_id c))) = tail \<and>
     (\<forall>x \<in> set (run_checkpoints s (cp_run_id c)). cp_sequence x \<noteq> cp_sequence c) \<and>
     expected_sequence tail = Inr (cp_sequence c) \<and>
     (\<forall>x. map_of (rs_checkpoints s) (cp_id c) = Some x \<longrightarrow> x = c) \<and>
     validate_agent_checkpoint_integrity H c ''new agent checkpoint'' = Inr ()"

lemma append_agent_checkpoint_Inr:
  assumes "append_agent_checkpoint H s tail c = Inr (res, s')"
  shows "s' = s \<or>
    (res = Appended \<and> fresh_append H s tail c \<and>
     s' = s\<lparr>rs_checkpoints := bt_insert (cp_id c) c (rs_checkpoints s)\<rparr>)"
proof -
  from assms have chk: "append_checked H s tail c = Inr (res, s')"
    and rest: "expected_sequence tail = Inr (cp_sequence c)"
      "\<forall>x. map_of (rs_checkpoints s) (cp_id c) = Some x \<longrightarrow> x = c"
      "validate_agent_checkpoint_integrity H c ''new agent checkpoint'' = Inr ()"
    by (auto simp: append_agent_checkpoint_def bindR_eq_Inr split: if_splits option.splits prod.splits)
  from chk have "s' = s \<or>
    (res = Appended \<and> s' = s\<lparr>rs_checkpoints := bt_insert (cp_id c) c (rs_checkpoints s)\<rparr> \<and>
     map_option checkpoint_tail (max_by_key cp_sequence (run_checkpoints s (cp_run_id c))) = tail \<and>
     (\<forall>x \<in> set (run_checkpoints s (cp_run_id c)). cp_sequence x \<noteq> cp_sequence c))"
    by (auto simp: append_checked_def Let_def bindR_eq_Inr list_ex_iff split: if_splits)
  with rest show ?thesis unfolding fresh_append_def by blast
qed

lemma claim_live_run_start_Inr:
  assumes "claim_live_run_start H s claim r c v = Inr (out, s')"
  shows "(s' = s \<and> out \<noteq> Acquired) \<or>
    (out = Acquired \<and> find (same_live_start claim) (rs_live_start_claims s) = None \<and>
     map_of (rs_runs s) (run_id r) = None \<and> map_of (rs_checkpoints s) (cp_id c) = None \<and>
     map_of (rs_events s) (event_id v) = None \<and>
     (\<forall>x \<in> set (run_checkpoints s (run_id r)). cp_sequence x \<noteq> 0) \<and>
     validate_initial_bundle H claim r c v = Inr () \<and>
     s' = s\<lparr> rs_runs := bt_insert (run_id r) r (rs_runs s),
            rs_checkpoints := bt_insert (cp_id c) c (rs_checkpoints s),
            rs_events := bt_insert (event_id v) v (rs_events s),
            rs_live_start_claims :=
              \<lparr> rc_claim = claim, rc_initial_run = r, rc_checkpoint_id = cp_id c,
                rc_event_id = event_id v \<rparr> # rs_live_start_claims s \<rparr>)"
  using assms
  by (auto simp: claim_live_run_start_def replay_live_start_def bindR_eq_Inr list_ex_iff
      run_checkpoints_def split: option.splits if_splits)

lemma keyed_save_once: "keyed ident m \<Longrightarrow> save_once e m (ident v) v = Inr m' \<Longrightarrow> keyed ident m'"
  by (auto simp: save_once_Inr keyed_insert)

lemma keyed_save_versioned:
  "keyed ident m \<Longrightarrow> save_versioned e1 e2 m (ident v) r v revn = Inr m' \<Longrightarrow> keyed ident m'"
  by (drule save_versioned_Inr) (auto simp: keyed_insert)

lemma store_step_ok: "store_step H s s' \<Longrightarrow> run_store_ok s \<Longrightarrow> run_store_ok s'"
proof (induction rule: store_step.induct)
  case (st_append s tail c res s')
  then show ?case
    using append_agent_checkpoint_Inr [OF st_append(1)] by (auto simp: run_store_ok_def keyed_insert)
next
  case (st_claim s claim r c v out s')
  then show ?case
    using claim_live_run_start_Inr [OF st_claim(1)] by (auto simp: run_store_ok_def keyed_insert)
next
  case (st_run s r s')
  then show ?case by (auto simp: save_agent_run_Inr run_store_ok_def intro: keyed_save_versioned)
next
  case (st_step s a s')
  from st_step(1) st_step(2) show ?case
    by (elim save_agent_run_step_table) (auto simp: run_store_ok_def intro: keyed_save_versioned)
next
  case (st_evaluation s e s')
  then show ?case
    by (auto simp: save_agent_run_evaluation_def bindR_eq_Inr run_store_ok_def intro: keyed_save_once)
next
  case (st_checkpoint s c s')
  then show ?case using run_checkpoint_log.save_adds by blast
next
  case (st_definition s d s')
  then show ?case using run_definitions.save_adds by blast
next
  case (st_event s v s')
  then show ?case using run_events.save_adds by blast
qed

lemma store_steps_ok: "store_steps H r s \<Longrightarrow> run_store_ok r \<Longrightarrow> run_store_ok s"
  by (induction rule: store_steps.induct) (auto intro: store_step_ok)

lemma empty_run_store_ok [simp]: "run_store_ok empty_run_store"
  by (simp add: run_store_ok_def empty_run_store_def)

lemma store_step_steps: "store_step H s s' \<Longrightarrow> rs_steps s' = rs_steps s \<or>
    (\<exists>a. save_agent_run_step H s a = Inr s')"
proof (induction rule: store_step.induct)
  case (st_append s tail c res s')
  show ?case using append_agent_checkpoint_Inr [OF st_append] by auto
next
  case (st_claim s claim r c v out s')
  show ?case using claim_live_run_start_Inr [OF st_claim] by auto
qed (auto simp: save_agent_run_Inr save_agent_run_evaluation_def save_agent_definition_def
    save_agent_run_event_def save_agent_checkpoint_def bindR_eq_Inr)

lemma store_step_bound_once:
  assumes "store_step H s s'" and "run_store_ok s" and "bound_once s"
  shows "bound_once s'"
  using store_step_steps [OF assms(1)]
proof (elim disjE exE)
  assume "rs_steps s' = rs_steps s"
  with assms(3) show ?thesis by (simp only: bound_once_def)
next
  fix a
  assume a: "save_agent_run_step H s a = Inr s'"
  have k: "keyed step_id (rs_steps s)" using assms(2) by (simp add: run_store_ok_def)
  from a obtain m where m: "save_versioned (stale_text (step_revision a)) (must_start_text H (step_id a))
      (rs_steps s) (step_id a) (step_revision a) a step_revision = Inr m" and s': "s' = s\<lparr>rs_steps := m\<rparr>"
    by (rule save_agent_run_step_table)
  from a have free: "\<forall>q other. step_approval_request_id a = Some q \<longrightarrow> other \<in> set (bt_values (rs_steps s))
      \<longrightarrow> step_approval_request_id other = Some q \<longrightarrow> step_id other = step_id a"
    unfolding save_agent_run_step_Inr by blast
  from save_versioned_Inr [OF m] have "m = rs_steps s \<or> m = bt_insert (step_id a) a (rs_steps s)" by blast
  then have sub: "set (bt_values m) \<subseteq> insert a (set (bt_values (rs_steps s)))"
    using keyed_replace_values [OF k, of a] by auto
  show ?thesis
    unfolding bound_once_def
  proof (intro ballI allI impI)
    fix x y q
    assume "x \<in> set (bt_values (rs_steps s'))" and "y \<in> set (bt_values (rs_steps s'))"
      and q: "step_approval_request_id x = Some q" "step_approval_request_id y = Some q"
    with sub s' have "x = a \<or> x \<in> set (bt_values (rs_steps s))" "y = a \<or> y \<in> set (bt_values (rs_steps s))"
      by auto
    with free assms(3) q show "step_id x = step_id y" unfolding bound_once_def by metis
  qed
qed

lemma store_steps_bound_once:
  "store_steps H r s \<Longrightarrow> run_store_ok r \<Longrightarrow> bound_once r \<Longrightarrow> bound_once s"
  by (induction rule: store_steps.induct) (auto intro: store_step_bound_once store_steps_ok)

lemma find_by_approval_unique:
  assumes "run_store_ok s" and "bound_once s"
  shows "find_agent_run_step_by_approval H s q = Inr found \<longleftrightarrow>
    (\<forall>a. found = Some a \<longleftrightarrow> a \<in> set (bt_values (rs_steps s)) \<and> step_approval_request_id a = Some q)"
proof -
  define hits where "hits = filter (\<lambda>a. step_approval_request_id a = Some q) (bt_values (rs_steps s))"
  have "distinct (map step_id (bt_values (rs_steps s)))"
    using assms(1) unfolding run_store_ok_def by (intro keyed_distinct) simp
  then have d: "distinct (map step_id hits)" unfolding hits_def by (rule distinct_map_filter)
  have same: "step_id a = step_id b" if "a \<in> set hits" "b \<in> set hits" for a b
    using assms(2) that unfolding bound_once_def hits_def set_filter mem_Collect_eq by blast
  have mem: "a \<in> set (bt_values (rs_steps s)) \<and> step_approval_request_id a = Some q \<longleftrightarrow> a \<in> set hits" for a
    unfolding hits_def set_filter mem_Collect_eq by blast
  have look: "find_agent_run_step_by_approval H s q =
      (case hits of [] \<Rightarrow> Inr None | [x] \<Rightarrow> Inr (Some x)
       | _ \<Rightarrow> Inl (''approval request '' @ host_uuid_text H q @ '' is bound to multiple agent run steps''))"
    unfolding find_agent_run_step_by_approval_def hits_def ..
  consider "hits = []" | x where "hits = [x]" | x y zs where "hits = x # y # zs"
    by (metis list.exhaust)
  then show ?thesis
  proof cases
    case 1
    show ?thesis unfolding mem look 1 by (cases found) auto
  next
    case (2 x)
    show ?thesis unfolding mem look 2 by (cases found) auto
  next
    case (3 x y zs)
    have "step_id x = step_id y" by (rule same) (simp_all add: 3)
    moreover have "step_id x \<noteq> step_id y" using d unfolding 3 by simp
    ultimately show ?thesis by contradiction
  qed
qed

section \<open>Checkpoint sequences\<close>

definition cp_integrity :: "host \<Rightarrow> AgentCheckpoint \<Rightarrow> bool" where
  "cp_integrity H c \<longleftrightarrow>
     (\<exists>text. canonicalize H (cp_state c) = Inr text \<and> cp_state_digest c = digest H KAgentCheckpoint text)"

text \<open>The checkpoints of a run are numbered from 0 without gaps, and their digests are right.\<close>

definition contiguous :: "host \<Rightarrow> RecordingAgentRunStore \<Rightarrow> bool" where
  "contiguous H s \<longleftrightarrow>
     (\<forall>rid. inj_on cp_sequence (set (run_checkpoints s rid)) \<and>
        (\<exists>n. (\<lambda>c. unat (cp_sequence c)) ` set (run_checkpoints s rid) = {..<n})) \<and>
     (\<forall>c \<in> set (bt_values (rs_checkpoints s)). cp_integrity H c)"

lemma integrity_ok: "validate_agent_checkpoint_integrity H c msg = Inr () \<longleftrightarrow> cp_integrity H c"
  by (auto simp: validate_agent_checkpoint_integrity_def cp_integrity_def bindR_eq_Inr)

text \<open>Adding the next number to a gap-free sequence.\<close>

lemma contiguous_add:
  assumes "keyed cp_id (rs_checkpoints s)" and "contiguous H s" and "cp_integrity H c"
    and new: "map_of (rs_checkpoints s) (cp_id c) = None"
    and next_number: "unat (cp_sequence c) = card (set (run_checkpoints s (cp_run_id c)))"
  shows "contiguous H (s\<lparr>rs_checkpoints := bt_insert (cp_id c) c (rs_checkpoints s)\<rparr>)"
proof -
  let ?s = "s\<lparr>rs_checkpoints := bt_insert (cp_id c) c (rs_checkpoints s)\<rparr>"
  let ?u = "\<lambda>c. unat (cp_sequence c)"
  have vals: "set (bt_values (rs_checkpoints ?s)) = insert c (set (bt_values (rs_checkpoints s)))"
    using keyed_insert_values [OF assms(1) new] by simp
  then have runs: "set (run_checkpoints ?s rid) =
      (if rid = cp_run_id c then insert c (set (run_checkpoints s rid)) else set (run_checkpoints s rid))" for rid
    unfolding run_checkpoints_def by auto
  from assms(2) obtain n where inj: "inj_on cp_sequence (set (run_checkpoints s (cp_run_id c)))"
    and n: "?u ` set (run_checkpoints s (cp_run_id c)) = {..<n}"
    unfolding contiguous_def by blast
  have "inj_on ?u (set (run_checkpoints s (cp_run_id c)))"
    using inj by (auto simp: inj_on_def unsigned_word_eqI)
  from card_image [OF this] n have "?u c = n" using next_number by simp
  then have "?u ` set (run_checkpoints ?s (cp_run_id c)) = {..<Suc n}"
    using n runs by (simp add: lessThan_Suc)
  moreover have "?u c \<notin> ?u ` set (run_checkpoints s (cp_run_id c))" using n \<open>?u c = n\<close> by simp
  then have "inj_on cp_sequence (set (run_checkpoints ?s (cp_run_id c)))"
    using inj runs by (auto simp: inj_on_insert)
  ultimately have "inj_on cp_sequence (set (run_checkpoints ?s rid)) \<and>
      (\<exists>k. ?u ` set (run_checkpoints ?s rid) = {..<k})" for rid
    using assms(2) runs [of rid] unfolding contiguous_def by (cases "rid = cp_run_id c") auto
  with vals assms(2,3) show ?thesis unfolding contiguous_def by auto
qed

lemma contiguous_tail_number:
  assumes "contiguous H s"
    and "max_by_key cp_sequence (run_checkpoints s rid) = Some m"
  shows "card (set (run_checkpoints s rid)) = Suc (unat (cp_sequence m))"
proof -
  let ?u = "\<lambda>c. unat (cp_sequence c)" and ?C = "set (run_checkpoints s rid)"
  from assms(1) obtain n where inj: "inj_on cp_sequence ?C" and n: "?u ` ?C = {..<n}"
    unfolding contiguous_def by blast
  from max_by_key_Some [OF assms(2)] have m: "m \<in> ?C" "\<forall>x \<in> ?C. ?u x \<le> ?u m"
    by (auto simp: word_le_nat_alt)
  have "?u m \<in> {..<n}" using m(1) n by blast
  moreover have "n - 1 \<le> ?u m"
  proof -
    have "n - 1 \<in> ?u ` ?C" using n calculation by auto
    then show ?thesis using m(2) by auto
  qed
  ultimately have "n = Suc (?u m)" by auto
  moreover have "inj_on ?u ?C" using inj by (auto simp: inj_on_def unsigned_word_eqI)
  ultimately show ?thesis using card_image [of ?u ?C] n by simp
qed

text \<open>
  Histories in which checkpoints are written by \<open>append_agent_checkpoint\<close> and
  \<open>claim_live_run_start\<close> only; every other call is allowed too.
\<close>

inductive append_history :: "host \<Rightarrow> RecordingAgentRunStore \<Rightarrow> RecordingAgentRunStore \<Rightarrow> bool" for H where
  ah_refl: "append_history H s s"
| ah_append: "append_history H r s \<Longrightarrow> append_agent_checkpoint H s tail c = Inr (res, t)
    \<Longrightarrow> append_history H r t"
| ah_claim: "append_history H r s \<Longrightarrow> claim_live_run_start H s claim a c v = Inr (out, t)
    \<Longrightarrow> append_history H r t"
| ah_other: "append_history H r s \<Longrightarrow> store_step H s t \<Longrightarrow> rs_checkpoints t = rs_checkpoints s
    \<Longrightarrow> append_history H r t"

lemma append_history_ok: "append_history H r s \<Longrightarrow> run_store_ok r \<Longrightarrow> run_store_ok s"
  by (induction rule: append_history.induct) (auto intro: store_step_ok store_step.intros)

lemma contiguous_cong:
  "rs_checkpoints t = rs_checkpoints s \<Longrightarrow> contiguous H t \<longleftrightarrow> contiguous H s"
  unfolding contiguous_def run_checkpoints_def by simp

lemma fresh_append_new:
  assumes "fresh_append H s tail c" and "keyed cp_id (rs_checkpoints s)"
  shows "map_of (rs_checkpoints s) (cp_id c) = None"
proof (rule ccontr)
  assume "map_of (rs_checkpoints s) (cp_id c) \<noteq> None"
  with assms(1) have "map_of (rs_checkpoints s) (cp_id c) = Some c" by (auto simp: fresh_append_def)
  with keyed_get [OF assms(2), of "cp_id c" c] have "c \<in> set (run_checkpoints s (cp_run_id c))"
    by (simp add: run_checkpoints_def)
  with assms(1) show False unfolding fresh_append_def by blast
qed

lemma fresh_append_number:
  assumes "fresh_append H s tail c" and "contiguous H s"
  shows "unat (cp_sequence c) = card (set (run_checkpoints s (cp_run_id c)))"
proof (cases "max_by_key cp_sequence (run_checkpoints s (cp_run_id c))")
  case None
  with assms(1) show ?thesis by (auto simp: fresh_append_def expected_sequence_def)
next
  case (Some m)
  with assms(1) have "checked_add (cp_sequence m) 1 = Some (cp_sequence c)"
    by (auto simp: fresh_append_def expected_sequence_def checkpoint_tail_def)
  from unat_checked_add [OF this] contiguous_tail_number [OF assms(2) Some] show ?thesis by simp
qed

lemma append_contiguous:
  assumes "append_agent_checkpoint H s tail c = Inr (res, t)" and "run_store_ok s" and "contiguous H s"
  shows "contiguous H t"
  using append_agent_checkpoint_Inr [OF assms(1)]
proof (elim disjE conjE)
  assume f: "fresh_append H s tail c"
    and t: "t = s\<lparr>rs_checkpoints := bt_insert (cp_id c) c (rs_checkpoints s)\<rparr>"
  have k: "keyed cp_id (rs_checkpoints s)" using assms(2) by (simp add: run_store_ok_def)
  have "cp_integrity H c" using f by (simp add: fresh_append_def integrity_ok)
  from contiguous_add [OF k assms(3) this fresh_append_new [OF f k] fresh_append_number [OF f assms(3)]]
  show ?thesis using t by simp
qed (use assms(3) in simp)

lemma initial_bundle_checkpoint:
  assumes "validate_initial_bundle H claim r c v = Inr ()"
  shows "cp_integrity H c \<and> cp_sequence c = 0 \<and> cp_run_id c = run_id r"
  using assms
  by (auto simp: validate_initial_bundle_def bindR_eq_Inr cp_integrity_def initial_rows_ok_def
      split: if_splits)

lemma claim_contiguous:
  assumes "claim_live_run_start H s claim r c v = Inr (out, t)" and "run_store_ok s" and "contiguous H s"
  shows "contiguous H t"
  using claim_live_run_start_Inr [OF assms(1)]
proof (elim disjE conjE)
  assume new: "map_of (rs_checkpoints s) (cp_id c) = None"
    and fresh: "\<forall>x \<in> set (run_checkpoints s (run_id r)). cp_sequence x \<noteq> 0"
    and rows: "validate_initial_bundle H claim r c v = Inr ()"
    and t: "t = s\<lparr> rs_runs := bt_insert (run_id r) r (rs_runs s),
            rs_checkpoints := bt_insert (cp_id c) c (rs_checkpoints s),
            rs_events := bt_insert (event_id v) v (rs_events s),
            rs_live_start_claims :=
              \<lparr> rc_claim = claim, rc_initial_run = r, rc_checkpoint_id = cp_id c,
                rc_event_id = event_id v \<rparr> # rs_live_start_claims s \<rparr>"
  note c = initial_bundle_checkpoint [OF rows]
  have k: "keyed cp_id (rs_checkpoints s)" using assms(2) by (simp add: run_store_ok_def)
  from assms(3) obtain n where "(\<lambda>c. unat (cp_sequence c)) ` set (run_checkpoints s (run_id r)) = {..<n}"
    unfolding contiguous_def by blast
  moreover have "0 \<notin> (\<lambda>c. unat (cp_sequence c)) ` set (run_checkpoints s (run_id r))"
    using fresh by (auto simp: unat_eq_0)
  ultimately have "set (run_checkpoints s (run_id r)) = {}" by auto
  then have "contiguous H (s\<lparr>rs_checkpoints := bt_insert (cp_id c) c (rs_checkpoints s)\<rparr>)"
    using c by (intro contiguous_add [OF k assms(3) _ new]) simp_all
  moreover have "rs_checkpoints t = rs_checkpoints (s\<lparr>rs_checkpoints := bt_insert (cp_id c) c (rs_checkpoints s)\<rparr>)"
    using t by simp
  ultimately show ?thesis using contiguous_cong by blast
qed (use assms(3) in simp)

lemma append_history_contiguous:
  "append_history H r s \<Longrightarrow> run_store_ok r \<Longrightarrow> contiguous H r \<Longrightarrow> contiguous H s"
proof (induction rule: append_history.induct)
  case (ah_other r s t)
  then show ?case using contiguous_cong by blast
qed (blast intro: append_contiguous claim_contiguous append_history_ok)+

section \<open>Live starts\<close>

definition claims_unique :: "RecordingAgentRunStore \<Rightarrow> bool" where
  "claims_unique s \<longleftrightarrow>
     (\<forall>x \<in> set (rs_live_start_claims s). \<forall>y \<in> set (rs_live_start_claims s).
        same_live_start (rc_claim x) y \<longrightarrow> x = y)"

lemma store_step_claims:
  "store_step H s t \<Longrightarrow> rs_live_start_claims t = rs_live_start_claims s \<or>
     (\<exists>claim r c v. claim_live_run_start H s claim r c v = Inr (Acquired, t))"
proof (induction rule: store_step.induct)
  case (st_append s tail c res s')
  show ?case using append_agent_checkpoint_Inr [OF st_append] by auto
next
  case (st_claim s claim r c v out s')
  show ?case using claim_live_run_start_Inr [OF st_claim] st_claim by auto
next
  case (st_step s a s')
  then show ?case by (elim save_agent_run_step_table) simp
qed (auto simp: save_agent_run_Inr save_agent_run_evaluation_def save_agent_definition_def
    save_agent_run_event_def save_agent_checkpoint_def bindR_eq_Inr)

lemma same_live_start_sym: "same_live_start (rc_claim x) y \<longleftrightarrow> same_live_start (rc_claim y) x"
  by (auto simp: same_live_start_def)

lemma acquired_claims:
  assumes "claim_live_run_start H s claim r c v = Inr (Acquired, t)"
  obtains x where "rs_live_start_claims t = x # rs_live_start_claims s" and "rc_claim x = claim"
    and "rc_initial_run x = r" and "\<forall>y \<in> set (rs_live_start_claims s). \<not> same_live_start claim y"
  using claim_live_run_start_Inr [OF assms] by (auto simp: find_None_iff)

lemma store_step_claims_unique:
  assumes "store_step H s t" and "claims_unique s"
  shows "claims_unique t \<and> set (rs_live_start_claims s) \<subseteq> set (rs_live_start_claims t)"
  using store_step_claims [OF assms(1)]
proof (elim disjE exE)
  fix claim r c v
  assume "claim_live_run_start H s claim r c v = Inr (Acquired, t)"
  then obtain x where x: "rs_live_start_claims t = x # rs_live_start_claims s" "rc_claim x = claim"
    "\<forall>y \<in> set (rs_live_start_claims s). \<not> same_live_start claim y"
    by (rule acquired_claims)
  with assms(2) show ?thesis
    unfolding claims_unique_def using same_live_start_sym by auto
qed (use assms(2) in \<open>simp add: claims_unique_def\<close>)

lemma store_steps_claims:
  "store_steps H s t \<Longrightarrow> claims_unique s \<Longrightarrow>
     claims_unique t \<and> set (rs_live_start_claims s) \<subseteq> set (rs_live_start_claims t)"
  by (induction rule: store_steps.induct) (use store_step_claims_unique in blast)+

lemma find_the_claim:
  assumes "claims_unique s" and "x \<in> set (rs_live_start_claims s)" and "same_live_start claim x"
    and "find (same_live_start claim) (rs_live_start_claims s) = Some y"
  shows "if claim = rc_claim x then y = x else rc_claim y \<noteq> claim"
proof -
  from find_SomeD [OF assms(4)] have y: "y \<in> set (rs_live_start_claims s)" "same_live_start claim y" by auto
  have "y = x" if "rc_claim y = claim \<or> rc_claim x = claim"
  proof -
    from that assms(3) y(2) have "same_live_start (rc_claim y) x \<or> same_live_start (rc_claim x) y" by auto
    with assms(1,2) y(1) show ?thesis unfolding claims_unique_def by blast
  qed
  then show ?thesis by auto
qed

section \<open>Retried appends\<close>

lemma append_checked_tail:
  assumes "max_by_key cp_sequence (run_checkpoints s (cp_run_id c)) = Some c" and "cp_integrity H c"
    and "Option.bind (checked_sub (cp_sequence c) 1) (\<lambda>sequence.
            find (\<lambda>e. cp_sequence e = sequence) (run_checkpoints s (cp_run_id c))) = p"
    and "\<forall>q. p = Some q \<longrightarrow> cp_integrity H q" and "map_option checkpoint_tail p = tail"
  shows "append_checked H s tail c = Inr (Appended, s)"
proof -
  have "validate_agent_checkpoint_integrity H c msg = Inr ()" for msg
    using assms(2) by (simp add: integrity_ok)
  moreover have "(case p of None \<Rightarrow> Inr ()
      | Some q \<Rightarrow> validate_agent_checkpoint_integrity H q msg) = Inr ()" for msg
    using assms(4) by (simp add: integrity_ok split: option.splits)
  ultimately show ?thesis
    using assms(1,3,5) by (simp add: append_checked_def Let_def)
qed

lemma fresh_append_set:
  assumes "fresh_append H s tail c" and "keyed cp_id (rs_checkpoints s)"
    and "t = s\<lparr>rs_checkpoints := bt_insert (cp_id c) c (rs_checkpoints s)\<rparr>"
  shows "set (run_checkpoints t (cp_run_id c)) = insert c (set (run_checkpoints s (cp_run_id c)))"
  using keyed_insert_values [OF assms(2) fresh_append_new [OF assms(1,2)]] assms(3)
  unfolding run_checkpoints_def by auto

text \<open>After the write the candidate is the tail, and what was the tail precedes it.\<close>

lemma fresh_append_top:
  assumes "fresh_append H s tail c" and "contiguous H s" and "contiguous H t"
    and D: "set (run_checkpoints t (cp_run_id c)) = insert c (set (run_checkpoints s (cp_run_id c)))"
  shows "max_by_key cp_sequence (run_checkpoints t (cp_run_id c)) = Some c"
proof (cases "max_by_key cp_sequence (run_checkpoints t (cp_run_id c))")
  case None
  with D show ?thesis by simp
next
  case (Some m)
  have "c \<notin> set (run_checkpoints s (cp_run_id c))" using assms(1) unfolding fresh_append_def by blast
  then have "unat (cp_sequence m) = unat (cp_sequence c)"
    using contiguous_tail_number [OF assms(3) Some] fresh_append_number [OF assms(1,2)] D by simp
  then have "cp_sequence m = cp_sequence c" by (rule unsigned_word_eqI)
  moreover have "m \<in> set (run_checkpoints t (cp_run_id c))" using max_by_key_Some [OF Some] by blast
  moreover have "inj_on cp_sequence (set (run_checkpoints t (cp_run_id c)))"
    using assms(3) unfolding contiguous_def by blast
  ultimately have "m = c" using D by (metis inj_onD insertI1)
  with Some show ?thesis by simp
qed

lemma fresh_append_predecessor:
  assumes "fresh_append H s tail c" and "contiguous H t"
    and D: "set (run_checkpoints t (cp_run_id c)) = insert c (set (run_checkpoints s (cp_run_id c)))"
  shows "Option.bind (checked_sub (cp_sequence c) 1) (\<lambda>sequence.
      find (\<lambda>e. cp_sequence e = sequence) (run_checkpoints t (cp_run_id c)))
    = max_by_key cp_sequence (run_checkpoints s (cp_run_id c))"
proof (cases "max_by_key cp_sequence (run_checkpoints s (cp_run_id c))")
  case None
  with assms(1) have "cp_sequence c = 0" by (auto simp: fresh_append_def expected_sequence_def)
  with None show ?thesis by (simp add: checked_sub_def)
next
  case (Some m)
  with assms(1) have add: "checked_add (cp_sequence m) 1 = Some (cp_sequence c)"
    by (auto simp: fresh_append_def expected_sequence_def checkpoint_tail_def)
  then have "cp_sequence c = cp_sequence m + 1" by (simp add: checked_add_Some_iff)
  moreover have "1 \<le> cp_sequence c" using unat_checked_add [OF add] by (simp add: word_le_nat_alt)
  ultimately have sub: "checked_sub (cp_sequence c) 1 = Some (cp_sequence m)" by (simp add: checked_sub_def)
  have m: "m \<in> set (run_checkpoints t (cp_run_id c))" using max_by_key_Some [OF Some] D by blast
  have inj: "inj_on cp_sequence (set (run_checkpoints t (cp_run_id c)))"
    using assms(2) unfolding contiguous_def by blast
  have "find (\<lambda>e. cp_sequence e = cp_sequence m) (run_checkpoints t (cp_run_id c)) = Some m"
  proof (cases "find (\<lambda>e. cp_sequence e = cp_sequence m) (run_checkpoints t (cp_run_id c))")
    case None
    with m show ?thesis by (auto simp: find_None_iff)
  next
    case (Some q)
    from find_SomeD [OF Some] m inj have "q = m" by (meson inj_onD)
    with Some show ?thesis by simp
  qed
  with sub Some show ?thesis by simp
qed

lemma append_retry:
  assumes "run_store_ok s" and "contiguous H s"
    and app: "append_agent_checkpoint H s tail c = Inr (Appended, t)"
  shows "append_agent_checkpoint H t tail c = Inr (Appended, t)"
  using append_agent_checkpoint_Inr [OF app]
proof (elim disjE conjE)
  assume "t = s"
  with app show ?thesis by simp
next
  assume f: "fresh_append H s tail c"
    and t: "t = s\<lparr>rs_checkpoints := bt_insert (cp_id c) c (rs_checkpoints s)\<rparr>"
  let ?m = "max_by_key cp_sequence (run_checkpoints s (cp_run_id c))"
  have k: "keyed cp_id (rs_checkpoints s)" using assms(1) by (simp add: run_store_ok_def)
  have cont: "contiguous H t" by (rule append_contiguous [OF app assms(1,2)])
  note D = fresh_append_set [OF f k t]
  have m: "cp_run_id q = cp_run_id c \<and> q \<in> set (bt_values (rs_checkpoints s))" if "?m = Some q" for q
    using max_by_key_Some [OF that] by (simp add: run_checkpoints_def)
  have "append_checked H t tail c = Inr (Appended, t)"
  proof (rule append_checked_tail [OF fresh_append_top [OF f assms(2) cont D] _
        fresh_append_predecessor [OF f cont D]])
    show "cp_integrity H c" using f by (simp add: fresh_append_def integrity_ok)
    show "\<forall>q. ?m = Some q \<longrightarrow> cp_integrity H q" using m assms(2) unfolding contiguous_def by blast
    show "map_option checkpoint_tail ?m = tail" using f by (simp add: fresh_append_def)
  qed
  moreover have "cp_run_id q = cp_run_id c"
    if tl: "tail = Some u" "map_of (rs_checkpoints t) (tail_checkpoint_id u) = Some q" for u q
  proof -
    from f tl(1) obtain x where x: "?m = Some x" "u = checkpoint_tail x" by (auto simp: fresh_append_def)
    have "map_of (rs_checkpoints s) (cp_id x) = Some x" using keyed_get [OF k] m [OF x(1)] by blast
    with fresh_append_new [OF f k] have "map_of (rs_checkpoints t) (cp_id x) = Some x" using t by auto
    with tl(2) x m show ?thesis by (simp add: checkpoint_tail_def)
  qed
  moreover have "map_of (rs_checkpoints t) (cp_id c) = Some c" using t by simp
  moreover have "expected_sequence tail = Inr (cp_sequence c)"
    and "validate_agent_checkpoint_integrity H c ''new agent checkpoint'' = Inr ()"
    using f by (simp_all add: fresh_append_def)
  ultimately show ?thesis
    by (auto simp: append_agent_checkpoint_def bind_eq_Some_conv split: option.splits)
qed

section \<open>Properties\<close>

subsection \<open>A concrete live start\<close>

definition sample_live_claim :: "u8 \<Rightarrow> u8 \<Rightarrow> LiveRunStartClaim" where
  "sample_live_claim a b =
     \<lparr> claim_schema = LIVE_RUN_START_CLAIM_SCHEMA,
       claim_readiness_binding_digest = ContentDigest (replicate 32 a),
       claim_setup_digest = ContentDigest (replicate 32 b) \<rparr>"

definition sample_live_run :: "nat \<Rightarrow> AgentRun" where
  "sample_live_run k =
     \<lparr> run_id = sample_v7 k, run_actor = 7, run_agent_id = Some (sample_v7 99), run_mode = Session,
       run_goal = ''goal'', run_status = RunRunning, run_retry_count = 0, run_revision = 1,
       run_created_at = 0, run_updated_at = 0, run_completed_at = None \<rparr>"

definition sample_runtime :: "nat \<Rightarrow> (string \<times> json) list" where
  "sample_runtime k =
     [(''agent_id'', json_uuid sample_host (sample_v7 99)),
      (''process_epoch_id'', json_uuid sample_host (sample_v7 98)),
      (''run_id'', json_uuid sample_host (sample_v7 k)),
      (''schema'', JString ''proof-agent-runtime-state/v2''),
      (''started_at'', json_utc sample_host 0)]"

definition sample_live_state :: "nat \<Rightarrow> json" where
  "sample_live_state k =
     JObject [(''kind'', JString ''agent_runtime_v2''), (''runtime'', JObject (sample_runtime k))]"

definition sample_live_checkpoint :: "nat \<Rightarrow> nat \<Rightarrow> AgentCheckpoint" where
  "sample_live_checkpoint k i =
     \<lparr> cp_id = sample_v7 i, cp_run_id = sample_v7 k, cp_sequence = 0, cp_state = sample_live_state k,
       cp_state_digest = digest sample_host KAgentCheckpoint (render sample_host (sample_live_state k)),
       cp_created_at = 0 \<rparr>"

definition sample_live_event :: "nat \<Rightarrow> nat \<Rightarrow> AgentRunEvent" where
  "sample_live_event k i =
     \<lparr> event_id = sample_v7 i, event_run_id = sample_v7 k, event_sequence = 0, event_kind = EvStarted,
       event_data = expected_started_data (sample_runtime k),
       event_data_digest = digest sample_host KAgentEvent
         (render sample_host (expected_started_data (sample_runtime k))),
       event_created_at = 0 \<rparr>"

lemma sample_runtime_get [simp]:
  "map_of (sample_runtime k) ''agent_id'' = Some (json_uuid sample_host (sample_v7 99))"
  "map_of (sample_runtime k) ''process_epoch_id'' = Some (json_uuid sample_host (sample_v7 98))"
  "map_of (sample_runtime k) ''run_id'' = Some (json_uuid sample_host (sample_v7 k))"
  "map_of (sample_runtime k) ''schema'' = Some (JString ''proof-agent-runtime-state/v2'')"
  "map_of (sample_runtime k) ''started_at'' = Some (json_utc sample_host 0)"
  by (simp_all add: sample_runtime_def)

lemma sample_json_back [simp]:
  "json_to_uuid sample_host (json_uuid sample_host u) = Some u"
  "json_to_utc sample_host (json_utc sample_host t) = Some t"
  by (simp_all add: json_to_uuid_def json_to_utc_def json_uuid_def json_utc_def json_as_str_def)

lemma sample_live_exact:
  "wf_json (sample_live_state k)" "float_free (sample_live_state k)"
  "wf_json (expected_started_data (sample_runtime k))"
  "float_free (expected_started_data (sample_runtime k))"
proof -
  show "wf_json (sample_live_state k)" "float_free (sample_live_state k)"
    by (simp_all add: sample_live_state_def sample_runtime_def bt_ok_def)
  have "wf_json (member_or_null (sample_runtime k) x)" "float_free (member_or_null (sample_runtime k) x)" for x
    by (simp_all add: member_or_null_def sample_runtime_def)
  then show "wf_json (expected_started_data (sample_runtime k))"
    "float_free (expected_started_data (sample_runtime k))"
    unfolding expected_started_data_def by (auto intro!: wf_jobject float_free_jobject)
qed

lemma sample_bundle_ok:
  assumes "k < 90" and "i < 90" and "j < 90" and "a \<noteq> 0" and "b \<noteq> 0"
  shows "validate_initial_bundle sample_host (sample_live_claim a b) (sample_live_run k)
    (sample_live_checkpoint k i) (sample_live_event k j) = Inr ()"
proof -
  have "initial_rows_ok sample_host (sample_live_claim a b) (sample_live_run k)
      (sample_live_checkpoint k i) (sample_live_event k j)"
    using assms by (simp add: initial_rows_ok_def sample_live_claim_def sample_live_run_def
        sample_live_checkpoint_def sample_live_event_def zero_digest_def sample_v7_is_v7)
  moreover have "canonicalize sample_host (sample_live_state k)
      = Inr (render sample_host (sample_live_state k))"
    "canonicalize sample_host (expected_started_data (sample_runtime k))
      = Inr (render sample_host (expected_started_data (sample_runtime k)))"
    by (simp_all only: canonicalize_exact_ok sample_live_exact)
  moreover have "json_as_object (sample_live_state k) =
      Some [(''kind'', JString ''agent_runtime_v2''), (''runtime'', JObject (sample_runtime k))]"
    by (simp add: json_as_object_def sample_live_state_def)
  ultimately show ?thesis
    by (simp add: validate_initial_bundle_def sample_live_checkpoint_def sample_live_event_def
        sample_live_run_def json_as_object_def json_as_str_def sample_v7_is_v7)
qed

definition sample_run_store :: RecordingAgentRunStore where
  "sample_run_store = empty_run_store\<lparr>rs_runs := [(1, sample_run)]\<rparr>"

definition sample_bound_step :: AgentRunStep where
  "sample_bound_step = sample_step\<lparr>step_approval_request_id := Some 4\<rparr>"

definition sample_checkpoint :: AgentCheckpoint where
  "sample_checkpoint =
     \<lparr> cp_id = 5, cp_run_id = 1, cp_sequence = 0, cp_state = JNull,
       cp_state_digest = digest sample_host KAgentCheckpoint ''null'', cp_created_at = 0 \<rparr>"

definition sample_checkpoint_store :: RecordingAgentRunStore where
  "sample_checkpoint_store = empty_run_store\<lparr>rs_checkpoints := [(5, sample_checkpoint)]\<rparr>"

lemma sample_append:
  "append_agent_checkpoint sample_host empty_run_store None sample_checkpoint
     = Inr (Appended, sample_checkpoint_store)"
  by (simp add: append_agent_checkpoint_def append_checked_def expected_sequence_def
      validate_agent_checkpoint_integrity_def canonicalize_def sample_checkpoint_def
      sample_checkpoint_store_def empty_run_store_def run_checkpoints_def)

lemma sample_step_saved:
  "save_agent_run_step sample_host empty_run_store sample_bound_step
     = Inr (empty_run_store\<lparr>rs_steps := [(2, sample_bound_step)]\<rparr>)"
  by (simp add: save_agent_run_step_def save_versioned_def empty_run_store_def sample_bound_step_def
      sample_step_def)

lemma sample_claim_acquired:
  "\<exists>s. claim_live_run_start sample_host empty_run_store (sample_live_claim 1 2) (sample_live_run 1)
     (sample_live_checkpoint 1 2) (sample_live_event 1 3) = Inr (Acquired, s)"
  by (simp add: claim_live_run_start_def sample_bundle_ok empty_run_store_def)

subsection \<open>Claims\<close>



text \<open>
  Every transition of a stored run can be saved: the store accepts the successor that an
  operation of the run produces, as long as the revision counter is not exhausted.
\<close>

theorem run_transition_savable:
  assumes "load_agent_run s (run_id r) = Some r" and "run_op op r now = Inr r'"
    and "unat (run_revision r) + 1 < 2 ^ 64"
  shows "\<exists>s'. save_agent_run H s r' = Inr s' \<and> load_agent_run s' (run_id r) = Some r'"
proof -
  have id: "run_id r' = run_id r" and rev: "run_revision r' = run_revision r + 1"
    using run_op_facts(2,3) [OF assms(2)] by (simp_all add: run_identity_def)
  have "checked_add (run_revision r) 1 = Some (run_revision r')"
    using rev assms(3) by (simp add: checked_add_def)
  moreover have "r \<noteq> r'" using rev by auto
  ultimately have "save_agent_run H s r' = Inr (s\<lparr>rs_runs := bt_insert (run_id r) r' (rs_runs s)\<rparr>)"
    using assms(1) id by (simp add: save_agent_run_def save_versioned_def load_agent_run_def)
  then show ?thesis by (simp add: load_agent_run_def)
qed

theorem run_transition_savable_witness:
  "\<exists>r s. run_op OpStart sample_run 5 = Inr r \<and> save_agent_run sample_host sample_run_store r = Inr s"
proof -
  obtain r where r: "run_op OpStart sample_run 5 = Inr r"
    by (simp add: run_start_def run_transition_def sample_run_def)
  moreover have "load_agent_run sample_run_store (run_id sample_run) = Some sample_run"
    and "unat (run_revision sample_run) + 1 < 2 ^ 64"
    by (simp_all add: load_agent_run_def sample_run_store_def sample_run_def)
  ultimately show ?thesis
    using run_transition_savable [of sample_run_store sample_run OpStart 5 r sample_host] by blast
qed

text \<open>
  In every state of the store, looking a step up by its approval request is unambiguous:
  it never fails, and it finds a step exactly when one is bound to that request.
\<close>

theorem approval_lookup_unambiguous:
  assumes "store_steps H empty_run_store s"
  shows "find_agent_run_step_by_approval H s q = Inr found \<longleftrightarrow>
    (\<forall>a. found = Some a \<longleftrightarrow> a \<in> set (bt_values (rs_steps s)) \<and> step_approval_request_id a = Some q)"
proof -
  have "bound_once empty_run_store" by (simp add: bound_once_def empty_run_store_def)
  with find_by_approval_unique store_steps_ok [OF assms] store_steps_bound_once [OF assms]
  show ?thesis by simp
qed

theorem approval_lookup_unambiguous_witness:
  "find_agent_run_step_by_approval sample_host (empty_run_store\<lparr>rs_steps := [(2, sample_bound_step)]\<rparr>) 4
     = Inr (Some sample_bound_step)"
proof -
  have "store_steps sample_host empty_run_store (empty_run_store\<lparr>rs_steps := [(2, sample_bound_step)]\<rparr>)"
    by (rule steps_step [OF steps_refl st_step [OF sample_step_saved]])
  from approval_lookup_unambiguous [OF this, of 4 "Some sample_bound_step"] show ?thesis
    by (auto simp: sample_bound_step_def)
qed



text \<open>
  A retried append is idempotent: after a checkpoint was appended, the same call reports
  it as appended again and writes nothing.
\<close>

theorem append_retry_idempotent:
  assumes "append_history H empty_run_store s"
    and "append_agent_checkpoint H s tail c = Inr (Appended, t)"
  shows "append_agent_checkpoint H t tail c = Inr (Appended, t)"
proof -
  have "contiguous H empty_run_store"
    by (auto simp: contiguous_def run_checkpoints_def empty_run_store_def)
  with append_retry append_history_contiguous [OF assms(1)] append_history_ok [OF assms(1)] assms(2)
  show ?thesis by simp
qed

theorem append_retry_idempotent_witness:
  "append_agent_checkpoint sample_host sample_checkpoint_store None sample_checkpoint
     = Inr (Appended, sample_checkpoint_store)"
  by (rule append_retry_idempotent [OF ah_refl sample_append])

text \<open>
  C23: A live start happens once. After a claim was acquired, and whatever happened to the store
  since, a claim that shares its readiness or its setup digest is never acquired: the same
  claim is answered with the run that was started first, a different one with a conflict, and
  neither changes the store.
\<close>

theorem live_start_once:
  assumes "store_steps H empty_run_store s"
    and "claim_live_run_start H s claim r c v = Inr (Acquired, s1)"
    and "store_steps H s1 s2"
    and "claim_readiness_binding_digest claim' = claim_readiness_binding_digest claim \<or>
         claim_setup_digest claim' = claim_setup_digest claim"
    and "claim_live_run_start H s2 claim' r' c' v' = Inr (out, s3)"
  shows "s3 = s2 \<and> out = (if claim' = claim then Existing (run_id r) else Conflict)"
proof -
  have "claims_unique empty_run_store" by (simp add: claims_unique_def empty_run_store_def)
  then have u: "claims_unique s" using store_steps_claims [OF assms(1)] by blast
  from assms(2) obtain x where x: "rs_live_start_claims s1 = x # rs_live_start_claims s"
    "rc_claim x = claim" "rc_initial_run x = r" by (rule acquired_claims)
  have "claims_unique s1" using store_step_claims_unique [OF st_claim [OF assms(2)] u] by blast
  then have s2: "claims_unique s2" "x \<in> set (rs_live_start_claims s2)"
    using store_steps_claims [OF assms(3)] x(1) by auto
  have hit: "same_live_start claim' x" using assms(4) x(2) by (auto simp: same_live_start_def)
  with s2(2) obtain y where y: "find (same_live_start claim') (rs_live_start_claims s2) = Some y"
    by (cases "find (same_live_start claim') (rs_live_start_claims s2)") (auto simp: find_None_iff)
  show ?thesis
    using find_the_claim [OF s2 hit y] assms(5) y x
    by (auto simp: claim_live_run_start_def replay_live_start_def bindR_eq_Inr split: if_splits)
qed

theorem live_start_once_witness:
  "\<exists>s out. claim_live_run_start sample_host empty_run_store (sample_live_claim 1 2) (sample_live_run 1)
       (sample_live_checkpoint 1 2) (sample_live_event 1 3) = Inr (Acquired, s) \<and>
     claim_live_run_start sample_host s (sample_live_claim 1 3) (sample_live_run 4)
       (sample_live_checkpoint 4 5) (sample_live_event 4 6) = Inr (out, s) \<and> out = Conflict"
proof -
  obtain s where s: "claim_live_run_start sample_host empty_run_store (sample_live_claim 1 2)
      (sample_live_run 1) (sample_live_checkpoint 1 2) (sample_live_event 1 3) = Inr (Acquired, s)"
    using sample_claim_acquired by blast
  from s obtain x where x: "rs_live_start_claims s = x # rs_live_start_claims empty_run_store"
    "rc_claim x = sample_live_claim 1 2" by (rule acquired_claims)
  have "claim_live_run_start sample_host s (sample_live_claim 1 3) (sample_live_run 4)
      (sample_live_checkpoint 4 5) (sample_live_event 4 6) = Inr (Conflict, s)"
    by (simp add: claim_live_run_start_def sample_bundle_ok x same_live_start_def)
      (simp add: sample_live_claim_def)
  with live_start_once [OF steps_refl s steps_refl _ this] s show ?thesis
    by (auto simp: sample_live_claim_def)
qed

end
