(* ===== verification/Handlers.thy ===== *)
theory Handlers
  imports Engine
begin

text \<open>
  What the operation handlers of \<^verbatim>\<open>crates/proof-workflow/src\<close> and
  \<^verbatim>\<open>crates/proof-commerce/src\<close> share (each crate has its own copy of this code): the
  check of an input against a registry schema, reading identifiers, content digests, and the
  records they keep as one JSON file per identifier. A directory of such files is a map. The
  file system the schemas are read from and the messages of serde_json are arguments.
  Writing a file is taken to succeed.
\<close>

section \<open>Input schemas\<close>

record JsonSchema =
  schema_required :: "string list"
  schema_properties :: "(string \<times> json) list"
  schema_additional_properties :: bool

definition input_error :: "string \<Rightarrow> engine_error" where
  "input_error message = Raise (HandlerFailed message)"

text \<open>\<open>Vec<String>\<close>, \<open>Map<String, Value>\<close> and \<open>bool\<close>, each defaulting when absent.\<close>

definition json_string_list :: "json \<Rightarrow> string list option" where
  "json_string_list v =
     (case v of
        JArray vs \<Rightarrow>
          if list_all (\<lambda>x. json_as_str x \<noteq> None) vs then Some (map (the \<circ> json_as_str) vs) else None
      | _ \<Rightarrow> None)"

definition json_as_bool :: "json \<Rightarrow> bool option" where
  "json_as_bool v = (case v of JBool b \<Rightarrow> Some b | _ \<Rightarrow> None)"

definition json_as_array :: "json \<Rightarrow> json list option" where
  "json_as_array v = (case v of JArray vs \<Rightarrow> Some vs | _ \<Rightarrow> None)"

definition default_field :: "'a \<Rightarrow> (json \<Rightarrow> 'a option) \<Rightarrow> json option \<Rightarrow> 'a option" where
  "default_field d read v = (case v of None \<Rightarrow> Some d | Some x \<Rightarrow> read x)"

text \<open>A derived \<open>Deserialize\<close> reads a struct from an object, or from an array in field order.\<close>

definition schema_fields :: "json \<Rightarrow> (json option \<times> json option \<times> json option) option" where
  "schema_fields v =
     (case v of
        JObject kvs \<Rightarrow>
          Some (map_of kvs ''required'', map_of kvs ''properties'', map_of kvs ''additional_properties'')
      | JArray vs \<Rightarrow>
          if length vs \<le> 3 then
            Some (if 0 < length vs then Some (vs ! 0) else None,
                  if 1 < length vs then Some (vs ! 1) else None,
                  if 2 < length vs then Some (vs ! 2) else None)
          else None
      | _ \<Rightarrow> None)"

definition schema_parse :: "(json \<Rightarrow> string) \<Rightarrow> json \<Rightarrow> engine_error + JsonSchema" where
  "schema_parse serde_error v =
     ok_or (input_error (''registry schema is invalid: '' @ serde_error v))
       (Option.bind (schema_fields v) (\<lambda>(r, p, a).
        Option.bind (default_field [] json_string_list r) (\<lambda>required.
        Option.bind (default_field [] json_as_object p) (\<lambda>properties.
        map_option (\<lambda>additional. \<lparr> schema_required = required, schema_properties = properties,
                      schema_additional_properties = additional \<rparr>)
          (default_field False json_as_bool a)))))"

definition schema_validate :: "JsonSchema \<Rightarrow> json \<Rightarrow> engine_error + unit" where
  "schema_validate schema v =
     (case json_as_object v of
        None \<Rightarrow> Inl (input_error ''input must be a JSON object'')
      | Some members \<Rightarrow>
          (case find (\<lambda>key. map_of members key = None) (schema_required schema) of
             Some key \<Rightarrow> Inl (input_error (''missing required field: '' @ key))
           | None \<Rightarrow>
               (case find (\<lambda>key. map_of (schema_properties schema) key = None
                              \<and> \<not> schema_additional_properties schema) (map fst members) of
                  Some key \<Rightarrow> Inl (input_error (''unknown field: '' @ key))
                | None \<Rightarrow> Inr ())))"

section \<open>Identifiers and digests\<close>

definition parse_id :: "host \<Rightarrow> json \<Rightarrow> string \<Rightarrow> engine_error + uuid" where
  "parse_id H v key =
     bindR (ok_or (input_error (''missing required field: '' @ key))
              (Option.bind (json_get v key) json_as_str)) (\<lambda>text.
       ok_or (input_error (''invalid '' @ key @ '': '' @ host_uuid_error H text)) (host_parse_uuid H text))"

text \<open>The digest of a value whose serialization \<open>to_value\<close> is given; \<open>expect\<close> panics.\<close>

definition canonical_digest :: "host \<Rightarrow> json \<Rightarrow> engine_error + string" where
  "canonical_digest H v =
     bindR (map_err (\<lambda>_. Panic) (canonicalize H v)) (\<lambda>encoded.
       Inr (''sha256:'' @ digest_hex (ContentDigest (host_sha256 H encoded))))"

text \<open>\<open>digest.trim_start_matches("sha256:")\<close>\<close>

function trim_sha256 :: "string \<Rightarrow> string" where
  "trim_sha256 s = (if starts_with s ''sha256:'' then trim_sha256 (drop 7 s) else s)"
  by auto
termination by (relation "measure length") (auto simp: starts_with_def prefix_def)

declare trim_sha256.simps [simp del]

definition is_hex :: "char \<Rightarrow> bool" where
  "is_hex c = (is_lower_hex c \<or> of_char c \<in> {65::nat..70})"

definition hex_decode :: "string \<Rightarrow> u8 list option" where
  "hex_decode s = (if even (length s) \<and> list_all is_hex s then Some (hex_pairs s) else None)"

definition uuid_from_bytes :: "u8 list \<Rightarrow> uuid" where
  "uuid_from_bytes bs = of_nat (foldl (\<lambda>n b. n * 256 + unat b) 0 bs)"

section \<open>Files\<close>

definition load_record :: "host \<Rightarrow> string \<Rightarrow> (uuid \<Rightarrow> 'a option) \<Rightarrow> uuid \<Rightarrow> engine_error + 'a" where
  "load_record H kind files i =
     ok_or (input_error (''failed to load '' @ kind @ '' '' @ host_uuid_text H i @ '': ''
                         @ host_io_error H (host_uuid_text H i))) (files i)"

text \<open>
  The handler of an operation: the schema file, as read, then the operation, whose data is
  wrapped with its name.
\<close>

definition handler_result :: "string \<Rightarrow> json \<Rightarrow> json" where
  "handler_result operation data = jobject [(''operation'', JString operation), (''data'', data)]"

definition run_checked :: "(json \<Rightarrow> string) \<Rightarrow> engine_error + json \<Rightarrow> string
    \<Rightarrow> (json \<Rightarrow> 's \<Rightarrow> (engine_error + json) \<times> 's) \<Rightarrow> json \<Rightarrow> 's \<Rightarrow> (engine_error + json) \<times> 's" where
  "run_checked serde_error schema_file operation execute_fn input s =
     (case bindR schema_file (\<lambda>raw. bindR (schema_parse serde_error raw) (\<lambda>schema.
             schema_validate schema input)) of
        Inl e \<Rightarrow> (Inl e, s)
      | Inr _ \<Rightarrow> apfst (map_sum id (handler_result operation)) (execute_fn input s))"

text \<open>
  Where the schema file of an operation is looked for. The environment: the directory of the
  crate, the paths that exist, the readable files with their contents, and serde_json's reader with its messages.
\<close>

record schema_env =
  env_manifest_dir :: string
  env_exists :: "string \<Rightarrow> bool"
  env_read :: "string \<Rightarrow> string option"
  env_from_str :: "string \<Rightarrow> string + json"
  env_serde_error :: "json \<Rightarrow> string"

definition schema_candidates :: "schema_env \<Rightarrow> string \<Rightarrow> string \<Rightarrow> string \<Rightarrow> string list" where
  "schema_candidates env crate workspace file_name =
     [workspace @ ''/'' @ file_name, workspace @ ''/.proof/registry/'' @ file_name,
      env_manifest_dir env @ ''/../../registry/'' @ file_name,
      workspace @ ''/crates/'' @ crate @ ''/'' @ file_name, workspace @ ''/schemas/'' @ file_name,
      workspace @ ''/registry/'' @ file_name]"

definition registry_schema :: "host \<Rightarrow> schema_env \<Rightarrow> string \<Rightarrow> ExecutionContext \<Rightarrow> string \<Rightarrow> string
    \<Rightarrow> engine_error + json" where
  "registry_schema H env crate context operation file_name =
     (let candidates = schema_candidates env crate (ctx_workspace_path context) file_name;
          registry_path = (case find (env_exists env) candidates of
                             Some path \<Rightarrow> path | None \<Rightarrow> hd candidates)
      in bindR (ok_or (input_error (''failed to read registry schema: '' @ host_io_error H registry_path))
                  (env_read env registry_path)) (\<lambda>contents.
           map_err (\<lambda>error. input_error (''invalid registry schema for '' @ operation @ '': '' @ error))
             (env_from_str env contents)))"

text \<open>
  The handler as the engine holds it: no replay policy, every version alike. The operations
  given to it do not panic, so the second case of \<open>handler_reply\<close> does not arise.
\<close>

definition handler_reply :: "engine_error + json \<Rightarrow> ExecutionError + json" where
  "handler_reply r =
     (case r of Inl (Raise e) \<Rightarrow> Inl e | Inl Panic \<Rightarrow> Inl (HandlerFailed ''panic'') | Inr v \<Rightarrow> Inr v)"

definition generic_handler :: "host \<Rightarrow> schema_env \<Rightarrow> string \<Rightarrow> string \<Rightarrow> string
    \<Rightarrow> (json \<Rightarrow> ExecutionContext \<Rightarrow> 'w \<Rightarrow> (engine_error + json) \<times> 'w) \<Rightarrow> 'w OperationHandler" where
  "generic_handler H env crate operation schema_file execute_fn =
     \<lparr> handler_operation = operation,
       handler_idempotency_policy_for = (\<lambda>_. PolicyNone),
       handler_execute_versioned = (\<lambda>_ input context w.
         apfst handler_reply
           (run_checked (env_serde_error env) (registry_schema H env crate context operation schema_file)
              operation (\<lambda>v. execute_fn v context) input w)) \<rparr>"

section \<open>Lemmas\<close>

lemma collect_results_InlD: "collect_results rs = Inl e \<Longrightarrow> Inl e \<in> set rs"
  by (induction rs) (auto split: sum.splits)

lemma canonical_digest_ok:
  assumes "wf_json v" and "float_free v"
  shows "canonical_digest H v = Inr (''sha256:'' @ digest_hex (ContentDigest (host_sha256 H (render H v))))"
  using assms by (simp add: canonical_digest_def canonicalize_exact_ok)

lemma trim_sha256_digest:
  "list_all is_lower_hex h \<Longrightarrow> trim_sha256 (''sha256:'' @ h) = h"
proof -
  assume h: "list_all is_lower_hex h"
  have "\<not> starts_with h ''sha256:''"
    using h by (cases h) (auto simp: starts_with_def is_lower_hex_def)
  then have "trim_sha256 h = h" by (subst trim_sha256.simps) simp
  then show ?thesis by (subst trim_sha256.simps) (simp add: starts_with_def)
qed

lemma hex_decode_hex: "hex_decode (digest_hex (ContentDigest bs)) = Some bs"
proof -
  have "list_all is_hex (digest_hex (ContentDigest bs))"
    using list_all_hex [of "ContentDigest bs"] by (auto simp: list_all_iff is_hex_def)
  then show ?thesis by (simp add: hex_decode_def length_hex_bytes hex_pairs_hex)
qed

text \<open>An input passes exactly when every required field is there and every field is known.\<close>

lemma schema_validate_Inr:
  "schema_validate schema v = Inr () \<longleftrightarrow>
     (\<exists>members. v = JObject members \<and> set (schema_required schema) \<subseteq> fst ` set members \<and>
        (schema_additional_properties schema \<or> fst ` set members \<subseteq> fst ` set (schema_properties schema)))"
proof (cases v)
  case (JObject members)
  then show ?thesis
    by (auto simp: schema_validate_def json_as_object_def find_None_iff map_of_eq_None_iff
        split: option.splits dest!: find_SomeD)
      (metis fst_conv image_eqI subsetD)
qed (simp_all add: schema_validate_def json_as_object_def)

lemma handler_reply_Inr [simp]: "handler_reply r = Inr v \<longleftrightarrow> r = Inr v"
  by (auto simp: handler_reply_def split: sum.splits engine_error.splits)

lemma generic_handler_Inr:
  "handler_execute_versioned (generic_handler H env crate operation schema_file execute_fn) version input ctx w
     = (Inr v, w') \<Longrightarrow>
   \<exists>data. execute_fn input ctx w = (Inr data, w') \<and> v = handler_result operation data"
  by (auto simp: generic_handler_def run_checked_def apfst_def map_prod_def split: sum.splits prod.splits)
    (auto simp: map_sum_def split: sum.splits)

text \<open>A successful execution of an operation without replay policy ran its handler.\<close>

lemma execute_runs_handler:
  assumes "execute H eng c (s, w) = (Inr v, s', w')" and "eng_handlers eng (call_operation c) = Some h"
    and "\<forall>version. handler_idempotency_policy_for h version = PolicyNone"
  shows "handler_execute_versioned h (call_version c) (call_input c) (call_context c) w = (Inr v, w')"
proof -
  let ?c = "c\<lparr>call_approval := None, call_evidence_required := False\<rparr>"
  obtain out where inner: "execute_inner H eng ?c (s, w) = (Inr out, s', w')" and v: "v = internal_output out"
    using assms(1) by (cases "execute_inner H eng ?c (s, w)")
      (auto simp: execute_def map_sum_def split: sum.splits)
  show ?thesis
    using inner
  proof (cases rule: execute_inner_Inr)
    case (replayed entry handler)
    with execute_admit_Inr [OF replayed(1)] assms(2,3) show ?thesis
      by (auto simp: authorize_Inr dest!: acquire_Inr)
  next
    case (ran entry handler claim s1 result)
    with execute_admit_Inr(1) [OF ran(1)] assms(2) conclude_Inr(1) [OF ran(3)] v show ?thesis
      by (simp add: authorize_Inr)
  qed
qed

end
