(* ===== verification/Workflow.thy ===== *)
theory Workflow
  imports Handlers
begin

text \<open>
  The workflow operations: \<^verbatim>\<open>crates/proof-workflow/src/models.rs\<close> and
  \<^verbatim>\<open>crates/proof-workflow/src/handlers.rs\<close>. The fresh identifier and the time of a call are
  arguments; the workspace is the three directories of JSON files it keeps.
\<close>

section \<open>Data\<close>

datatype WorkflowRunStatus = WrPending | WrInProgress | WrCompleted | WrFailed

datatype WorkflowStepStatus = WsPending | WsCompleted | WsApproved

record WorkflowStepBlueprint =
  bp_key :: string
  bp_name :: string
  bp_requires_approval :: bool

record WorkflowDefinition =
  wd_id :: uuid
  wd_name :: string
  wd_description :: string
  wd_steps :: "WorkflowStepBlueprint list"
  wd_created_at :: utc
  wd_updated_at :: utc

record WorkflowRun =
  wr_id :: uuid
  wr_workflow_definition_id :: uuid
  wr_status :: WorkflowRunStatus
  wr_created_at :: utc
  wr_updated_at :: utc

record WorkflowStep =
  ws_id :: uuid
  ws_workflow_run_id :: uuid
  ws_workflow_definition_id :: uuid
  ws_key :: string
  ws_name :: string
  ws_requires_approval :: bool
  ws_status :: WorkflowStepStatus
  ws_created_at :: utc
  ws_updated_at :: utc

record WorkflowFiles =
  wf_definitions :: "uuid \<Rightarrow> WorkflowDefinition option"
  wf_runs :: "uuid \<Rightarrow> WorkflowRun option"
  wf_steps :: "uuid \<Rightarrow> WorkflowStep option"

subsection \<open>Serialization\<close>

fun run_status_text :: "WorkflowRunStatus \<Rightarrow> string" where
  "run_status_text WrPending = ''pending''"
| "run_status_text WrInProgress = ''in_progress''"
| "run_status_text WrCompleted = ''completed''"
| "run_status_text WrFailed = ''failed''"

fun run_status_debug :: "WorkflowRunStatus \<Rightarrow> string" where
  "run_status_debug WrPending = ''Pending''"
| "run_status_debug WrInProgress = ''InProgress''"
| "run_status_debug WrCompleted = ''Completed''"
| "run_status_debug WrFailed = ''Failed''"

fun step_status_text :: "WorkflowStepStatus \<Rightarrow> string" where
  "step_status_text WsPending = ''pending''"
| "step_status_text WsCompleted = ''completed''"
| "step_status_text WsApproved = ''approved''"

definition blueprint_json :: "WorkflowStepBlueprint \<Rightarrow> json" where
  "blueprint_json b = jobject
     [(''key'', JString (bp_key b)), (''name'', JString (bp_name b)),
      (''requires_approval'', JBool (bp_requires_approval b))]"

definition workflow_definition_json :: "host \<Rightarrow> WorkflowDefinition \<Rightarrow> json" where
  "workflow_definition_json H d = jobject
     [(''id'', json_uuid H (wd_id d)), (''name'', JString (wd_name d)),
      (''description'', JString (wd_description d)),
      (''steps'', JArray (map blueprint_json (wd_steps d))),
      (''created_at'', json_utc H (wd_created_at d)), (''updated_at'', json_utc H (wd_updated_at d))]"

definition workflow_run_json :: "host \<Rightarrow> WorkflowRun \<Rightarrow> json" where
  "workflow_run_json H r = jobject
     [(''id'', json_uuid H (wr_id r)),
      (''workflow_definition_id'', json_uuid H (wr_workflow_definition_id r)),
      (''status'', JString (run_status_text (wr_status r))),
      (''created_at'', json_utc H (wr_created_at r)), (''updated_at'', json_utc H (wr_updated_at r))]"

definition workflow_step_json :: "host \<Rightarrow> WorkflowStep \<Rightarrow> json" where
  "workflow_step_json H s = jobject
     [(''id'', json_uuid H (ws_id s)), (''workflow_run_id'', json_uuid H (ws_workflow_run_id s)),
      (''workflow_definition_id'', json_uuid H (ws_workflow_definition_id s)),
      (''key'', JString (ws_key s)), (''name'', JString (ws_name s)),
      (''requires_approval'', JBool (ws_requires_approval s)),
      (''status'', JString (step_status_text (ws_status s))),
      (''created_at'', json_utc H (ws_created_at s)), (''updated_at'', json_utc H (ws_updated_at s))]"

section \<open>Models\<close>

definition blueprint_new :: "string \<Rightarrow> string \<Rightarrow> bool \<Rightarrow> string + WorkflowStepBlueprint" where
  "blueprint_new key name requires_approval =
     (if trim_is_empty key then Inl ''step key must not be empty''
      else if trim_is_empty name then Inl ''step name must not be empty''
      else Inr \<lparr> bp_key = key, bp_name = name, bp_requires_approval = requires_approval \<rparr>)"

fun first_duplicate :: "string set \<Rightarrow> string list \<Rightarrow> string option" where
  "first_duplicate seen [] = None"
| "first_duplicate seen (k # ks) = (if k \<in> seen then Some k else first_duplicate (insert k seen) ks)"

definition workflow_definition_new :: "uuid \<Rightarrow> utc \<Rightarrow> string \<Rightarrow> string \<Rightarrow> WorkflowStepBlueprint list
    \<Rightarrow> string + WorkflowDefinition" where
  "workflow_definition_new fresh now name description steps =
     (if trim_is_empty name then Inl ''name must not be empty''
      else if steps = [] then Inl ''workflow must contain at least one step''
      else case first_duplicate {} (map bp_key steps) of
             Some key \<Rightarrow> Inl (''duplicate workflow step key: '' @ key)
           | None \<Rightarrow>
               Inr \<lparr> wd_id = fresh, wd_name = name, wd_description = description, wd_steps = steps,
                     wd_created_at = now, wd_updated_at = now \<rparr>)"

definition workflow_run_new :: "uuid \<Rightarrow> utc \<Rightarrow> uuid \<Rightarrow> WorkflowRun" where
  "workflow_run_new fresh now definition_id =
     \<lparr> wr_id = fresh, wr_workflow_definition_id = definition_id, wr_status = WrPending,
       wr_created_at = now, wr_updated_at = now \<rparr>"

definition workflow_transition_to :: "WorkflowRun \<Rightarrow> WorkflowRunStatus \<Rightarrow> utc \<Rightarrow> string + WorkflowRun" where
  "workflow_transition_to r target now =
     (if (wr_status r, target) \<in> {(WrPending, WrInProgress), (WrInProgress, WrCompleted),
                                  (WrInProgress, WrFailed)}
      then Inr (r\<lparr>wr_status := target, wr_updated_at := now\<rparr>)
      else Inl (''invalid workflow run transition from '' @ run_status_debug (wr_status r)
                @ '' to '' @ run_status_text target))"

definition workflow_step_complete :: "WorkflowStep \<Rightarrow> utc \<Rightarrow> string + WorkflowStep" where
  "workflow_step_complete s now =
     (if ws_status s \<noteq> WsPending then Inl (''workflow step '' @ ws_key s @ '' is not pending'')
      else Inr (s\<lparr>ws_status := if ws_requires_approval s then WsCompleted else WsApproved,
                  ws_updated_at := now\<rparr>))"

definition workflow_step_approve :: "WorkflowStep \<Rightarrow> utc \<Rightarrow> string + WorkflowStep" where
  "workflow_step_approve s now =
     (if ws_status s \<noteq> WsCompleted
      then Inl (''workflow step '' @ ws_key s @ '' must be completed before approval'')
      else Inr (s\<lparr>ws_status := WsApproved, ws_updated_at := now\<rparr>))"

section \<open>Handlers\<close>

definition parse_step :: "json \<Rightarrow> engine_error + WorkflowStepBlueprint" where
  "parse_step raw_step =
     bindR (ok_or (input_error ''invalid workflow step: missing key'')
              (Option.bind (json_get raw_step ''key'') json_as_str)) (\<lambda>key.
     bindR (ok_or (input_error ''invalid workflow step: missing name'')
              (Option.bind (json_get raw_step ''name'') json_as_str)) (\<lambda>name.
     bindR (ok_or (input_error ''invalid workflow step: missing requires_approval'')
              (Option.bind (json_get raw_step ''requires_approval'') json_as_bool)) (\<lambda>requires_approval.
       map_err input_error (blueprint_new key name requires_approval))))"

definition parse_steps :: "json \<Rightarrow> engine_error + WorkflowStepBlueprint list" where
  "parse_steps input =
     bindR (ok_or (input_error ''missing required field: steps'')
              (Option.bind (json_get input ''steps'') json_as_array)) (\<lambda>raw_steps.
       collect_results (map parse_step raw_steps))"

definition workflow_step_id :: "host \<Rightarrow> uuid \<Rightarrow> string \<Rightarrow> engine_error + uuid" where
  "workflow_step_id H rid key =
     bindR (canonical_digest H (jobject [(''run_id'', json_uuid H rid), (''step_key'', JString key)]))
       (\<lambda>d. let hex_digest = trim_sha256 d in
            bindR (ok_or (input_error (''failed to derive workflow step id: '' @ host_hex_error H hex_digest))
                     (hex_decode hex_digest)) (\<lambda>bytes.
              if length bytes < 16 then Inl Panic else Inr (uuid_from_bytes (take 16 bytes))))"

definition load_definition :: "host \<Rightarrow> WorkflowFiles \<Rightarrow> uuid \<Rightarrow> engine_error + WorkflowDefinition" where
  "load_definition H files definition_id =
     load_record H ''workflow definition'' (wf_definitions files) definition_id"

definition load_steps :: "host \<Rightarrow> WorkflowFiles \<Rightarrow> WorkflowRun \<Rightarrow> WorkflowDefinition
    \<Rightarrow> engine_error + WorkflowStep list" where
  "load_steps H files r d =
     collect_results (map (\<lambda>blueprint.
       bindR (workflow_step_id H (wr_id r) (bp_key blueprint))
         (load_record H ''workflow step'' (wf_steps files))) (wd_steps d))"

definition execute_define :: "host \<Rightarrow> uuid \<Rightarrow> utc \<Rightarrow> json \<Rightarrow> WorkflowFiles
    \<Rightarrow> (engine_error + json) \<times> WorkflowFiles" where
  "execute_define H fresh now input files =
     (case bindR (ok_or (input_error ''missing required field: name'')
                    (Option.bind (json_get input ''name'') json_as_str)) (\<lambda>name.
           bindR (parse_steps input) (\<lambda>steps.
             map_err input_error (workflow_definition_new fresh now name
               (case Option.bind (json_get input ''description'') json_as_str of
                  None \<Rightarrow> [] | Some description \<Rightarrow> description) steps))) of
        Inl e \<Rightarrow> (Inl e, files)
      | Inr d \<Rightarrow>
          (bindR (canonical_digest H (workflow_definition_json H d)) (\<lambda>content_digest.
             Inr (jobject
               [(''workflow_definition_id'', json_uuid H (wd_id d)), (''name'', JString (wd_name d)),
                (''description'', JString (wd_description d)),
                (''steps'', JArray (map blueprint_json (wd_steps d))),
                (''created_at'', json_utc H (wd_created_at d)),
                (''content_digest'', JString content_digest)])),
           files\<lparr>wf_definitions := (wf_definitions files)(wd_id d \<mapsto> d)\<rparr>))"

definition triggered_step :: "WorkflowRun \<Rightarrow> WorkflowDefinition \<Rightarrow> WorkflowStepBlueprint \<Rightarrow> uuid
    \<Rightarrow> WorkflowStep" where
  "triggered_step r d b i =
     \<lparr> ws_id = i, ws_workflow_run_id = wr_id r, ws_workflow_definition_id = wd_id d,
       ws_key = bp_key b, ws_name = bp_name b, ws_requires_approval = bp_requires_approval b,
       ws_status = WsPending, ws_created_at = wr_created_at r, ws_updated_at = wr_created_at r \<rparr>"

fun create_steps :: "host \<Rightarrow> WorkflowRun \<Rightarrow> WorkflowDefinition \<Rightarrow> WorkflowStepBlueprint list
    \<Rightarrow> WorkflowFiles \<Rightarrow> (engine_error + WorkflowStep list) \<times> WorkflowFiles" where
  "create_steps H r d [] files = (Inr [], files)"
| "create_steps H r d (b # bs) files =
     (case workflow_step_id H (wr_id r) (bp_key b) of
        Inl e \<Rightarrow> (Inl e, files)
      | Inr i \<Rightarrow>
          (let step = triggered_step r d b i in
           case create_steps H r d bs (files\<lparr>wf_steps := (wf_steps files)(i \<mapsto> step)\<rparr>) of
             (Inl e, files') \<Rightarrow> (Inl e, files')
           | (Inr steps, files') \<Rightarrow> (Inr (step # steps), files')))"

definition execute_trigger :: "host \<Rightarrow> uuid \<Rightarrow> utc \<Rightarrow> json \<Rightarrow> WorkflowFiles
    \<Rightarrow> (engine_error + json) \<times> WorkflowFiles" where
  "execute_trigger H fresh now input files =
     (case bindR (parse_id H input ''workflow_id'') (load_definition H files) of
        Inl e \<Rightarrow> (Inl e, files)
      | Inr d \<Rightarrow>
          (let r = workflow_run_new fresh now (wd_id d) in
           case create_steps H r d (wd_steps d) files of
             (Inl e, files') \<Rightarrow> (Inl e, files')
           | (Inr steps, files') \<Rightarrow>
               (bindR (canonical_digest H (workflow_run_json H r)) (\<lambda>content_digest.
                  Inr (jobject
                    [(''workflow_run_id'', json_uuid H (wr_id r)),
                     (''workflow_definition_id'', json_uuid H (wr_workflow_definition_id r)),
                     (''status'', JString (run_status_text (wr_status r))),
                     (''steps'', JArray (map (\<lambda>step. jobject
                        [(''key'', JString (ws_key step)), (''name'', JString (ws_name step)),
                         (''requires_approval'', JBool (ws_requires_approval step)),
                         (''status'', JString (step_status_text (ws_status step)))]) steps)),
                     (''created_at'', json_utc H (wr_created_at r)),
                     (''content_digest'', JString content_digest)])),
                files'\<lparr>wf_runs := (wf_runs files')(wr_id r \<mapsto> r)\<rparr>)))"

text \<open>The run, its definition and its steps, as both step handlers load them.\<close>

definition load_run :: "host \<Rightarrow> json \<Rightarrow> WorkflowFiles \<Rightarrow> engine_error + WorkflowRun \<times> WorkflowStep list" where
  "load_run H input files =
     bindR (parse_id H input ''run_id'') (\<lambda>rid.
     bindR (load_record H ''workflow run'' (wf_runs files) rid) (\<lambda>r.
     bindR (load_definition H files (wr_workflow_definition_id r)) (\<lambda>d.
     bindR (load_steps H files r d) (\<lambda>steps.
       Inr (r, steps)))))"

definition next_pending :: "WorkflowStep list \<Rightarrow> engine_error + nat" where
  "next_pending steps =
     bindR (ok_or (input_error ''workflow run has no pending step'')
              (position (\<lambda>step. ws_status step = WsPending) steps)) (\<lambda>step_index.
       if list_ex (\<lambda>step. ws_status step \<noteq> WsApproved) (take step_index steps)
       then Inl (input_error (''workflow step '' @ ws_key (steps ! step_index)
                  @ '' cannot complete before earlier steps are approved''))
       else Inr step_index)"

definition advance_run :: "WorkflowRun \<Rightarrow> WorkflowStep list \<Rightarrow> utc \<Rightarrow> engine_error + WorkflowRun" where
  "advance_run r steps now =
     (if list_all (\<lambda>step. ws_status step = WsApproved) steps
      then map_err input_error (workflow_transition_to r WrCompleted now)
      else if wr_status r = WrPending
      then map_err input_error (workflow_transition_to r WrInProgress now)
      else Inr r)"

definition execute_step_complete :: "host \<Rightarrow> utc \<Rightarrow> utc \<Rightarrow> json \<Rightarrow> WorkflowFiles
    \<Rightarrow> (engine_error + json) \<times> WorkflowFiles" where
  "execute_step_complete H step_now run_now input files =
     (case bindR (load_run H input files) (\<lambda>(r, steps).
           bindR (next_pending steps) (\<lambda>step_index.
           bindR (map_err input_error (workflow_step_complete (steps ! step_index) step_now)) (\<lambda>step.
             Inr (r, steps, step_index, step)))) of
        Inl e \<Rightarrow> (Inl e, files)
      | Inr (r, steps, step_index, step) \<Rightarrow>
          (let files1 = files\<lparr>wf_steps := (wf_steps files)(ws_id (steps ! step_index) \<mapsto> step)\<rparr> in
           case advance_run r (steps[step_index := step]) run_now of
             Inl e \<Rightarrow> (Inl e, files1)
           | Inr r' \<Rightarrow>
               (bindR (canonical_digest H (workflow_run_json H r')) (\<lambda>content_digest.
                  Inr (jobject
                    [(''workflow_run_id'', json_uuid H (wr_id r')),
                     (''step_key'', JString (ws_key (steps ! step_index))),
                     (''step_status'', JString (step_status_text (ws_status step))),
                     (''run_status'', JString (run_status_text (wr_status r'))),
                     (''updated_at'', json_utc H (wr_updated_at r')),
                     (''content_digest'', JString content_digest)])),
                files1\<lparr>wf_runs := (wf_runs files1)(wr_id r' \<mapsto> r')\<rparr>)))"

definition execute_approve :: "host \<Rightarrow> utc \<Rightarrow> ExecutionContext \<Rightarrow> json \<Rightarrow> WorkflowFiles
    \<Rightarrow> (engine_error + json) \<times> WorkflowFiles" where
  "execute_approve H now context input files =
     (if ctx_principal_kind context \<noteq> Some Human then (Inl (Raise ExecHumanOnly), files)
      else case bindR (load_run H input files) (\<lambda>(r, steps).
           bindR (ok_or (input_error ''workflow run has no completed step awaiting approval'')
                    (position (\<lambda>step. ws_status step = WsCompleted) steps)) (\<lambda>step_index.
           bindR (map_err input_error (workflow_step_approve (steps ! step_index) now)) (\<lambda>step.
             Inr (r, steps, step_index, step)))) of
        Inl e \<Rightarrow> (Inl e, files)
      | Inr (r, steps, step_index, step) \<Rightarrow>
          (bindR (canonical_digest H (workflow_step_json H step)) (\<lambda>content_digest.
             Inr (jobject
               [(''workflow_run_id'', json_uuid H (wr_id r)), (''step_key'', JString (ws_key step)),
                (''step_status'', JString (step_status_text (ws_status step))),
                (''approved_at'', json_utc H (ws_updated_at step)),
                (''content_digest'', JString content_digest)])),
           files\<lparr>wf_steps := (wf_steps files)(ws_id (steps ! step_index) \<mapsto> step)\<rparr>))"

section \<open>What the step handlers do to a run\<close>

text \<open>
  The specification: the status of the run, and of each step whether it requires approval and
  its status. \<open>spec_complete\<close> and \<open>spec_approve\<close> say whether the call succeeds and what it
  leaves behind.
\<close>

type_synonym run_view = "WorkflowRunStatus \<times> (bool \<times> WorkflowStepStatus) list"

definition completed_status :: "bool \<times> WorkflowStepStatus \<Rightarrow> bool \<times> WorkflowStepStatus" where
  "completed_status x = (fst x, if fst x then WsCompleted else WsApproved)"

definition all_approved :: "(bool \<times> WorkflowStepStatus) list \<Rightarrow> bool" where
  "all_approved xs \<longleftrightarrow> list_all (\<lambda>x. snd x = WsApproved) xs"

definition spec_complete :: "run_view \<Rightarrow> bool \<times> run_view" where
  "spec_complete v =
     (case v of (rs, xs) \<Rightarrow>
        (case position (\<lambda>x. snd x = WsPending) xs of
           None \<Rightarrow> (False, v)
         | Some i \<Rightarrow>
             if \<not> all_approved (take i xs) then (False, v)
             else
               let ys = xs[i := completed_status (xs ! i)] in
               if all_approved ys
               then (if rs = WrInProgress then (True, WrCompleted, ys) else (False, rs, ys))
               else (True, if rs = WrPending then WrInProgress else rs, ys)))"

definition spec_approve :: "run_view \<Rightarrow> bool \<times> run_view" where
  "spec_approve v =
     (case v of (rs, xs) \<Rightarrow>
        (case position (\<lambda>x. snd x = WsCompleted) xs of
           None \<Rightarrow> (False, v)
         | Some i \<Rightarrow> (True, rs, xs[i := (fst (xs ! i), WsApproved)])))"

definition step_view :: "WorkflowStep \<Rightarrow> bool \<times> WorkflowStepStatus" where
  "step_view s = (ws_requires_approval s, ws_status s)"

text \<open>
  The files of a run: its record, its definition, and under the derived identifiers, which are
  different, the steps of the definition.
\<close>

definition run_files :: "host \<Rightarrow> uuid \<Rightarrow> WorkflowDefinition \<Rightarrow> uuid list \<Rightarrow> WorkflowFiles
    \<Rightarrow> WorkflowRun \<Rightarrow> WorkflowStep list \<Rightarrow> bool" where
  "run_files H rid d ids files r steps \<longleftrightarrow>
     wf_runs files rid = Some r \<and> wr_id r = rid \<and>
     wf_definitions files (wr_workflow_definition_id r) = Some d \<and>
     distinct ids \<and> length ids = length (wd_steps d) \<and> length steps = length ids \<and>
     (\<forall>i < length ids. workflow_step_id H rid (bp_key (wd_steps d ! i)) = Inr (ids ! i) \<and>
        wf_steps files (ids ! i) = Some (steps ! i) \<and> ws_id (steps ! i) = ids ! i)"

definition names_run :: "host \<Rightarrow> json \<Rightarrow> uuid \<Rightarrow> bool" where
  "names_run H input rid \<longleftrightarrow> parse_id H input ''run_id'' = Inr rid"

section \<open>Lemmas\<close>

lemma workflow_step_id_ok:
  assumes "sha256_law H"
  shows "workflow_step_id H rid key =
    Inr (uuid_from_bytes (take 16 (host_sha256 H (render H
      (jobject [(''run_id'', json_uuid H rid), (''step_key'', JString key)])))))"
proof -
  let ?v = "jobject [(''run_id'', json_uuid H rid), (''step_key'', JString key)]"
  have "wf_json ?v" "float_free ?v" by (auto intro!: wf_jobject float_free_jobject)
  note d = canonical_digest_ok [OF this, of H]
  note t = trim_sha256_digest [OF list_all_hex]
  show ?thesis
    unfolding workflow_step_id_def d bindR_simps Let_def t hex_decode_hex ok_or_simps
    using assms by (simp add: sha256_law_def)
qed

lemma position_map: "position P (map f xs) = position (P \<circ> f) xs"
  by (induction xs) simp_all

lemma position_less: "position P xs = Some i \<Longrightarrow> i < length xs \<and> P (xs ! i)"
  by (induction xs arbitrary: i) (auto split: if_splits)

lemma step_view_position:
  "position (\<lambda>x. snd x = st) (map step_view steps) = position (\<lambda>s. ws_status s = st) steps"
  by (simp add: position_map comp_def step_view_def)

lemma run_json_ok [simp]: "wf_json (workflow_run_json H r)" "float_free (workflow_run_json H r)"
  unfolding workflow_run_json_def by (auto intro!: wf_jobject float_free_jobject)

lemma step_json_ok [simp]: "wf_json (workflow_step_json H s)" "float_free (workflow_step_json H s)"
  unfolding workflow_step_json_def by (auto intro!: wf_jobject float_free_jobject)

lemma load_run_ok:
  assumes "run_files H rid d ids files r steps" and "names_run H input rid"
  shows "load_run H input files = Inr (r, steps)"
proof -
  have "collect_results (map (\<lambda>b. bindR (workflow_step_id H (wr_id r) (bp_key b))
      (load_record H ''workflow step'' (wf_steps files))) (wd_steps d)) = Inr steps"
    unfolding collect_results_map_eq_Inr using assms(1)
    by (auto simp: run_files_def load_record_def)
  with assms show ?thesis
    by (simp add: load_run_def load_steps_def names_run_def run_files_def load_record_def load_definition_def)
qed

text \<open>Replacing one step, and then the run record, keeps the shape of the files.\<close>

lemma run_files_step:
  assumes "run_files H rid d ids files r steps" and "i < length steps" and "ws_id s = ws_id (steps ! i)"
  shows "run_files H rid d ids (files\<lparr>wf_steps := (wf_steps files)(ws_id (steps ! i) \<mapsto> s)\<rparr>) r (steps[i := s])"
proof -
  have "ids ! j = ids ! i \<longleftrightarrow> j = i" if "j < length ids" for j
    using assms that by (simp add: run_files_def nth_eq_iff_index_eq)
  with assms show ?thesis by (auto simp: run_files_def nth_list_update)
qed

lemma run_files_run:
  assumes "run_files H rid d ids files r steps" and "wr_id r' = rid"
    and "wr_workflow_definition_id r' = wr_workflow_definition_id r"
  shows "run_files H rid d ids (files\<lparr>wf_runs := (wf_runs files)(rid \<mapsto> r')\<rparr>) r' steps"
  using assms by (simp add: run_files_def)

lemma all_approved_view:
  "all_approved (map step_view steps) = list_all (\<lambda>s. ws_status s = WsApproved) steps"
  by (simp add: all_approved_def list_all_iff step_view_def)

lemma all_approved_take:
  "all_approved (take i (map step_view steps)) = (\<not> list_ex (\<lambda>s. ws_status s \<noteq> WsApproved) (take i steps))"
  by (simp add: all_approved_view take_map list_all_iff list_ex_iff)

lemma next_pending_view:
  "next_pending steps = Inr i \<longleftrightarrow>
     position (\<lambda>x. snd x = WsPending) (map step_view steps) = Some i \<and>
     all_approved (take i (map step_view steps))"
  by (auto simp: next_pending_def step_view_position all_approved_take result_simps split: if_splits)

lemma workflow_step_complete_view:
  assumes "ws_status s = WsPending"
  shows "\<exists>s'. workflow_step_complete s now = Inr s' \<and> step_view s' = completed_status (step_view s) \<and>
    ws_id s' = ws_id s"
  using assms by (simp add: workflow_step_complete_def step_view_def completed_status_def)

lemma workflow_transition_view:
  "(\<exists>r'. workflow_transition_to r target now = Inr r' \<and> wr_status r' = target \<and> wr_id r' = wr_id r \<and>
      wr_workflow_definition_id r' = wr_workflow_definition_id r) \<or>
   (wr_status r, target) \<notin> {(WrPending, WrInProgress), (WrInProgress, WrCompleted), (WrInProgress, WrFailed)} \<and>
   (\<exists>e. workflow_transition_to r target now = Inl e)"
  by (auto simp: workflow_transition_to_def)

text \<open>The run record after a completed step, in terms of the specification.\<close>

lemma advance_run_view:
  assumes "all_approved (map step_view steps) = a"
  shows "case advance_run r steps now of
      Inl _ \<Rightarrow> a \<and> wr_status r \<noteq> WrInProgress
    | Inr r' \<Rightarrow> wr_id r' = wr_id r \<and> wr_workflow_definition_id r' = wr_workflow_definition_id r \<and>
        (if a then wr_status r = WrInProgress \<and> wr_status r' = WrCompleted
         else wr_status r' = (if wr_status r = WrPending then WrInProgress else wr_status r))"
  using assms
  by (auto simp: advance_run_def all_approved_view [symmetric] workflow_transition_to_def map_err_def)

lemma step_complete_refines:
  assumes files: "run_files H rid d ids files r steps" and "names_run H input rid"
    and ex: "execute_step_complete H t1 t2 input files = (res, files')"
  shows "\<exists>r' steps'. run_files H rid d ids files' r' steps' \<and>
    spec_complete (wr_status r, map step_view steps) = (is_ok res, wr_status r', map step_view steps')"
proof (cases "next_pending steps")
  case (Inl e)
  then have no: "\<nexists>i. next_pending steps = Inr i" by simp
  have "spec_complete (wr_status r, map step_view steps) = (False, wr_status r, map step_view steps)"
    using no by (auto simp: next_pending_view spec_complete_def split: option.splits)
  moreover have "res = Inl e" "files' = files"
    using ex Inl load_run_ok [OF assms(1,2)] by (auto simp: execute_step_complete_def)
  ultimately show ?thesis using files by (intro exI [of _ r] exI [of _ steps]) simp
next
  case (Inr i)
  then have pos: "position (\<lambda>x. snd x = WsPending) (map step_view steps) = Some i"
    and app: "all_approved (take i (map step_view steps))" by (simp_all add: next_pending_view)
  then have i: "i < length steps" "ws_status (steps ! i) = WsPending"
    using position_less by (fastforce simp: step_view_def)+
  obtain s where s: "workflow_step_complete (steps ! i) t1 = Inr s"
    "step_view s = completed_status (step_view (steps ! i))" "ws_id s = ws_id (steps ! i)"
    using workflow_step_complete_view [OF i(2), of t1] by blast
  define ys where "ys = steps[i := s]"
  define files1 where "files1 = files\<lparr>wf_steps := (wf_steps files)(ws_id (steps ! i) \<mapsto> s)\<rparr>"
  have f1: "run_files H rid d ids files1 r ys"
    unfolding files1_def ys_def by (rule run_files_step [OF files i(1) s(3)])
  have view: "map step_view ys = (map step_view steps)[i := completed_status (map step_view steps ! i)]"
    using i(1) s(2) by (simp add: ys_def map_update)
  note adv = advance_run_view [OF refl, of ys r t2]
  have spec: "spec_complete (wr_status r, map step_view steps) =
    (if all_approved (map step_view ys)
     then (if wr_status r = WrInProgress then (True, WrCompleted, map step_view ys)
           else (False, wr_status r, map step_view ys))
     else (True, if wr_status r = WrPending then WrInProgress else wr_status r, map step_view ys))"
    using pos app by (simp add: spec_complete_def view Let_def)
  show ?thesis
  proof (cases "advance_run r ys t2")
    case (Inl e)
    then have "res = Inl e" "files' = files1"
      using ex load_run_ok [OF assms(1,2)] \<open>next_pending steps = Inr i\<close> s(1)
      by (simp_all add: execute_step_complete_def Let_def ys_def files1_def)
    with adv Inl spec f1 show ?thesis by (intro exI [of _ r] exI [of _ ys]) simp
  next
    case (Inr r')
    then have "is_ok res" and "files' = files1\<lparr>wf_runs := (wf_runs files1)(wr_id r' \<mapsto> r')\<rparr>"
      using ex load_run_ok [OF assms(1,2)] \<open>next_pending steps = Inr i\<close> s(1)
      by (auto simp: execute_step_complete_def Let_def ys_def files1_def canonical_digest_ok)
    moreover have "wr_id r = rid" using files by (simp add: run_files_def)
    ultimately show ?thesis
      using adv Inr spec run_files_run [OF f1, of r']
      by (intro exI [of _ r'] exI [of _ ys]) (auto split: if_splits)
  qed
qed

lemma approve_refines:
  assumes files: "run_files H rid d ids files r steps" and "names_run H input rid"
    and human: "ctx_principal_kind ctx = Some Human"
    and ex: "execute_approve H now ctx input files = (res, files')"
  shows "\<exists>steps'. run_files H rid d ids files' r steps' \<and>
    spec_approve (wr_status r, map step_view steps) = (is_ok res, wr_status r, map step_view steps')"
proof (cases "position (\<lambda>s. ws_status s = WsCompleted) steps")
  case None
  with ex human load_run_ok [OF assms(1,2)] have "res = Inl (input_error
      ''workflow run has no completed step awaiting approval'')" "files' = files"
    by (simp_all add: execute_approve_def)
  with None files show ?thesis
    by (intro exI [of _ steps]) (simp add: spec_approve_def step_view_position)
next
  case (Some i)
  then have i: "i < length steps" "ws_status (steps ! i) = WsCompleted" using position_less by fastforce+
  define s where "s = (steps ! i)\<lparr>ws_status := WsApproved, ws_updated_at := now\<rparr>"
  have "workflow_step_approve (steps ! i) now = Inr s" using i by (simp add: workflow_step_approve_def s_def)
  with ex human load_run_ok [OF assms(1,2)] Some
  have "is_ok res" and "files' = files\<lparr>wf_steps := (wf_steps files)(ws_id (steps ! i) \<mapsto> s)\<rparr>"
    by (auto simp: execute_approve_def canonical_digest_ok)
  moreover have "map step_view (steps[i := s]) = (map step_view steps)[i := (fst (map step_view steps ! i), WsApproved)]"
    using i(1) by (simp add: map_update s_def step_view_def)
  ultimately show ?thesis
    using run_files_step [OF files i(1), of s] Some i(1)
    by (intro exI [of _ "steps[i := s]"]) (simp add: spec_approve_def step_view_position s_def)
qed

section \<open>Sequences of calls\<close>

datatype wf_call = CallComplete utc utc | CallApprove utc

fun call_files :: "host \<Rightarrow> ExecutionContext \<Rightarrow> json \<Rightarrow> wf_call \<Rightarrow> WorkflowFiles \<Rightarrow> WorkflowFiles" where
  "call_files H ctx input (CallComplete t1 t2) files = snd (execute_step_complete H t1 t2 input files)"
| "call_files H ctx input (CallApprove t) files = snd (execute_approve H t ctx input files)"

definition run_calls :: "host \<Rightarrow> ExecutionContext \<Rightarrow> json \<Rightarrow> wf_call list \<Rightarrow> WorkflowFiles \<Rightarrow> WorkflowFiles" where
  "run_calls H ctx input calls files = fold (call_files H ctx input) calls files"

fun spec_call :: "wf_call \<Rightarrow> run_view \<Rightarrow> run_view" where
  "spec_call (CallComplete _ _) v = snd (spec_complete v)"
| "spec_call (CallApprove _) v = snd (spec_approve v)"

lemma call_refines:
  assumes "run_files H rid d ids files r steps" and "names_run H input rid"
    and "ctx_principal_kind ctx = Some Human"
  shows "\<exists>r' steps'. run_files H rid d ids (call_files H ctx input c files) r' steps' \<and>
    spec_call c (wr_status r, map step_view steps) = (wr_status r', map step_view steps')"
proof (cases c)
  case (CallComplete t1 t2)
  then show ?thesis
    using step_complete_refines [OF assms(1,2), of t1 t2]
    by (metis call_files.simps(1) prod.collapse snd_conv spec_call.simps(1))
next
  case (CallApprove t)
  then show ?thesis
    using approve_refines [OF assms, of t]
    by (metis call_files.simps(2) prod.collapse snd_conv spec_call.simps(2))
qed

lemma run_calls_refines:
  assumes "run_files H rid d ids files r steps" and "names_run H input rid"
    and "ctx_principal_kind ctx = Some Human"
  shows "\<exists>r' steps'. run_files H rid d ids (run_calls H ctx input calls files) r' steps' \<and>
    fold spec_call calls (wr_status r, map step_view steps) = (wr_status r', map step_view steps')"
  using assms(1) unfolding run_calls_def
proof (induction calls arbitrary: files r steps)
  case Nil
  then show ?case by auto
next
  case (Cons c calls)
  from call_refines [OF Cons.prems assms(2,3), of c] obtain r1 steps1 where
    f: "run_files H rid d ids (call_files H ctx input c files) r1 steps1"
    and s: "spec_call c (wr_status r, map step_view steps) = (wr_status r1, map step_view steps1)" by blast
  from Cons.IH [OF f] s show ?case by simp
qed

text \<open>A triggered run: every step pending.\<close>

lemma create_steps_ok:
  assumes "collect_results (map (\<lambda>b. workflow_step_id H (wr_id r) (bp_key b)) bs) = Inr ids" and "distinct ids"
  shows "\<exists>files'. create_steps H r d bs files = (Inr (map2 (triggered_step r d) bs ids), files') \<and>
    wf_definitions files' = wf_definitions files \<and> wf_runs files' = wf_runs files \<and>
    (\<forall>k. k \<notin> set ids \<longrightarrow> wf_steps files' k = wf_steps files k) \<and>
    (\<forall>i < length ids. wf_steps files' (ids ! i) = Some (triggered_step r d (bs ! i) (ids ! i)))"
  using assms
proof (induction bs arbitrary: files ids)
  case (Cons b bs)
  then obtain i js where ids: "ids = i # js" and i: "workflow_step_id H (wr_id r) (bp_key b) = Inr i"
    and rest: "collect_results (map (\<lambda>b. workflow_step_id H (wr_id r) (bp_key b)) bs) = Inr js"
    by (auto split: sum.splits)
  define f where "f = files\<lparr>wf_steps := (wf_steps files)(i \<mapsto> triggered_step r d b i)\<rparr>"
  have "distinct js" and new: "i \<notin> set js" using Cons.prems(2) ids by auto
  with Cons.IH [OF rest, of f] obtain files' where
    "create_steps H r d bs f = (Inr (map2 (triggered_step r d) bs js), files')"
    and keep: "wf_definitions files' = wf_definitions f" "wf_runs files' = wf_runs f"
      "\<forall>k. k \<notin> set js \<longrightarrow> wf_steps files' k = wf_steps f k"
    and steps: "\<forall>j < length js. wf_steps files' (js ! j) = Some (triggered_step r d (bs ! j) (js ! j))"
    by blast
  with i have "create_steps H r d (b # bs) files = (Inr (map2 (triggered_step r d) (b # bs) ids), files')"
    by (simp add: f_def ids)
  moreover have "wf_steps files' i = Some (triggered_step r d b i)" using keep(3) new by (simp add: f_def)
  then have "\<forall>j < length ids. wf_steps files' (ids ! j) = Some (triggered_step r d ((b # bs) ! j) (ids ! j))"
    using steps by (auto simp: ids nth_Cons split: nat.splits)
  ultimately show ?case using keep by (intro exI [of _ files']) (auto simp: f_def ids)
qed simp

lemma trigger_files:
  assumes "parse_id H input ''workflow_id'' = Inr did" and "wf_definitions files did = Some d"
    and "wd_id d = did"
    and ids: "collect_results (map (\<lambda>b. workflow_step_id H rid (bp_key b)) (wd_steps d)) = Inr ids"
    and "distinct ids" and "execute_trigger H rid now input files = (res, files')"
  shows "\<exists>r steps. run_files H rid d ids files' r steps \<and> wr_status r = WrPending \<and>
    map step_view steps = map (\<lambda>b. (bp_requires_approval b, WsPending)) (wd_steps d)"
proof -
  define r where "r = workflow_run_new rid now did"
  have r: "wr_id r = rid" "wr_workflow_definition_id r = did" "wr_status r = WrPending"
    by (simp_all add: r_def workflow_run_new_def)
  have len: "length ids = length (wd_steps d)"
    and sid: "\<forall>i < length ids. workflow_step_id H rid (bp_key (wd_steps d ! i)) = Inr (ids ! i)"
    using ids by (auto simp: collect_results_map_eq_Inr)
  obtain f where cs: "create_steps H r d (wd_steps d) files = (Inr (map2 (triggered_step r d) (wd_steps d) ids), f)"
    and f: "wf_definitions f = wf_definitions files"
      "\<forall>i < length ids. wf_steps f (ids ! i) = Some (triggered_step r d (wd_steps d ! i) (ids ! i))"
    using create_steps_ok [of H r "wd_steps d" ids d files] ids assms(5) r(1) by auto
  have "files' = f\<lparr>wf_runs := (wf_runs f)(rid \<mapsto> r)\<rparr>"
    using assms(1-3,6) cs r by (auto simp: execute_trigger_def load_definition_def load_record_def Let_def r_def)
  then have "run_files H rid d ids files' r (map2 (triggered_step r d) (wd_steps d) ids)"
    using f len sid assms(2,5) r by (auto simp: run_files_def triggered_step_def)
  moreover have "map step_view (map2 (triggered_step r d) (wd_steps d) ids) =
      map (\<lambda>b. (bp_requires_approval b, WsPending)) (wd_steps d)"
    using len by (intro nth_equalityI) (simp_all add: step_view_def triggered_step_def)
  ultimately show ?thesis using r(3) by blast
qed

section \<open>Which runs complete\<close>

text \<open>Pending steps come last, and a run whose first step is pending has not started.\<close>

definition view_inv :: "bool list \<Rightarrow> run_view \<Rightarrow> bool" where
  "view_inv reqs v \<longleftrightarrow>
     (case v of (rs, xs) \<Rightarrow>
        map fst xs = reqs \<and>
        (\<forall>i j. i < j \<longrightarrow> j < length xs \<longrightarrow> snd (xs ! i) = WsPending \<longrightarrow> snd (xs ! j) = WsPending) \<and>
        (xs \<noteq> [] \<longrightarrow> snd (xs ! 0) = WsPending \<longrightarrow> rs = WrPending) \<and>
        (rs = WrCompleted \<longrightarrow> all_approved xs \<and> 2 \<le> length reqs \<and> \<not> last reqs))"

lemma all_approved_nth: "all_approved xs \<longleftrightarrow> (\<forall>i < length xs. snd (xs ! i) = WsApproved)"
  by (simp add: all_approved_def list_all_length)

lemma position_first:
  "i < length xs \<Longrightarrow> P (xs ! i) \<Longrightarrow> \<forall>j < i. \<not> P (xs ! j) \<Longrightarrow> position P xs = Some i"
proof (induction xs arbitrary: i)
  case (Cons x xs)
  then show ?case
  proof (cases i)
    case (Suc k)
    moreover have "\<not> P x" using Cons.prems(3) Suc by (metis nth_Cons_0 zero_less_Suc)
    moreover have "position P xs = Some k"
      using Cons.prems Suc by (intro Cons.IH) (auto dest: spec [of _ "Suc _"])
    ultimately show ?thesis by simp
  qed simp
qed simp

lemma map_fst_update: "i < length xs \<Longrightarrow> map fst (xs[i := (fst (xs ! i), x)]) = map fst xs"
  by (simp add: map_update list_update_same_conv [THEN iffD2] nth_map)

lemma view_inv_complete:
  assumes inv: "view_inv reqs (rs, xs)"
  shows "view_inv reqs (snd (spec_complete (rs, xs)))"
proof (cases "position (\<lambda>x. snd x = WsPending) xs")
  case None
  with inv show ?thesis by (simp add: spec_complete_def)
next
  case (Some i)
  then have i: "i < length xs" "snd (xs ! i) = WsPending" using position_less by fastforce+
  show ?thesis
  proof (cases "all_approved (take i xs)")
    case False
    with Some inv show ?thesis by (simp add: spec_complete_def)
  next
    case True
    define ys where "ys = xs[i := completed_status (xs ! i)]"
    have fst: "map fst ys = reqs"
      using inv i(1) map_fst_update [of i xs] by (simp add: ys_def view_inv_def completed_status_def)
    have len: "length ys = length xs" by (simp add: ys_def)
    have app: "snd (xs ! j) = WsApproved" if "j < i" for j
      using True that i(1) by (auto simp: all_approved_nth)
    have later: "snd (xs ! j) = WsPending" if "i < j" "j < length xs" for j
      using inv that i by (auto simp: view_inv_def)
    have at: "snd (ys ! j) = (if j = i then (if fst (xs ! i) then WsCompleted else WsApproved) else snd (xs ! j))"
      if "j < length xs" for j using that i(1) by (simp add: ys_def completed_status_def nth_list_update)
    have order: "snd (ys ! k) = WsPending" if "j < k" "k < length ys" "snd (ys ! j) = WsPending" for j k
      using that len at [of j] at [of k] app [of j] later [of k] i
      by (cases "j < i"; cases "j = i"; cases "k = i") (auto split: if_splits)
    have zero: "snd (ys ! 0) \<noteq> WsPending" using at [of 0] app [of 0] i(1) by (cases "xs = []"; cases "i = 0") auto
    have fin: "2 \<le> length reqs \<and> \<not> last reqs" if all: "all_approved ys" and "rs = WrInProgress"
    proof -
      have "length xs - Suc 0 < length xs" using i(1) by simp
      then have last: "i = length xs - 1"
        using all later [of "length xs - 1"] at [of "length xs - 1"] len i(1)
        by (cases "i < length xs - 1") (auto simp: all_approved_nth)
      then have "\<not> fst (xs ! i)" using all at [of i] i(1) len by (auto simp: all_approved_nth)
      moreover have "xs \<noteq> []" and reqs: "reqs = map fst xs" using inv i(1) by (auto simp: view_inv_def)
      moreover from this have "last reqs = fst (xs ! i)" using last by (simp add: last_map last_conv_nth)
      moreover have "i \<noteq> 0" using inv that(2) i by (cases i) (auto simp: view_inv_def)
      ultimately show ?thesis using last reqs i(1) by auto
    qed
    have "rs \<noteq> WrCompleted" using inv i by (auto simp: view_inv_def all_approved_nth)
    then show ?thesis
      using Some True fst order zero fin len i(1)
      by (auto simp: spec_complete_def view_inv_def ys_def [symmetric] Let_def)
  qed
qed

lemma view_inv_approve:
  assumes inv: "view_inv reqs (rs, xs)"
  shows "view_inv reqs (snd (spec_approve (rs, xs)))"
proof (cases "position (\<lambda>x. snd x = WsCompleted) xs")
  case None
  with inv show ?thesis by (simp add: spec_approve_def)
next
  case (Some i)
  then have i: "i < length xs" "snd (xs ! i) = WsCompleted" using position_less by fastforce+
  define ys where "ys = xs[i := (fst (xs ! i), WsApproved)]"
  have at: "snd (ys ! j) = WsPending \<longleftrightarrow> snd (xs ! j) = WsPending" if "j < length xs" for j
    using i that by (auto simp: ys_def nth_list_update)
  have "map fst ys = reqs" using inv i(1) map_fst_update [of i xs] by (simp add: ys_def view_inv_def)
  moreover have "rs \<noteq> WrCompleted" using inv i by (auto simp: view_inv_def all_approved_nth)
  moreover have len: "length ys = length xs" "ys \<noteq> []" "xs \<noteq> []" using i(1) by (auto simp: ys_def)
  moreover have "snd (ys ! k) = WsPending" if "j < k" "k < length xs" "snd (ys ! j) = WsPending" for j k
    using inv that at [of j] at [of k] by (auto simp: view_inv_def)
  moreover have "snd (ys ! 0) = WsPending \<longrightarrow> rs = WrPending"
    using inv len at [of 0] by (auto simp: view_inv_def)
  ultimately show ?thesis using Some by (auto simp: spec_approve_def view_inv_def ys_def [symmetric])
qed

lemma view_inv_calls: "view_inv reqs v \<Longrightarrow> view_inv reqs (fold spec_call calls v)"
proof (induction calls arbitrary: v)
  case (Cons c calls)
  have "view_inv reqs (spec_call c v)"
    using Cons.prems view_inv_complete view_inv_approve by (cases v; cases c) simp_all
  then show ?case using Cons.IH by simp
qed simp

text \<open>The run after \<open>k\<close> steps were completed, and approved where required.\<close>

definition progressed :: "bool list \<Rightarrow> nat \<Rightarrow> run_view" where
  "progressed reqs k =
     (if k = 0 then WrPending else WrInProgress,
      map (\<lambda>j. (reqs ! j, if j < k then WsApproved else WsPending)) [0..<length reqs])"

lemma progressed_complete:
  assumes "k < length reqs"
  shows "spec_complete (progressed reqs k) =
    (let ys = (snd (progressed reqs k))[k := completed_status (reqs ! k, WsPending)] in
     if all_approved ys
     then (if k \<noteq> 0 then (True, WrCompleted, ys) else (False, WrPending, ys))
     else (True, WrInProgress, ys))"
proof -
  let ?xs = "snd (progressed reqs k)"
  have "position (\<lambda>x. snd x = WsPending) ?xs = Some k"
    by (rule position_first) (use assms in \<open>simp_all add: progressed_def\<close>)
  moreover have "all_approved (take k ?xs)"
    using assms by (auto simp: progressed_def all_approved_nth)
  moreover have "?xs ! k = (reqs ! k, WsPending)" using assms by (simp add: progressed_def)
  moreover have "progressed reqs k = (if k = 0 then WrPending else WrInProgress, ?xs)"
    by (simp add: progressed_def)
  ultimately show ?thesis
    by (cases "progressed reqs k") (auto simp: spec_complete_def Let_def)
qed

lemma progressed_step:
  assumes "Suc k < length reqs"
  shows "\<exists>calls. fold spec_call calls (progressed reqs k) = progressed reqs (Suc k)"
proof -
  define ys where "ys = (snd (progressed reqs k))[k := completed_status (reqs ! k, WsPending)]"
  have len: "length ys = length reqs" by (simp add: ys_def progressed_def)
  have at: "ys ! j = (reqs ! j, if j < k then WsApproved else
      if j = k then (if reqs ! k then WsCompleted else WsApproved) else WsPending)" if "j < length reqs" for j
    using that by (auto simp: ys_def progressed_def completed_status_def nth_list_update)
  have "\<not> all_approved ys" using at [of "Suc k"] assms len by (auto simp: all_approved_nth)
  then have first: "snd (spec_complete (progressed reqs k)) = (WrInProgress, ys)"
    using progressed_complete [of k reqs] assms by (simp add: ys_def Let_def)
  show ?thesis
  proof (cases "reqs ! k")
    case False
    have "ys = snd (progressed reqs (Suc k))"
      using at len False assms
      by (intro nth_equalityI) (auto simp: progressed_def less_Suc_eq)
    then have "fold spec_call [CallComplete 0 0] (progressed reqs k) = progressed reqs (Suc k)"
      using first by (simp add: progressed_def)
    then show ?thesis by blast
  next
    case True
    have pos: "position (\<lambda>x. snd x = WsCompleted) ys = Some k"
      by (rule position_first) (use assms at len True in auto)
    have "ys[k := (fst (ys ! k), WsApproved)] = snd (progressed reqs (Suc k))"
      using at len assms
      by (intro nth_equalityI) (auto simp: progressed_def nth_list_update less_Suc_eq)
    then have "fold spec_call [CallComplete 0 0, CallApprove 0] (progressed reqs k) = progressed reqs (Suc k)"
      using first pos by (simp add: spec_approve_def progressed_def)
    then show ?thesis by blast
  qed
qed

lemma progressed_reachable:
  "k < length reqs \<Longrightarrow> \<exists>calls. fold spec_call calls (progressed reqs 0) = progressed reqs k"
proof (induction k)
  case 0
  have "fold spec_call [] (progressed reqs 0) = progressed reqs 0" by simp
  then show ?case by blast
next
  case (Suc k)
  then obtain calls where "fold spec_call calls (progressed reqs 0) = progressed reqs k" by auto
  moreover obtain rest where "fold spec_call rest (progressed reqs k) = progressed reqs (Suc k)"
    using progressed_step [OF Suc.prems] by blast
  ultimately have "fold spec_call (calls @ rest) (progressed reqs 0) = progressed reqs (Suc k)" by simp
  then show ?case by blast
qed

lemma spec_completes_iff:
  "(\<exists>calls. fst (fold spec_call calls (progressed reqs 0)) = WrCompleted) \<longleftrightarrow>
    2 \<le> length reqs \<and> \<not> last reqs"
proof
  assume "\<exists>calls. fst (fold spec_call calls (progressed reqs 0)) = WrCompleted"
  then obtain calls where c: "fst (fold spec_call calls (progressed reqs 0)) = WrCompleted" ..
  have "view_inv reqs (progressed reqs 0)"
    by (auto simp: view_inv_def progressed_def intro: nth_equalityI)
  from view_inv_calls [OF this, of calls] c show "2 \<le> length reqs \<and> \<not> last reqs"
    by (auto simp: view_inv_def split: prod.splits)
next
  assume a: "2 \<le> length reqs \<and> \<not> last reqs"
  define k where "k = length reqs - 1"
  have k: "k < length reqs" "k \<noteq> 0" "\<not> reqs ! k"
    using a by (cases "reqs = []"; auto simp: k_def last_conv_nth)+
  obtain calls where calls: "fold spec_call calls (progressed reqs 0) = progressed reqs k"
    using progressed_reachable [OF k(1)] by blast
  have "all_approved ((snd (progressed reqs k))[k := completed_status (reqs ! k, WsPending)])"
    using k by (auto simp: all_approved_nth progressed_def completed_status_def nth_list_update k_def)
  then have "fst (snd (spec_complete (progressed reqs k))) = WrCompleted"
    using progressed_complete [OF k(1)] k(2) by (simp add: Let_def)
  then have "fst (fold spec_call (calls @ [CallComplete 0 0]) (progressed reqs 0)) = WrCompleted"
    using calls by simp
  then show "\<exists>calls. fst (fold spec_call calls (progressed reqs 0)) = WrCompleted" by blast
qed

lemma triggered_step_ids:
  fixes bs :: "WorkflowStepBlueprint list"
  assumes "sha256_law H" and "distinct (map (\<lambda>b. workflow_step_id H rid (bp_key b)) bs)"
  shows "\<exists>ids. collect_results (map (\<lambda>b. workflow_step_id H rid (bp_key b)) bs) = Inr ids \<and> distinct ids"
proof -
  define f where "f b = projr (workflow_step_id H rid (bp_key b))" for b :: WorkflowStepBlueprint
  have f: "workflow_step_id H rid (bp_key b) = Inr (f b)" for b :: WorkflowStepBlueprint
    using workflow_step_id_ok [OF assms(1)] by (simp add: f_def)
  have "distinct (map f bs)" using assms(2) by (simp add: f distinct_map inj_on_def)
  moreover have "collect_results (map (\<lambda>b. workflow_step_id H rid (bp_key b)) bs) = Inr (map f bs)"
    by (simp add: f collect_results_map_eq_Inr)
  ultimately show ?thesis by blast
qed

text \<open>
  C30: The step handlers implement the specification. Starting from a triggered workflow,
  whatever calls of workflow.step_complete and workflow.approve a human makes, the stored run
  and its stored steps are those of the specification after the same calls: steps complete in
  order, a step waits for the approval of the earlier ones, and the status of the run follows.
\<close>

theorem workflow_calls_refine:
  assumes "sha256_law H" and "parse_id H tinput ''workflow_id'' = Inr did"
    and "wf_definitions files did = Some d" and "wd_id d = did"
    and "distinct (map (\<lambda>b. workflow_step_id H rid (bp_key b)) (wd_steps d))"
    and "execute_trigger H rid now tinput files = (res, files')"
    and "parse_id H input ''run_id'' = Inr rid" and "ctx_principal_kind ctx = Some Human"
  shows "\<exists>r steps. load_run H input (run_calls H ctx input calls files') = Inr (r, steps) \<and>
    (wr_status r, map step_view steps) =
      fold spec_call calls (WrPending, map (\<lambda>b. (bp_requires_approval b, WsPending)) (wd_steps d))"
proof -
  obtain ids where ids: "collect_results (map (\<lambda>b. workflow_step_id H rid (bp_key b)) (wd_steps d)) = Inr ids"
    "distinct ids" using triggered_step_ids [OF assms(1,5)] by blast
  have names: "names_run H input rid" using assms(7) by (simp add: names_run_def)
  obtain r steps where "run_files H rid d ids files' r steps" "wr_status r = WrPending"
    "map step_view steps = map (\<lambda>b. (bp_requires_approval b, WsPending)) (wd_steps d)"
    using trigger_files [OF assms(2-4) ids assms(6)] by blast
  with run_calls_refines [OF this(1) names assms(8), of calls] load_run_ok [OF _ names]
  show ?thesis by metis
qed

text \<open>
  C31: Which runs can complete. A triggered run can be brought to completion by some sequence
  of calls exactly when its definition has at least two steps and its last step does not
  require approval: approving a step never moves the run, and a run that is still pending is
  refused the transition to completed.
\<close>

theorem workflow_completes_iff:
  assumes "sha256_law H" and "parse_id H tinput ''workflow_id'' = Inr did"
    and "wf_definitions files did = Some d" and "wd_id d = did"
    and "distinct (map (\<lambda>b. workflow_step_id H rid (bp_key b)) (wd_steps d))"
    and "execute_trigger H rid now tinput files = (res, files')"
    and "parse_id H input ''run_id'' = Inr rid" and "ctx_principal_kind ctx = Some Human"
  shows "(\<exists>calls r. wf_runs (run_calls H ctx input calls files') rid = Some r \<and> wr_status r = WrCompleted) \<longleftrightarrow>
    2 \<le> length (wd_steps d) \<and> \<not> bp_requires_approval (last (wd_steps d))"
proof -
  obtain ids where ids: "collect_results (map (\<lambda>b. workflow_step_id H rid (bp_key b)) (wd_steps d)) = Inr ids"
    "distinct ids" using triggered_step_ids [OF assms(1,5)] by blast
  have names: "names_run H input rid" using assms(7) by (simp add: names_run_def)
  define reqs where "reqs = map bp_requires_approval (wd_steps d)"
  obtain r steps where f: "run_files H rid d ids files' r steps" "wr_status r = WrPending"
    "map step_view steps = map (\<lambda>b. (bp_requires_approval b, WsPending)) (wd_steps d)"
    using trigger_files [OF assms(2-4) ids assms(6)] by blast
  have start: "(wr_status r, map step_view steps) = progressed reqs 0"
    unfolding f(2,3) by (auto simp: progressed_def reqs_def intro: nth_equalityI)
  have status: "(\<exists>r. wf_runs (run_calls H ctx input calls files') rid = Some r \<and> wr_status r = WrCompleted) \<longleftrightarrow>
      fst (fold spec_call calls (progressed reqs 0)) = WrCompleted" for calls
  proof -
    obtain r' steps' where "run_files H rid d ids (run_calls H ctx input calls files') r' steps'"
      "fold spec_call calls (progressed reqs 0) = (wr_status r', map step_view steps')"
      using run_calls_refines [OF f(1) names assms(8), of calls] start by auto
    then show ?thesis by (auto simp: run_files_def)
  qed
  have "2 \<le> length reqs \<and> \<not> last reqs \<longleftrightarrow>
      2 \<le> length (wd_steps d) \<and> \<not> bp_requires_approval (last (wd_steps d))"
    by (cases "wd_steps d = []") (simp_all add: reqs_def last_map)
  then show ?thesis using spec_completes_iff [of reqs] by (simp add: status)
qed

section \<open>A sample workflow\<close>

definition sample_definition :: WorkflowDefinition where
  "sample_definition =
     \<lparr> wd_id = 3, wd_name = ''release'', wd_description = [],
       wd_steps = [\<lparr> bp_key = ''a'', bp_name = ''build'', bp_requires_approval = True \<rparr>,
                   \<lparr> bp_key = ''bb'', bp_name = ''ship'', bp_requires_approval = False \<rparr>],
       wd_created_at = 0, wd_updated_at = 0 \<rparr>"

definition sample_files :: WorkflowFiles where
  "sample_files = \<lparr> wf_definitions = [3 \<mapsto> sample_definition], wf_runs = (\<lambda>_. None), wf_steps = (\<lambda>_. None) \<rparr>"

definition sample_human_context :: ExecutionContext where
  "sample_human_context = (undefined :: ExecutionContext)\<lparr>ctx_principal_kind := Some Human\<rparr>"

definition sample_input :: "string \<Rightarrow> string \<Rightarrow> json" where
  "sample_input key text = jobject [(key, JString text)]"

lemma sample_parse:
  "parse_id sample_host (sample_input ''workflow_id'' ''3'') ''workflow_id'' = Inr 3"
  "parse_id sample_host (sample_input ''run_id'' ''5'') ''run_id'' = Inr 5"
  by (simp_all add: parse_id_def sample_input_def jobject_def json_get_def json_as_str_def sample_host_def
      dec_value_def)

lemma sample_files_defs: "wf_definitions sample_files 3 = Some sample_definition" "wd_id sample_definition = 3"
  "ctx_principal_kind sample_human_context = Some Human"
  by (simp_all add: sample_files_def sample_definition_def sample_human_context_def)

lemma replicate_numeral_0: "replicate 15 (0 :: u8) = [0,0,0,0,0,0,0,0,0,0,0,0,0,0,0]"
  by (simp add: eval_nat_numeral)

lemma sample_ids:
  "distinct (map (\<lambda>b. workflow_step_id sample_host 5 (bp_key b)) (wd_steps sample_definition))"
  unfolding workflow_step_id_ok [OF sample_sha256_law]
  by (simp add: sample_definition_def jobject_def json_uuid_def
      sample_host_def sample_quote_def sample_escape_def render_member_def uuid_from_bytes_def
      show_nat.simps [of 5] digit_char_def replicate_numeral_0)

lemma sample_trigger:
  "execute_trigger sample_host 5 0 (sample_input ''workflow_id'' ''3'') sample_files =
   (fst (execute_trigger sample_host 5 0 (sample_input ''workflow_id'' ''3'') sample_files),
    snd (execute_trigger sample_host 5 0 (sample_input ''workflow_id'' ''3'') sample_files))"
  by simp

lemmas sample_workflow = sample_sha256_law sample_parse(1) sample_files_defs(1,2) sample_ids sample_trigger
  sample_parse(2) sample_files_defs(3)

theorem workflow_calls_refine_witness:
  "\<exists>r steps. load_run sample_host (sample_input ''run_id'' ''5'')
       (run_calls sample_host sample_human_context (sample_input ''run_id'' ''5'') [CallComplete 1 1, CallApprove 2]
          (snd (execute_trigger sample_host 5 0 (sample_input ''workflow_id'' ''3'') sample_files))) = Inr (r, steps) \<and>
     wr_status r = WrInProgress \<and> map step_view steps = [(True, WsApproved), (False, WsPending)]"
  using workflow_calls_refine [OF sample_workflow, of "[CallComplete 1 1, CallApprove 2]"]
  by (simp add: sample_definition_def spec_complete_def spec_approve_def all_approved_def completed_status_def Let_def)

theorem workflow_completes_iff_witness:
  "\<exists>calls r. wf_runs (run_calls sample_host sample_human_context (sample_input ''run_id'' ''5'') calls
      (snd (execute_trigger sample_host 5 0 (sample_input ''workflow_id'' ''3'') sample_files))) 5 = Some r \<and>
     wr_status r = WrCompleted"
  by (subst workflow_completes_iff [OF sample_workflow]) (simp add: sample_definition_def)

end
