(* ===== verification/Commerce.thy ===== *)
theory Commerce
  imports Handlers
begin

text \<open>
  The commerce operations and the fulfillment pipeline built on them:
  \<^verbatim>\<open>crates/proof-commerce/src/models.rs\<close>, \<^verbatim>\<open>handlers.rs\<close> and
  \<^verbatim>\<open>fulfillment.rs\<close>. The workspace is the two directories of JSON files the crate keeps,
  beside a clock and a source of identifiers: the \<open>n\<close>-th reading is a function of \<open>n\<close>. A
  call takes its readings first, whether or not it comes to use them.
\<close>

section \<open>Data\<close>

datatype OrderStatus = OrdPending | OrdApproved | OrdFulfilled

record Catalog =
  cat_id :: uuid
  cat_name :: string
  cat_description :: string
  cat_created_at :: utc
  cat_updated_at :: utc

record Product =
  prod_id :: uuid
  prod_catalog_id :: uuid
  prod_name :: string
  prod_created_at :: utc

record OrderLine =
  line_catalog_id :: uuid
  line_name :: string
  line_quantity :: u32

record Order =
  ord_id :: uuid
  ord_lines :: "OrderLine list"
  ord_status :: OrderStatus
  ord_created_at :: utc
  ord_updated_at :: utc

record CommerceWorld =
  cw_catalogs :: "uuid \<Rightarrow> Catalog option"
  cw_orders :: "uuid \<Rightarrow> Order option"
  cw_clock :: "nat \<Rightarrow> utc"
  cw_fresh :: "nat \<Rightarrow> uuid"
  cw_drawn :: nat

subsection \<open>Serialization\<close>

fun order_status_text :: "OrderStatus \<Rightarrow> string" where
  "order_status_text OrdPending = ''pending''"
| "order_status_text OrdApproved = ''approved''"
| "order_status_text OrdFulfilled = ''fulfilled''"

fun order_status_debug :: "OrderStatus \<Rightarrow> string" where
  "order_status_debug OrdPending = ''Pending''"
| "order_status_debug OrdApproved = ''Approved''"
| "order_status_debug OrdFulfilled = ''Fulfilled''"

definition json_u32 :: "u32 \<Rightarrow> json" where
  "json_u32 n = JNumber (PosInt (ucast n))"

definition catalog_json :: "host \<Rightarrow> Catalog \<Rightarrow> json" where
  "catalog_json H c = jobject
     [(''id'', json_uuid H (cat_id c)), (''name'', JString (cat_name c)),
      (''description'', JString (cat_description c)),
      (''created_at'', json_utc H (cat_created_at c)), (''updated_at'', json_utc H (cat_updated_at c))]"

definition order_line_json :: "host \<Rightarrow> OrderLine \<Rightarrow> json" where
  "order_line_json H l = jobject
     [(''catalog_id'', json_uuid H (line_catalog_id l)), (''name'', JString (line_name l)),
      (''quantity'', json_u32 (line_quantity l))]"

definition order_json :: "host \<Rightarrow> Order \<Rightarrow> json" where
  "order_json H r = jobject
     [(''id'', json_uuid H (ord_id r)), (''lines'', JArray (map (order_line_json H) (ord_lines r))),
      (''status'', JString (order_status_text (ord_status r))),
      (''created_at'', json_utc H (ord_created_at r)), (''updated_at'', json_utc H (ord_updated_at r))]"

text \<open>
  The digest of a value given as its JSON. The values digested hold no floats, and
  \<^const>\<open>render\<close> is \<open>serde_json::to_string\<close> on those; re-inserting the members of an
  object changes nothing.
\<close>

definition commerce_digest :: "host \<Rightarrow> json \<Rightarrow> string" where
  "commerce_digest H v = ''sha256:'' @ digest_hex (ContentDigest (host_sha256 H (render H v)))"

section \<open>Models\<close>

fun can_transition_to :: "OrderStatus \<Rightarrow> OrderStatus \<Rightarrow> bool" where
  "can_transition_to OrdPending OrdApproved = True"
| "can_transition_to OrdApproved OrdFulfilled = True"
| "can_transition_to _ _ = False"

definition catalog_new :: "uuid \<Rightarrow> utc \<Rightarrow> string \<Rightarrow> string \<Rightarrow> string + Catalog" where
  "catalog_new fresh now name description =
     (if trim_is_empty name then Inl ''name must not be empty''
      else Inr \<lparr> cat_id = fresh, cat_name = name, cat_description = description,
                 cat_created_at = now, cat_updated_at = now \<rparr>)"

definition catalog_update :: "utc \<Rightarrow> utc \<Rightarrow> string option \<Rightarrow> string option \<Rightarrow> Catalog \<Rightarrow> string + Catalog" where
  "catalog_update now1 now2 name description c =
     bindR (case name of
              None \<Rightarrow> Inr c
            | Some n \<Rightarrow>
                if trim_is_empty n then Inl ''name must not be empty''
                else Inr (c\<lparr>cat_name := n, cat_updated_at := now1\<rparr>)) (\<lambda>c1.
       Inr (case description of
              None \<Rightarrow> c1
            | Some d \<Rightarrow> c1\<lparr>cat_description := d, cat_updated_at := now2\<rparr>))"

definition product_new :: "uuid \<Rightarrow> utc \<Rightarrow> uuid \<Rightarrow> string \<Rightarrow> string + Product" where
  "product_new fresh now catalog_id name =
     (if trim_is_empty name then Inl ''name must not be empty''
      else Inr \<lparr> prod_id = fresh, prod_catalog_id = catalog_id, prod_name = name, prod_created_at = now \<rparr>)"

definition order_line_new :: "uuid \<Rightarrow> string \<Rightarrow> u32 \<Rightarrow> string + OrderLine" where
  "order_line_new catalog_id name quantity =
     (if trim_is_empty name then Inl ''name must not be empty''
      else if quantity = 0 then Inl ''quantity must be at least 1''
      else Inr \<lparr> line_catalog_id = catalog_id, line_name = name, line_quantity = quantity \<rparr>)"

definition order_new :: "uuid \<Rightarrow> utc \<Rightarrow> OrderLine list \<Rightarrow> string + Order" where
  "order_new fresh now lines =
     (if lines = [] then Inl ''order must contain at least one line''
      else Inr \<lparr> ord_id = fresh, ord_lines = lines, ord_status = OrdPending,
                 ord_created_at = now, ord_updated_at = now \<rparr>)"

definition order_transition_to :: "utc \<Rightarrow> OrderStatus \<Rightarrow> Order \<Rightarrow> string + Order" where
  "order_transition_to now target r =
     (if \<not> can_transition_to (ord_status r) target
      then Inl (''invalid order transition from '' @ order_status_debug (ord_status r)
                @ '' to '' @ order_status_debug target)
      else Inr (r\<lparr>ord_status := target, ord_updated_at := now\<rparr>))"

section \<open>Handlers\<close>

text \<open>The next reading of the clock and the identifier drawn with it.\<close>

definition drawing :: "(utc \<Rightarrow> uuid \<Rightarrow> CommerceWorld \<Rightarrow> 'a \<times> CommerceWorld) \<Rightarrow> CommerceWorld
    \<Rightarrow> 'a \<times> CommerceWorld" where
  "drawing f w = f (cw_clock w (cw_drawn w)) (cw_fresh w (cw_drawn w)) (w\<lparr>cw_drawn := Suc (cw_drawn w)\<rparr>)"

definition text_field :: "json \<Rightarrow> string \<Rightarrow> string option" where
  "text_field v k = Option.bind (json_get v k) json_as_str"

definition execute_catalog_create :: "host \<Rightarrow> json \<Rightarrow> CommerceWorld \<Rightarrow> (engine_error + json) \<times> CommerceWorld" where
  "execute_catalog_create H input = drawing (\<lambda>now fresh w.
     case bindR (ok_or (input_error ''missing required field: name'') (text_field input ''name'')) (\<lambda>name.
            map_err input_error (catalog_new fresh now name
              (case text_field input ''description'' of None \<Rightarrow> [] | Some d \<Rightarrow> d))) of
       Inl e \<Rightarrow> (Inl e, w)
     | Inr c \<Rightarrow>
         (Inr (jobject
            [(''catalog_id'', json_uuid H (cat_id c)), (''name'', JString (cat_name c)),
             (''description'', JString (cat_description c)),
             (''created_at'', json_utc H (cat_created_at c)),
             (''content_digest'', JString (commerce_digest H (catalog_json H c)))]),
          w\<lparr>cw_catalogs := (cw_catalogs w)(cat_id c \<mapsto> c)\<rparr>))"

definition execute_catalog_update :: "host \<Rightarrow> json \<Rightarrow> CommerceWorld \<Rightarrow> (engine_error + json) \<times> CommerceWorld" where
  "execute_catalog_update H input = drawing (\<lambda>now1 _. drawing (\<lambda>now2 _ w.
     case bindR (parse_id H input ''catalog_id'') (\<lambda>catalog_id.
          bindR (load_record H ''catalog'' (cw_catalogs w) catalog_id) (\<lambda>c.
            map_err input_error (catalog_update now1 now2 (text_field input ''name'')
              (text_field input ''description'') c))) of
       Inl e \<Rightarrow> (Inl e, w)
     | Inr c \<Rightarrow>
         (Inr (jobject
            [(''catalog_id'', json_uuid H (cat_id c)), (''name'', JString (cat_name c)),
             (''description'', JString (cat_description c)),
             (''updated_at'', json_utc H (cat_updated_at c)),
             (''content_digest'', JString (commerce_digest H (catalog_json H c)))]),
          w\<lparr>cw_catalogs := (cw_catalogs w)(cat_id c \<mapsto> c)\<rparr>)))"

text \<open>\<open>OrderLineInput\<close> as serde reads it, from an object or from an array in field order.\<close>

definition json_to_u32 :: "json \<Rightarrow> u32 option" where
  "json_to_u32 v =
     (case v of
        JNumber n \<Rightarrow> Option.bind (number_as_u64 n) (\<lambda>k. if k < 2 ^ 32 then Some (of_nat k) else None)
      | _ \<Rightarrow> None)"

definition line_fields :: "json \<Rightarrow> (json \<times> json \<times> json) option" where
  "line_fields v =
     (case v of
        JObject kvs \<Rightarrow>
          Option.bind (map_of kvs ''catalog_id'') (\<lambda>c.
          Option.bind (map_of kvs ''name'') (\<lambda>n.
          map_option (\<lambda>q. (c, n, q)) (map_of kvs ''quantity'')))
      | JArray vs \<Rightarrow> if length vs = 3 then Some (vs ! 0, vs ! 1, vs ! 2) else None
      | _ \<Rightarrow> None)"

definition parse_line :: "host \<Rightarrow> (json \<Rightarrow> string) \<Rightarrow> json \<Rightarrow> engine_error + OrderLine" where
  "parse_line H serde_error raw_line =
     bindR (ok_or (input_error (''invalid order line: '' @ serde_error raw_line))
              (Option.bind (line_fields raw_line) (\<lambda>(c, n, q).
               Option.bind (json_to_uuid H c) (\<lambda>catalog_id.
               Option.bind (json_as_str n) (\<lambda>name.
               map_option (\<lambda>quantity. (catalog_id, name, quantity)) (json_to_u32 q))))))
       (\<lambda>(catalog_id, name, quantity). map_err input_error (order_line_new catalog_id name quantity))"

definition execute_order_create :: "host \<Rightarrow> (json \<Rightarrow> string) \<Rightarrow> json \<Rightarrow> CommerceWorld
    \<Rightarrow> (engine_error + json) \<times> CommerceWorld" where
  "execute_order_create H serde_error input = drawing (\<lambda>now fresh w.
     case bindR (ok_or (input_error ''missing required field: lines'')
                   (Option.bind (json_get input ''lines'') json_as_array)) (\<lambda>raw_lines.
          bindR (collect_results (map (parse_line H serde_error) raw_lines)) (\<lambda>lines.
            map_err input_error (order_new fresh now lines))) of
       Inl e \<Rightarrow> (Inl e, w)
     | Inr r \<Rightarrow>
         (Inr (jobject
            [(''order_id'', json_uuid H (ord_id r)),
             (''lines'', JArray (map (order_line_json H) (ord_lines r))),
             (''status'', JString (order_status_text (ord_status r))),
             (''created_at'', json_utc H (ord_created_at r)),
             (''content_digest'', JString (commerce_digest H (order_json H r)))]),
          w\<lparr>cw_orders := (cw_orders w)(ord_id r \<mapsto> r)\<rparr>))"

definition execute_order_transition :: "host \<Rightarrow> OrderStatus \<Rightarrow> json \<Rightarrow> CommerceWorld
    \<Rightarrow> (engine_error + json) \<times> CommerceWorld" where
  "execute_order_transition H target input = drawing (\<lambda>now _ w.
     case bindR (parse_id H input ''order_id'') (\<lambda>order_id.
          bindR (load_record H ''order'' (cw_orders w) order_id) (\<lambda>r.
            map_err input_error (order_transition_to now target r))) of
       Inl e \<Rightarrow> (Inl e, w)
     | Inr r \<Rightarrow>
         (let at = (\<lambda>label. jobject
            [(''order_id'', json_uuid H (ord_id r)),
             (''status'', JString (order_status_text (ord_status r))),
             (label, json_utc H (ord_updated_at r)),
             (''content_digest'', JString (commerce_digest H (order_json H r)))])
          in case target of
               OrdApproved \<Rightarrow> Inr (at ''approved_at'')
             | OrdFulfilled \<Rightarrow> Inr (at ''fulfilled_at'')
             | OrdPending \<Rightarrow> Inl (input_error ''unsupported order transition''),
          w\<lparr>cw_orders := (cw_orders w)(ord_id r \<mapsto> r)\<rparr>))"

definition execute_order_approve :: "host \<Rightarrow> json \<Rightarrow> CommerceWorld \<Rightarrow> (engine_error + json) \<times> CommerceWorld" where
  "execute_order_approve H = execute_order_transition H OrdApproved"

definition execute_order_fulfill :: "host \<Rightarrow> json \<Rightarrow> CommerceWorld \<Rightarrow> (engine_error + json) \<times> CommerceWorld" where
  "execute_order_fulfill H = execute_order_transition H OrdFulfilled"

definition commerce_handlers :: "host \<Rightarrow> schema_env \<Rightarrow> CommerceWorld OperationHandler list" where
  "commerce_handlers H env =
     [generic_handler H env ''proof-commerce'' ''catalog.create'' ''commerce/catalog-create.input.json''
        (\<lambda>input _. execute_catalog_create H input),
      generic_handler H env ''proof-commerce'' ''catalog.update'' ''commerce/catalog-update.input.json''
        (\<lambda>input _. execute_catalog_update H input),
      generic_handler H env ''proof-commerce'' ''order.create'' ''commerce/order-create.input.json''
        (\<lambda>input _. execute_order_create H (env_serde_error env) input),
      generic_handler H env ''proof-commerce'' ''order.approve'' ''commerce/order-approve.input.json''
        (\<lambda>input _. execute_order_approve H input),
      generic_handler H env ''proof-commerce'' ''order.fulfill'' ''commerce/order-fulfill.input.json''
        (\<lambda>input _. execute_order_fulfill H input)]"

section \<open>The fulfillment pipeline\<close>

record OrderEvidence =
  oe_operation :: string
  oe_order_id :: uuid
  oe_status :: OrderStatus
  oe_content_digest :: string
  oe_record_digest :: "string option"
  oe_proof :: Proof

record FulfillmentManifest =
  fm_order_id :: uuid
  fm_fulfillment_digest :: string
  fm_evidence :: "OrderEvidence list"

record FulfillmentPipelineOutput =
  fo_order :: Order
  fo_manifest :: FulfillmentManifest
  fo_evidence_proofs :: "Proof list"

definition order_evidence_json :: "host \<Rightarrow> OrderEvidence \<Rightarrow> json" where
  "order_evidence_json H e = jobject
     ([(''operation'', JString (oe_operation e)), (''order_id'', json_uuid H (oe_order_id e)),
       (''status'', JString (order_status_text (oe_status e))),
       (''content_digest'', JString (oe_content_digest e))]
      @ (case oe_record_digest e of None \<Rightarrow> [] | Some d \<Rightarrow> [(''record_digest'', JString d)])
      @ [(''proof'', proof_json H (oe_proof e))])"

definition create_order_input :: "host \<Rightarrow> OrderLine list \<Rightarrow> json" where
  "create_order_input H lines = jobject [(''lines'', JArray (map (order_line_json H) lines))]"

text \<open>The call of a step; the engine draws its two identifiers from \<open>draw\<close>.\<close>

definition execute_step :: "host \<Rightarrow> ('s, CommerceWorld) ExecutionEngine \<Rightarrow> (nat \<Rightarrow> uuid) \<Rightarrow> nat \<Rightarrow> string
    \<Rightarrow> json \<Rightarrow> ExecutionContext \<Rightarrow> 's \<times> CommerceWorld \<Rightarrow> (engine_error + json) \<times> 's \<times> CommerceWorld" where
  "execute_step H eng draw k operation input context sw =
     execute H eng
       \<lparr> call_operation = operation, call_version = ''v1'', call_input = input, call_context = context,
         call_approval = None, call_evidence_required = False,
         call_claim_token = draw (2 * k), call_proof_id = draw (2 * k + 1) \<rparr> sw"

definition order_evidence :: "host \<Rightarrow> Keypair \<Rightarrow> uuid \<Rightarrow> string \<Rightarrow> Order \<Rightarrow> json \<Rightarrow> ExecutionContext
    \<Rightarrow> engine_error + OrderEvidence" where
  "order_evidence H keypair fresh operation r input context =
     bindR (map_err (\<lambda>error. Raise (EvidenceFailed (proof_error_text error)))
              (create_proof H fresh (ctx_actor context) (ctx_delegation_id context)
                 (operation @ ''::v1'') input (order_json H r) (ctx_timestamp context) keypair)) (\<lambda>p.
       Inr \<lparr> oe_operation = operation, oe_order_id = ord_id r, oe_status = ord_status r,
             oe_content_digest = commerce_digest H (order_json H r),
             oe_record_digest = Some (commerce_digest H (order_json H r)), oe_proof = p \<rparr>)"

definition load_order :: "host \<Rightarrow> CommerceWorld \<Rightarrow> uuid \<Rightarrow> engine_error + Order" where
  "load_order H w order_id = load_record H ''order'' (cw_orders w) order_id"

definition created_order_id :: "host \<Rightarrow> json \<Rightarrow> engine_error + uuid" where
  "created_order_id H created =
     bindR (ok_or (input_error ''handler returned no order_id'')
              (Option.bind (Option.bind (json_get created ''data'') (\<lambda>d. json_get d ''order_id'')) json_as_str))
       (\<lambda>text. ok_or (input_error (''invalid order_id: '' @ host_uuid_error H text)) (host_parse_uuid H text))"

text \<open>The pipeline's own copy of the order moves on, at its own reading of the clock.\<close>

definition local_transition :: "string \<Rightarrow> OrderStatus \<Rightarrow> Order \<Rightarrow> 's \<times> CommerceWorld
    \<Rightarrow> (engine_error + Order) \<times> 's \<times> CommerceWorld" where
  "local_transition label target r sw =
     (case drawing (\<lambda>now _ w. (map_err (\<lambda>error. input_error (label @ '' produced invalid order: '' @ error))
                                 (order_transition_to now target r), w)) (snd sw) of
        (x, w) \<Rightarrow> (x, fst sw, w))"

definition manifest_of :: "host \<Rightarrow> Order \<Rightarrow> OrderEvidence list \<Rightarrow> FulfillmentPipelineOutput" where
  "manifest_of H r es =
     \<lparr> fo_order = r,
       fo_manifest = \<lparr> fm_order_id = ord_id r,
                       fm_fulfillment_digest = commerce_digest H (JArray (map (order_evidence_json H) es)),
                       fm_evidence = es \<rparr>,
       fo_evidence_proofs = map oe_proof es \<rparr>"

definition fulfill :: "host \<Rightarrow> ('s, CommerceWorld) ExecutionEngine \<Rightarrow> Keypair \<Rightarrow> (nat \<Rightarrow> uuid) \<Rightarrow> OrderLine list
    \<Rightarrow> ExecutionContext \<Rightarrow> 's \<times> CommerceWorld
    \<Rightarrow> (engine_error + FulfillmentPipelineOutput) \<times> 's \<times> CommerceWorld" where
  "fulfill H eng keypair draw lines context sw =
     bindE (execute_step H eng draw 0 ''order.create'' (create_order_input H lines) context sw) (\<lambda>created sw1.
     bindE (bindR (created_order_id H created) (load_order H (snd sw1)), sw1) (\<lambda>r sw2.
     let order_input = jobject [(''order_id'', json_uuid H (ord_id r))] in
     bindE (execute_step H eng draw 1 ''order.approve'' order_input context sw2) (\<lambda>_ sw3.
     bindE (local_transition ''approval'' OrdApproved r sw3) (\<lambda>r1 sw4.
     bindE (execute_step H eng draw 2 ''order.fulfill'' order_input context sw4) (\<lambda>_ sw5.
     bindE (local_transition ''fulfillment'' OrdFulfilled r1 sw5) (\<lambda>r2 sw6.
       (bindR (order_evidence H keypair (draw 6) ''order.create'' r2 (create_order_input H lines) context) (\<lambda>e1.
        bindR (order_evidence H keypair (draw 7) ''order.approve'' r2 order_input context) (\<lambda>e2.
        bindR (order_evidence H keypair (draw 8) ''order.fulfill'' r2 order_input context) (\<lambda>e3.
          Inr (manifest_of H r2 [e1, e2, e3])))), sw6)))))))"

definition check_evidence :: "host \<Rightarrow> Order \<Rightarrow> string \<times> OrderEvidence \<Rightarrow> engine_error + unit" where
  "check_evidence H r x =
     (case x of (expected, e) \<Rightarrow>
        if oe_operation e \<noteq> expected \<or> oe_order_id e \<noteq> ord_id r
        then Inl (input_error (''invalid evidence for '' @ expected))
        else if oe_content_digest e \<noteq> commerce_digest H (order_json H r)
        then Inl (input_error (''content digest mismatch for '' @ expected))
        else Inr ())"

definition verify_fulfillment :: "host \<Rightarrow> FulfillmentManifest \<Rightarrow> Order \<Rightarrow> engine_error + unit" where
  "verify_fulfillment H m r =
     (if fm_order_id m \<noteq> ord_id r then Inl (input_error ''manifest and order ids differ'')
      else if length (fm_evidence m) \<noteq> 3
      then Inl (input_error ''manifest must contain create, approve, and fulfill evidence'')
      else bindR (collect_results (map (check_evidence H r)
                    (zip [''order.create'', ''order.approve'', ''order.fulfill''] (fm_evidence m))))
             (\<lambda>_. Inr ()))"

section \<open>Sequences of calls\<close>

datatype commerce_op =
    CatalogCreate json
  | CatalogUpdate json
  | OrderCreate json
  | OrderApprove json
  | OrderFulfill json

fun commerce_call :: "host \<Rightarrow> (json \<Rightarrow> string) \<Rightarrow> commerce_op \<Rightarrow> CommerceWorld
    \<Rightarrow> (engine_error + json) \<times> CommerceWorld" where
  "commerce_call H se (CatalogCreate input) w = execute_catalog_create H input w"
| "commerce_call H se (CatalogUpdate input) w = execute_catalog_update H input w"
| "commerce_call H se (OrderCreate input) w = execute_order_create H se input w"
| "commerce_call H se (OrderApprove input) w = execute_order_approve H input w"
| "commerce_call H se (OrderFulfill input) w = execute_order_fulfill H input w"

definition commerce_calls :: "host \<Rightarrow> (json \<Rightarrow> string) \<Rightarrow> commerce_op list \<Rightarrow> CommerceWorld \<Rightarrow> CommerceWorld" where
  "commerce_calls H se ops w = fold (\<lambda>op. snd \<circ> commerce_call H se op) ops w"

text \<open>The calls of a sequence that succeed in moving the order \<open>i\<close>.\<close>

fun order_named :: "host \<Rightarrow> commerce_op \<Rightarrow> uuid option" where
  "order_named H (OrderApprove input) = (case parse_id H input ''order_id'' of Inr i \<Rightarrow> Some i | Inl _ \<Rightarrow> None)"
| "order_named H (OrderFulfill input) = (case parse_id H input ''order_id'' of Inr i \<Rightarrow> Some i | Inl _ \<Rightarrow> None)"
| "order_named H _ = None"

fun order_moves :: "host \<Rightarrow> (json \<Rightarrow> string) \<Rightarrow> uuid \<Rightarrow> commerce_op list \<Rightarrow> CommerceWorld \<Rightarrow> commerce_op list" where
  "order_moves H se i [] w = []"
| "order_moves H se i (op # ops) w =
     (if order_named H op = Some i \<and> is_ok (fst (commerce_call H se op w)) then [op] else [])
     @ order_moves H se i ops (snd (commerce_call H se op w))"

fun order_rank :: "OrderStatus \<Rightarrow> nat" where
  "order_rank OrdPending = 0"
| "order_rank OrdApproved = 1"
| "order_rank OrdFulfilled = 2"

text \<open>
  Each order is stored under its own identifier, and the identifiers still to be drawn up to
  the \<open>N\<close>-th are new and different.
\<close>

definition commerce_ok :: "nat \<Rightarrow> CommerceWorld \<Rightarrow> bool" where
  "commerce_ok N w \<longleftrightarrow>
     (\<forall>i r. cw_orders w i = Some r \<longrightarrow> ord_id r = i) \<and> inj_on (cw_fresh w) {cw_drawn w..<N} \<and>
     (\<forall>n. cw_drawn w \<le> n \<longrightarrow> n < N \<longrightarrow> cw_orders w (cw_fresh w n) = None)"

section \<open>Lemmas\<close>

text \<open>What a call does to the workspace: nothing when it fails.\<close>

lemma drawing_eq:
  "drawing f w = f (cw_clock w (cw_drawn w)) (cw_fresh w (cw_drawn w)) (w\<lparr>cw_drawn := Suc (cw_drawn w)\<rparr>)"
  by (simp add: drawing_def)

lemma order_create_Inr:
  "execute_order_create H se input w = (Inr v, w') \<longleftrightarrow>
     (\<exists>raw lines r. Option.bind (json_get input ''lines'') json_as_array = Some raw \<and>
        collect_results (map (parse_line H se) raw) = Inr lines \<and>
        order_new (cw_fresh w (cw_drawn w)) (cw_clock w (cw_drawn w)) lines = Inr r \<and>
        w' = w\<lparr>cw_drawn := Suc (cw_drawn w), cw_orders := (cw_orders w)(ord_id r \<mapsto> r)\<rparr> \<and>
        v = jobject
            [(''order_id'', json_uuid H (ord_id r)),
             (''lines'', JArray (map (order_line_json H) (ord_lines r))),
             (''status'', JString (order_status_text (ord_status r))),
             (''created_at'', json_utc H (ord_created_at r)),
             (''content_digest'', JString (commerce_digest H (order_json H r)))])"
  unfolding execute_order_create_def drawing_eq
  by (auto simp: result_simps split: sum.splits)

lemma order_transition_Inr:
  assumes "target \<noteq> OrdPending"
  shows "is_ok (fst (execute_order_transition H target input w)) \<longleftrightarrow>
     (\<exists>i r. parse_id H input ''order_id'' = Inr i \<and> cw_orders w i = Some r \<and> can_transition_to (ord_status r) target)"
  and "execute_order_transition H target input w = (x, w') \<Longrightarrow> is_ok x \<Longrightarrow>
     parse_id H input ''order_id'' = Inr i \<Longrightarrow> cw_orders w i = Some r \<Longrightarrow>
     w' = w\<lparr>cw_drawn := Suc (cw_drawn w), cw_orders := (cw_orders w)(ord_id r \<mapsto>
              r\<lparr>ord_status := target, ord_updated_at := cw_clock w (cw_drawn w)\<rparr>)\<rparr>"
  using assms unfolding execute_order_transition_def drawing_eq
  by (auto simp: result_simps load_record_def order_transition_to_def Let_def
      split: sum.splits OrderStatus.splits option.splits if_splits)

lemma parse_line_Inl: "parse_line H se v = Inl e \<Longrightarrow> \<exists>message. e = Raise (HandlerFailed message)"
  by (auto simp: parse_line_def result_simps input_error_def split: prod.splits)

lemma commerce_call_failed:
  assumes "commerce_call H se op w = (Inl e, w')"
  shows "(\<exists>message. e = Raise (HandlerFailed message)) \<and> cw_catalogs w' = cw_catalogs w \<and> cw_orders w' = cw_orders w"
proof (cases op)
  case (CatalogCreate input)
  with assms show ?thesis
    by (auto simp: execute_catalog_create_def drawing_eq result_simps input_error_def split: sum.splits)
next
  case (CatalogUpdate input)
  with assms show ?thesis
    by (auto simp: execute_catalog_update_def drawing_eq result_simps input_error_def load_record_def parse_id_def
        split: sum.splits)
next
  case (OrderCreate input)
  with assms show ?thesis
    by (auto simp: execute_order_create_def drawing_eq result_simps input_error_def
        dest!: collect_results_InlD dest: parse_line_Inl [OF sym] split: sum.splits)
next
  case (OrderApprove input)
  with assms show ?thesis
    by (auto simp: execute_order_approve_def execute_order_transition_def drawing_eq result_simps input_error_def
        load_record_def parse_id_def Let_def split: sum.splits)
next
  case (OrderFulfill input)
  with assms show ?thesis
    by (auto simp: execute_order_fulfill_def execute_order_transition_def drawing_eq result_simps input_error_def
        load_record_def parse_id_def Let_def split: sum.splits)
qed

lemma commerce_call_sources:
  "cw_clock (snd (commerce_call H se op w)) = cw_clock w" "cw_fresh (snd (commerce_call H se op w)) = cw_fresh w"
  "cw_drawn w < cw_drawn (snd (commerce_call H se op w))"
  "cw_drawn (snd (commerce_call H se op w)) \<le> cw_drawn w + 2"
  by (cases op; simp add: execute_catalog_create_def execute_catalog_update_def execute_order_create_def
      execute_order_approve_def execute_order_fulfill_def execute_order_transition_def drawing_eq Let_def
      split: sum.splits)+

lemma commerce_call_orders:
  assumes ok: "commerce_ok N w" and r: "cw_orders w i = Some r" and call: "commerce_call H se op w = (x, w')"
    and N: "cw_drawn w < N"
  shows "commerce_ok N w' \<and> (\<exists>r'. cw_orders w' i = Some r' \<and> ord_lines r' = ord_lines r \<and>
      ord_created_at r' = ord_created_at r \<and>
      order_rank (ord_status r') = order_rank (ord_status r)
        + (if order_named H op = Some i \<and> is_ok x then 1 else 0))"
proof -
  have src: "cw_fresh w' = cw_fresh w" "cw_drawn w < cw_drawn w'"
    using commerce_call_sources [where w = w and op = op and H = H and se = se] call by simp_all
  have inj: "inj_on (cw_fresh w) {n..<N}" if "cw_drawn w \<le> n" for n
    using ok that by (auto simp: commerce_ok_def intro: inj_on_subset)
  have same: "commerce_ok N w'" if "cw_orders w' = cw_orders w"
    using ok that src inj by (auto simp: commerce_ok_def)
  have move: ?thesis
    if target: "target \<noteq> OrdPending" and ex: "execute_order_transition H target input w = (x, w')"
      and named: "order_named H op = (case parse_id H input ''order_id'' of Inr i \<Rightarrow> Some i | Inl _ \<Rightarrow> None)"
      and okx: "is_ok x" for target input
  proof -
    obtain j q where j: "parse_id H input ''order_id'' = Inr j" "cw_orders w j = Some q"
      "can_transition_to (ord_status q) target"
      using order_transition_Inr(1) [OF target, of H input w] ex okx by auto
    have id: "ord_id q = j" using ok j(2) by (auto simp: commerce_ok_def)
    have w': "w' = w\<lparr>cw_drawn := Suc (cw_drawn w), cw_orders := (cw_orders w)(j \<mapsto>
        q\<lparr>ord_status := target, ord_updated_at := cw_clock w (cw_drawn w)\<rparr>)\<rparr>"
      using order_transition_Inr(2) [OF target ex okx j(1,2)] id by simp
    have "order_rank target = Suc (order_rank (ord_status q))"
      using j(3) by (cases "ord_status q"; cases target) simp_all
    moreover have "commerce_ok N w'"
      using ok j(2) id inj unfolding w' by (auto simp: commerce_ok_def)
    ultimately show ?thesis using r j named okx by (cases "i = j") (auto simp: w')
  qed
  show ?thesis
  proof (cases x)
    case (Inl e)
    with commerce_call_failed [of H se op w e w'] call same r show ?thesis by auto
  next
    case (Inr v)
    show ?thesis
    proof (cases op)
      case (OrderApprove input)
      with move [of OrdApproved input] call Inr show ?thesis by (auto simp: execute_order_approve_def)
    next
      case (OrderFulfill input)
      with move [of OrdFulfilled input] call Inr show ?thesis by (auto simp: execute_order_fulfill_def)
    next
      case (OrderCreate input)
      let ?n = "cw_fresh w (cw_drawn w)"
      from OrderCreate call Inr obtain lines q where "order_new ?n (cw_clock w (cw_drawn w)) lines = Inr q"
        "w' = w\<lparr>cw_drawn := Suc (cw_drawn w), cw_orders := (cw_orders w)(ord_id q \<mapsto> q)\<rparr>"
        by (auto simp: order_create_Inr)
      moreover from this(1) have "ord_id q = ?n" by (auto simp: order_new_def split: if_splits)
      moreover from ok r N have "?n \<noteq> i" by (auto simp: commerce_ok_def)
      moreover have "cw_fresh w m \<noteq> ?n" if "Suc (cw_drawn w) \<le> m" "m < N" for m
        using ok that by (auto simp: commerce_ok_def dest: inj_onD)
      ultimately show ?thesis using ok r inj OrderCreate by (auto simp: commerce_ok_def)
    next
      case (CatalogCreate input)
      with call Inr have "cw_orders w' = cw_orders w"
        by (auto simp: execute_catalog_create_def drawing_eq split: sum.splits)
      with same r CatalogCreate show ?thesis by simp
    next
      case (CatalogUpdate input)
      with call Inr have "cw_orders w' = cw_orders w"
        by (auto simp: execute_catalog_update_def drawing_eq split: sum.splits)
      with same r CatalogUpdate show ?thesis by simp
    qed
  qed
qed

lemma order_rank_le: "order_rank st \<le> 2"
  by (cases st) simp_all

lemma order_calls:
  assumes "commerce_ok N w" and "cw_orders w i = Some r" and "cw_drawn w + 2 * length ops \<le> N"
  shows "\<exists>r'. cw_orders (commerce_calls H se ops w) i = Some r' \<and> ord_lines r' = ord_lines r \<and>
    ord_created_at r' = ord_created_at r \<and>
    order_rank (ord_status r') = order_rank (ord_status r) + length (order_moves H se i ops w)"
  using assms unfolding commerce_calls_def
proof (induction ops arbitrary: w r)
  case (Cons op ops)
  obtain x w' where c: "commerce_call H se op w = (x, w')" by fastforce
  from Cons.prems(3) have "cw_drawn w < N" by simp
  from commerce_call_orders [OF Cons.prems(1,2) c this] obtain r1 where "commerce_ok N w'" "cw_orders w' i = Some r1"
    and r1: "ord_lines r1 = ord_lines r" "ord_created_at r1 = ord_created_at r"
      "order_rank (ord_status r1) = order_rank (ord_status r)
         + (if order_named H op = Some i \<and> is_ok x then 1 else 0)" by blast
  moreover have "cw_drawn w' + 2 * length ops \<le> N"
    using commerce_call_sources(4) [where H = H and se = se and op = op and w = w] c Cons.prems(3) by simp
  ultimately show ?case using Cons.IH [of w' r1] c r1 by auto
qed simp


text \<open>
  C33: The life of an order is bounded. Under any sequence of calls of the commerce operations
  a stored order keeps its lines and its creation time, and each successful approval or
  fulfillment of it moves it one status up: at most two such calls ever succeed, and never
  more than the statuses that are left. Each call draws at most two identifiers, and those it
  draws are new.
\<close>

theorem order_lifecycle_bounded:
  assumes "commerce_ok N w" and "cw_orders w i = Some r" and "cw_drawn w + 2 * length ops \<le> N"
  shows "(\<exists>r'. cw_orders (commerce_calls H se ops w) i = Some r' \<and> ord_lines r' = ord_lines r \<and>
      ord_created_at r' = ord_created_at r \<and>
      order_rank (ord_status r') = order_rank (ord_status r) + length (order_moves H se i ops w)) \<and>
    length (order_moves H se i ops w) \<le> 2 - order_rank (ord_status r)"
proof -
  obtain r' where r': "cw_orders (commerce_calls H se ops w) i = Some r'" "ord_lines r' = ord_lines r"
    "ord_created_at r' = ord_created_at r"
    "order_rank (ord_status r') = order_rank (ord_status r) + length (order_moves H se i ops w)"
    using order_calls [OF assms, of H se] by auto
  with order_rank_le [of "ord_status r'"] show ?thesis by auto
qed

section \<open>Fulfillment\<close>

lemma bindE_eq_Inr: "bindE r f = (Inr y, s') \<longleftrightarrow> (\<exists>x s1. r = (Inr x, s1) \<and> f x s1 = (Inr y, s'))"
  by (cases r; cases "fst r") (auto simp: bindE_def)

lemma json_to_u32 [simp]: "json_to_u32 (json_u32 n) = Some n"
proof -
  have less: "unat n < 4294967296" using unsigned_less [of n, where 'a = nat] by simp
  moreover from less have "unat (ucast n :: u64) = unat n"
    by (simp add: unsigned_ucast_eq take_bit_nat_eq_self)
  ultimately show ?thesis by (simp add: json_to_u32_def json_u32_def)
qed

lemma parse_line_json:
  assumes "text_law H" and "parse_line H se (order_line_json H l) = Inr l'"
  shows "l' = l"
proof -
  have "line_fields (order_line_json H l) =
      Some (json_uuid H (line_catalog_id l), JString (line_name l), json_u32 (line_quantity l))"
    by (simp add: line_fields_def order_line_json_def jobject_def map_of_fold_bt_insert)
  moreover have "json_to_uuid H (json_uuid H u) = Some u" for u
    using assms(1) by (simp add: json_to_uuid_def json_uuid_def json_as_str_def text_law_def)
  ultimately show ?thesis
    using assms(2)
    by (auto simp: parse_line_def json_as_str_def order_line_new_def result_simps split: if_splits)
qed

lemma create_order_roundtrip:
  assumes "text_law H" and "execute_order_create H se (create_order_input H lines) w = (Inr v, w')"
  shows "w' = w\<lparr>cw_drawn := Suc (cw_drawn w), cw_orders := (cw_orders w)(cw_fresh w (cw_drawn w) \<mapsto>
      \<lparr> ord_id = cw_fresh w (cw_drawn w), ord_lines = lines, ord_status = OrdPending,
        ord_created_at = cw_clock w (cw_drawn w), ord_updated_at = cw_clock w (cw_drawn w) \<rparr>)\<rparr>"
    and "json_get v ''order_id'' = Some (json_uuid H (cw_fresh w (cw_drawn w)))"
proof -
  obtain ls r where ls: "collect_results (map (parse_line H se) (map (order_line_json H) lines)) = Inr ls"
    and r: "order_new (cw_fresh w (cw_drawn w)) (cw_clock w (cw_drawn w)) ls = Inr r"
    and w': "w' = w\<lparr>cw_drawn := Suc (cw_drawn w), cw_orders := (cw_orders w)(ord_id r \<mapsto> r)\<rparr>"
    and v: "json_get v ''order_id'' = Some (json_uuid H (ord_id r))"
    using assms(2) unfolding order_create_Inr
    by (auto simp: create_order_input_def json_as_array_def)
  have "ls = lines"
    using ls parse_line_json [OF assms(1)]
    by (auto simp: collect_results_eq_Inr list_eq_iff_nth_eq comp_def)
  with r w' v show "w' = w\<lparr>cw_drawn := Suc (cw_drawn w), cw_orders := (cw_orders w)(cw_fresh w (cw_drawn w) \<mapsto>
      \<lparr> ord_id = cw_fresh w (cw_drawn w), ord_lines = lines, ord_status = OrdPending,
        ord_created_at = cw_clock w (cw_drawn w), ord_updated_at = cw_clock w (cw_drawn w) \<rparr>)\<rparr>"
    and "json_get v ''order_id'' = Some (json_uuid H (cw_fresh w (cw_drawn w)))"
    by (auto simp: order_new_def split: if_splits)
qed

lemma execute_step_runs:
  assumes "execute_step H eng draw k operation input ctx (s, w) = (Inr v, s', w')"
    and "eng_handlers eng operation = Some (generic_handler H env ''proof-commerce'' operation f execute_fn)"
  shows "\<exists>data. execute_fn input ctx w = (Inr data, w') \<and> v = handler_result operation data"
proof (rule generic_handler_Inr)
  show "handler_execute_versioned (generic_handler H env ''proof-commerce'' operation f execute_fn)
      ''v1'' input ctx w = (Inr v, w')"
    using execute_runs_handler [OF assms(1) [unfolded execute_step_def]] assms(2)
    by (simp add: generic_handler_def)
qed

lemma local_transition_Inr:
  "local_transition label target r (s, w) = (Inr r', s', w') \<longleftrightarrow>
     can_transition_to (ord_status r) target \<and> s' = s \<and> w' = w\<lparr>cw_drawn := Suc (cw_drawn w)\<rparr> \<and>
     r' = r\<lparr>ord_status := target, ord_updated_at := cw_clock w (cw_drawn w)\<rparr>"
  by (auto simp: local_transition_def drawing_eq order_transition_to_def result_simps)

lemma order_moved:
  assumes "text_law H" and "execute_order_transition H target (jobject [(''order_id'', json_uuid H i)]) w = (Inr v, w')"
    and "cw_orders w i = Some r" and "ord_id r = i" and "target \<noteq> OrdPending"
  shows "w' = w\<lparr>cw_drawn := Suc (cw_drawn w), cw_orders := (cw_orders w)(i \<mapsto>
              r\<lparr>ord_status := target, ord_updated_at := cw_clock w (cw_drawn w)\<rparr>)\<rparr>"
proof -
  have "parse_id H (jobject [(''order_id'', json_uuid H i)]) ''order_id'' = Inr i"
    using assms(1) by (simp add: parse_id_def json_uuid_def json_as_str_def text_law_def)
  with order_transition_Inr(2) [OF assms(5,2)] assms(3,4) show ?thesis by simp
qed

text \<open>The engine has the commerce handlers.\<close>

definition serves_commerce :: "host \<Rightarrow> schema_env \<Rightarrow> ('s, CommerceWorld) ExecutionEngine \<Rightarrow> bool" where
  "serves_commerce H env eng \<longleftrightarrow>
     list_all (\<lambda>h. eng_handlers eng (handler_operation h) = Some h) (commerce_handlers H env)"

lemma serves_commerceD:
  assumes "serves_commerce H env eng"
  shows "eng_handlers eng ''order.create'' = Some (generic_handler H env ''proof-commerce'' ''order.create''
      ''commerce/order-create.input.json'' (\<lambda>input _. execute_order_create H (env_serde_error env) input))"
    and "eng_handlers eng ''order.approve'' = Some (generic_handler H env ''proof-commerce'' ''order.approve''
      ''commerce/order-approve.input.json'' (\<lambda>input _. execute_order_approve H input))"
    and "eng_handlers eng ''order.fulfill'' = Some (generic_handler H env ''proof-commerce'' ''order.fulfill''
      ''commerce/order-fulfill.input.json'' (\<lambda>input _. execute_order_fulfill H input))"
proof -
  have op: "handler_operation (generic_handler H env crate operation f g) = operation" for crate operation f g
    by (simp add: generic_handler_def)
  show "eng_handlers eng ''order.create'' = Some (generic_handler H env ''proof-commerce'' ''order.create''
      ''commerce/order-create.input.json'' (\<lambda>input _. execute_order_create H (env_serde_error env) input))"
    and "eng_handlers eng ''order.approve'' = Some (generic_handler H env ''proof-commerce'' ''order.approve''
      ''commerce/order-approve.input.json'' (\<lambda>input _. execute_order_approve H input))"
    and "eng_handlers eng ''order.fulfill'' = Some (generic_handler H env ''proof-commerce'' ''order.fulfill''
      ''commerce/order-fulfill.input.json'' (\<lambda>input _. execute_order_fulfill H input))"
    using assms by (simp_all add: serves_commerce_def commerce_handlers_def op)
qed

lemma fulfill_Inr:
  assumes "fulfill H eng keypair draw lines ctx (s, w) = (Inr out, s', w')"
  obtains created s1 w1 q v2 s2 w2 s3 w3 v4 s4 w4 r1 r2 where
    "execute_step H eng draw 0 ''order.create'' (create_order_input H lines) ctx (s, w) = (Inr created, s1, w1)"
    and "bindR (created_order_id H created) (load_order H w1) = Inr q"
    and "execute_step H eng draw 1 ''order.approve'' (jobject [(''order_id'', json_uuid H (ord_id q))]) ctx (s1, w1)
      = (Inr v2, s2, w2)"
    and "local_transition ''approval'' OrdApproved q (s2, w2) = (Inr r1, s3, w3)"
    and "execute_step H eng draw 2 ''order.fulfill'' (jobject [(''order_id'', json_uuid H (ord_id q))]) ctx (s3, w3)
      = (Inr v4, s4, w4)"
    and "local_transition ''fulfillment'' OrdFulfilled r1 (s4, w4) = (Inr r2, s', w')"
    and "\<exists>e1 e2 e3. out = manifest_of H r2 [e1, e2, e3] \<and>
     order_evidence H keypair (draw 6) ''order.create'' r2 (create_order_input H lines) ctx = Inr e1 \<and>
     order_evidence H keypair (draw 7) ''order.approve'' r2 (jobject [(''order_id'', json_uuid H (ord_id q))]) ctx = Inr e2 \<and>
     order_evidence H keypair (draw 8) ''order.fulfill'' r2 (jobject [(''order_id'', json_uuid H (ord_id q))]) ctx = Inr e3"
  using assms unfolding fulfill_def bindE_eq_Inr Let_def
  by (elim exE conjE) (simp only: prod.inject split_paired_Ex prod_eq_iff snd_conv fst_conv, auto simp: bindR_eq_Inr)

lemma fulfill_orders:
  assumes law: "text_law H" and srv: "serves_commerce H env eng"
    and ex: "fulfill H eng keypair draw lines ctx (s, w) = (Inr out, s', w')"
  defines "i \<equiv> cw_fresh w (cw_drawn w)" and "t \<equiv> \<lambda>k. cw_clock w (cw_drawn w + k)"
  defines "r \<equiv> \<lparr> ord_id = i, ord_lines = lines, ord_status = OrdFulfilled,
      ord_created_at = t 0, ord_updated_at = t 4 \<rparr>"
  shows "\<exists>e1 e2 e3. out = manifest_of H r [e1, e2, e3] \<and>
     order_evidence H keypair (draw 6) ''order.create'' r (create_order_input H lines) ctx = Inr e1 \<and>
     order_evidence H keypair (draw 7) ''order.approve'' r (jobject [(''order_id'', json_uuid H i)]) ctx = Inr e2 \<and>
     order_evidence H keypair (draw 8) ''order.fulfill'' r (jobject [(''order_id'', json_uuid H i)]) ctx = Inr e3"
    and "cw_orders w' = (cw_orders w)(i \<mapsto> r\<lparr>ord_updated_at := t 3\<rparr>)"
proof -
  note h = serves_commerceD [OF srv]
  from ex obtain created s1 w1 q v2 s2 w2 s3 w3 v4 s4 w4 r1 r2 where
    c: "execute_step H eng draw 0 ''order.create'' (create_order_input H lines) ctx (s, w) = (Inr created, s1, w1)"
    and q: "bindR (created_order_id H created) (load_order H w1) = Inr q"
    and a: "execute_step H eng draw 1 ''order.approve'' (jobject [(''order_id'', json_uuid H (ord_id q))]) ctx (s1, w1)
      = (Inr v2, s2, w2)"
    and l1: "local_transition ''approval'' OrdApproved q (s2, w2) = (Inr r1, s3, w3)"
    and f: "execute_step H eng draw 2 ''order.fulfill'' (jobject [(''order_id'', json_uuid H (ord_id q))]) ctx (s3, w3)
      = (Inr v4, s4, w4)"
    and l2: "local_transition ''fulfillment'' OrdFulfilled r1 (s4, w4) = (Inr r2, s', w')"
    and e: "\<exists>e1 e2 e3. out = manifest_of H r2 [e1, e2, e3] \<and>
     order_evidence H keypair (draw 6) ''order.create'' r2 (create_order_input H lines) ctx = Inr e1 \<and>
     order_evidence H keypair (draw 7) ''order.approve'' r2 (jobject [(''order_id'', json_uuid H (ord_id q))]) ctx = Inr e2 \<and>
     order_evidence H keypair (draw 8) ''order.fulfill'' r2 (jobject [(''order_id'', json_uuid H (ord_id q))]) ctx = Inr e3"
    by (rule fulfill_Inr)
  obtain data where data: "execute_order_create H (env_serde_error env) (create_order_input H lines) w = (Inr data, w1)"
    and created: "created = handler_result ''order.create'' data"
    using execute_step_runs [OF c h(1)] by blast
  note new = create_order_roundtrip [OF law data]
  have "created_order_id H created = Inr i"
    using new(2) law by (simp add: created created_order_id_def handler_result_def i_def json_uuid_def json_as_str_def text_law_def)
  with q have q: "q = \<lparr> ord_id = i, ord_lines = lines, ord_status = OrdPending, ord_created_at = t 0, ord_updated_at = t 0 \<rparr>"
    by (simp add: load_order_def load_record_def new(1) i_def t_def)
  let ?in = "jobject [(''order_id'', json_uuid H i)]"
  have id: "ord_id q = i" by (simp add: q)
  obtain d2 where d2: "execute_order_transition H OrdApproved ?in w1 = (Inr d2, w2)"
    using execute_step_runs [OF a h(2)] by (auto simp: execute_order_approve_def id)
  have w2: "cw_orders w2 = (cw_orders w)(i \<mapsto> q\<lparr>ord_status := OrdApproved, ord_updated_at := t 1\<rparr>)"
    "cw_drawn w2 = cw_drawn w + 2" "cw_clock w2 = cw_clock w"
    using order_moved [OF law d2, of q] by (simp_all add: new(1) q i_def t_def)
  obtain d4 where d4: "execute_order_transition H OrdFulfilled ?in w3 = (Inr d4, w4)"
    using execute_step_runs [OF f h(3)] by (auto simp: execute_order_fulfill_def id)
  have w3: "cw_orders w3 = cw_orders w2" "cw_drawn w3 = cw_drawn w + 3" "cw_clock w3 = cw_clock w"
    and r1: "r1 = q\<lparr>ord_status := OrdApproved, ord_updated_at := t 2\<rparr>"
    using l1 w2 by (auto simp: local_transition_Inr t_def)
  have w4: "cw_orders w4 = (cw_orders w)(i \<mapsto> q\<lparr>ord_status := OrdFulfilled, ord_updated_at := t 3\<rparr>)"
    "cw_drawn w4 = cw_drawn w + 4" "cw_clock w4 = cw_clock w"
    using order_moved [OF law d4] w2 w3 by (simp_all add: q t_def)
  have "r2 = r" and "cw_orders w' = cw_orders w4"
    using l2 w4 by (auto simp: local_transition_Inr t_def r1 q r_def)
  with e w4(1) show "\<exists>e1 e2 e3. out = manifest_of H r [e1, e2, e3] \<and>
     order_evidence H keypair (draw 6) ''order.create'' r (create_order_input H lines) ctx = Inr e1 \<and>
     order_evidence H keypair (draw 7) ''order.approve'' r (jobject [(''order_id'', json_uuid H i)]) ctx = Inr e2 \<and>
     order_evidence H keypair (draw 8) ''order.fulfill'' r (jobject [(''order_id'', json_uuid H i)]) ctx = Inr e3"
    and "cw_orders w' = (cw_orders w)(i \<mapsto> r\<lparr>ord_updated_at := t 3\<rparr>)"
    by (simp_all add: q r_def)
qed

lemma order_json_exact [simp]: "wf_json (order_json H r)" "float_free (order_json H r)"
  unfolding order_json_def order_line_json_def json_u32_def
  by (auto intro!: wf_jobject float_free_jobject simp: list_all_iff)

lemma commerce_digest_eq:
  "commerce_digest H v = commerce_digest H u \<longleftrightarrow> host_sha256 H (render H v) = host_sha256 H (render H u)"
  by (auto simp: commerce_digest_def dest: arg_cong [where f = hex_pairs] simp: hex_pairs_hex)

lemma order_json_updated:
  assumes "quote_law H" and "text_law H" and "render H (order_json H r) = render H (order_json H q)"
  shows "ord_updated_at r = ord_updated_at q"
proof -
  have "order_json H r = order_json H q" using assms(1,3) by (intro render_inj) simp_all
  then have "json_get (order_json H r) ''updated_at'' = json_get (order_json H q) ''updated_at''" by simp
  then show ?thesis
    using assms(2) by (simp add: order_json_def json_value_inj)
qed

lemma order_evidence_Inr:
  assumes "order_evidence H keypair fresh operation r input ctx = Inr e"
  shows "oe_operation e = operation" "oe_order_id e = ord_id r"
    "oe_content_digest e = commerce_digest H (order_json H r)"
    "body_operation (proof_body (oe_proof e)) = operation @ ''::v1''"
    "sign_law H \<Longrightarrow> proof_verify H (oe_proof e) (principal_public_key (principal_from_keypair H keypair)) = Inr ()"
proof -
  obtain p ci co where p: "proof_sign H (proof_new fresh (ctx_actor ctx) (ctx_delegation_id ctx)
        (operation @ ''::v1'') (digest H KOperationInput ci) (digest H KOperationOutput co)
        (ctx_timestamp ctx)) keypair = Inr p"
    and e: "e = \<lparr> oe_operation = operation, oe_order_id = ord_id r, oe_status = ord_status r,
             oe_content_digest = commerce_digest H (order_json H r),
             oe_record_digest = Some (commerce_digest H (order_json H r)), oe_proof = p \<rparr>"
    using assms by (auto simp: order_evidence_def create_proof_def result_simps)
  show "oe_operation e = operation" "oe_order_id e = ord_id r"
    "oe_content_digest e = commerce_digest H (order_json H r)"
    "body_operation (proof_body (oe_proof e)) = operation @ ''::v1''"
    using p by (auto simp: e proof_sign_ok proof_new_def)
  show "proof_verify H (oe_proof e) (principal_public_key (principal_from_keypair H keypair)) = Inr ()"
    if "sign_law H" using sign_then_verify [OF that p] by (simp add: e)
qed


section \<open>A sample shop\<close>

definition sample_shop :: CommerceWorld where
  "sample_shop = \<lparr> cw_catalogs = (\<lambda>_. None), cw_orders = (\<lambda>_. None), cw_clock = int,
     cw_fresh = (\<lambda>n. of_nat (n + 1)), cw_drawn = 0 \<rparr>"

definition sample_line :: OrderLine where
  "sample_line = \<lparr> line_catalog_id = 9, line_name = ''Widget'', line_quantity = 2 \<rparr>"

definition sample_order :: Order where
  "sample_order = \<lparr> ord_id = 5, ord_lines = [sample_line], ord_status = OrdPending,
     ord_created_at = 0, ord_updated_at = 0 \<rparr>"

definition sample_stocked :: CommerceWorld where
  "sample_stocked = sample_shop\<lparr>cw_orders := [5 \<mapsto> sample_order], cw_fresh := (\<lambda>n. of_nat n), cw_drawn := 6\<rparr>"


definition sample_env :: schema_env where
  "sample_env = \<lparr> env_manifest_dir = ''m'', env_exists = (\<lambda>_. True), env_read = (\<lambda>_. Some []),
     env_from_str = (\<lambda>_. Inr (jobject [(''properties'',
        jobject [(''lines'', JNull), (''order_id'', JNull)])])),
     env_serde_error = (\<lambda>_. []) \<rparr>"

definition sample_commerce_engine :: "(unit, CommerceWorld) ExecutionEngine" where
  "sample_commerce_engine =
     fold (\<lambda>h eng. register_handler eng h) (commerce_handlers sample_host sample_env)
       (new_with_keypair
          \<lparr> reg_entries = [sample_entry ''order.create'' ''commerce'' ''v1'',
              sample_entry ''order.approve'' ''commerce'' ''v1'', sample_entry ''order.fulfill'' ''commerce'' ''v1''],
            reg_index = [((''order.create'', ''v1''), 0), ((''order.approve'', ''v1''), 1),
              ((''order.fulfill'', ''v1''), 2)] \<rparr> sample_agent)"

definition sample_shop_context :: ExecutionContext where
  "sample_shop_context = \<lparr> ctx_actor = 7, ctx_principal_kind = None, ctx_delegation_id = None,
         ctx_delegation_chain = None, ctx_workspace_path = ''w'', ctx_timestamp = 5 \<rparr>"

lemma sample_serves: "serves_commerce sample_host sample_env sample_commerce_engine"
  by (simp add: serves_commerce_def sample_commerce_engine_def commerce_handlers_def register_handler_def
      generic_handler_def)

lemma execute_plain:
  assumes "eng_storage eng = None" and "registry_find (eng_registry eng) (call_operation c) (call_version c) = Some entry"
    and "entry_governance entry = AgentExecutable" and "entry_status entry = Active"
    and "ctx_delegation_id (call_context c) = None" and "ctx_delegation_chain (call_context c) = None"
    and "eng_handlers eng (call_operation c) = Some h" and "handler_idempotency_policy_for h (call_version c) = PolicyNone"
    and "handler_execute_versioned h (call_version c) (call_input c) (call_context c) w = (Inr v, w')"
  shows "execute H eng c (s, w) = (Inr v, s, w')"
  using assms
  by (simp add: execute_def execute_inner_def execute_admit_def authorize_def check_governance_def
      check_delegation_def acquire_def raise_def execute_dispatch_def benchmark_gate_def run_handler_def
      conclude_def evidence_def persist_def on_store_def split: option.splits)

lemma sample_find:
  "operation \<in> {''order.create'', ''order.approve'', ''order.fulfill''} \<Longrightarrow>
   registry_find (eng_registry sample_commerce_engine) operation ''v1''
     = Some (sample_entry operation ''commerce'' ''v1'')"
  "eng_storage sample_commerce_engine = None"
  by (auto simp: sample_commerce_engine_def commerce_handlers_def register_handler_def new_with_keypair_def
      registry_find_def)

lemma generic_handler_policy:
  "handler_idempotency_policy_for (generic_handler H env crate operation f g) version = PolicyNone"
  by (simp add: generic_handler_def)

lemma sample_handler_run:
  assumes "input = jobject [(''lines'', x)] \<or> input = jobject [(''order_id'', x)]" and "g input w = (Inr data, w')"
  shows "handler_execute_versioned (generic_handler sample_host sample_env ''proof-commerce'' operation f
      (\<lambda>input _. g input)) version input ctx w = (Inr (handler_result operation data), w')"
proof -
  have "registry_schema sample_host sample_env ''proof-commerce'' ctx operation f =
      Inr (jobject [(''properties'', jobject [(''lines'', JNull), (''order_id'', JNull)])])"
    by (simp add: registry_schema_def schema_candidates_def sample_env_def Let_def)
  moreover have "schema_parse (env_serde_error sample_env)
      (jobject [(''properties'', jobject [(''lines'', JNull), (''order_id'', JNull)])]) =
     Inr \<lparr> schema_required = [], schema_properties = [(''lines'', JNull), (''order_id'', JNull)],
       schema_additional_properties = False \<rparr>"
    by (simp add: schema_parse_def schema_fields_def default_field_def jobject_def json_as_object_def)
  moreover have "schema_validate \<lparr> schema_required = [], schema_properties = [(''lines'', JNull), (''order_id'', JNull)],
       schema_additional_properties = False \<rparr> input = Inr ()"
    using assms(1) by (auto simp: schema_validate_Inr jobject_def)
  ultimately show ?thesis
    using assms(2) by (simp add: generic_handler_def run_checked_def)
qed

lemma sample_commerce_step:
  assumes "operation \<in> {''order.create'', ''order.approve'', ''order.fulfill''}"
    and "eng_handlers sample_commerce_engine operation =
      Some (generic_handler sample_host sample_env ''proof-commerce'' operation f (\<lambda>input _. g input))"
    and "input = jobject [(''lines'', x)] \<or> input = jobject [(''order_id'', x)]" and "g input w = (Inr data, w')"
  shows "execute_step sample_host sample_commerce_engine draw k operation input sample_shop_context (s, w)
    = (Inr (handler_result operation data), s, w')"
  unfolding execute_step_def
  using execute_plain [of sample_commerce_engine
      "\<lparr> call_operation = operation, call_version = ''v1'', call_input = input, call_context = sample_shop_context,
         call_approval = None, call_evidence_required = False,
         call_claim_token = draw (2 * k), call_proof_id = draw (2 * k + 1) \<rparr>"
      "sample_entry operation ''commerce'' ''v1''"]
    assms(2) sample_find(1) [OF assms(1)] sample_find(2) sample_handler_run [where g = g, OF assms(3,4)]
  by (simp add: sample_shop_context_def generic_handler_policy)

lemma sample_create:
  "\<exists>data. execute_order_create sample_host (env_serde_error sample_env) (create_order_input sample_host [sample_line])
     sample_shop = (Inr data, sample_shop\<lparr>cw_drawn := 1, cw_orders := [1 \<mapsto>
        \<lparr> ord_id = 1, ord_lines = [sample_line], ord_status = OrdPending, ord_created_at = 0, ord_updated_at = 0 \<rparr>]\<rparr>)
     \<and> json_get data ''order_id'' = Some (json_uuid sample_host 1)"
proof -
  have "parse_line sample_host (env_serde_error sample_env) (order_line_json sample_host sample_line) = Inr sample_line"
    by (simp add: parse_line_def line_fields_def order_line_json_def jobject_def sample_line_def
        json_to_uuid_def json_uuid_def json_as_str_def order_line_new_def sample_host_def ws1_def ws2_def ws3_def)
  then show ?thesis
    by (simp add: order_create_Inr create_order_input_def json_as_array_def order_new_def sample_shop_def)
qed

lemma transition_ok:
  assumes "parse_id H input ''order_id'' = Inr i" and "cw_orders w i = Some r"
    and "can_transition_to (ord_status r) target" and "ord_id r = i"
  shows "\<exists>data. execute_order_transition H target input w = (Inr data, w\<lparr>cw_drawn := Suc (cw_drawn w),
      cw_orders := (cw_orders w)(i \<mapsto> r\<lparr>ord_status := target, ord_updated_at := cw_clock w (cw_drawn w)\<rparr>)\<rparr>)"
  using assms by (cases "ord_status r"; cases target)
    (simp_all add: execute_order_transition_def drawing_eq load_record_def order_transition_to_def Let_def)

lemma sample_fulfills:
  "\<exists>out w'. fulfill sample_host sample_commerce_engine sample_agent (\<lambda>n. of_nat n) [sample_line] sample_shop_context
     ((), sample_shop) = (Inr out, (), w')"
proof -
  let ?in = "jobject [(''order_id'', json_uuid sample_host 1)]"
  define q where "q = \<lparr> ord_id = 1, ord_lines = [sample_line], ord_status = OrdPending,
    ord_created_at = 0, ord_updated_at = 0 \<rparr>"
  define w1 where "w1 = sample_shop\<lparr>cw_drawn := 1, cw_orders := [1 \<mapsto> q]\<rparr>"
  have pid: "parse_id sample_host ?in ''order_id'' = Inr 1"
    by (simp add: parse_id_def json_uuid_def json_as_str_def sample_host_def)
  note h = serves_commerceD [OF sample_serves]
  obtain d1 where c: "execute_order_create sample_host (env_serde_error sample_env)
      (create_order_input sample_host [sample_line]) sample_shop = (Inr d1, w1)"
    and d1: "json_get d1 ''order_id'' = Some (json_uuid sample_host 1)"
    using sample_create by (auto simp: w1_def q_def)
  define w2 where "w2 = w1\<lparr>cw_drawn := 2, cw_orders := [1 \<mapsto> q\<lparr>ord_status := OrdApproved, ord_updated_at := 1\<rparr>]\<rparr>"
  obtain d2 where a: "execute_order_approve sample_host ?in w1 = (Inr d2, w2)"
    using transition_ok [OF pid, of w1 q OrdApproved]
    by (auto simp: execute_order_approve_def w1_def w2_def q_def sample_shop_def)
  define w3 where "w3 = w2\<lparr>cw_drawn := 3\<rparr>"
  define w4 where "w4 = w3\<lparr>cw_drawn := 4, cw_orders := [1 \<mapsto> q\<lparr>ord_status := OrdFulfilled, ord_updated_at := 3\<rparr>]\<rparr>"
  obtain d4 where f: "execute_order_fulfill sample_host ?in w3 = (Inr d4, w4)"
    using transition_ok [OF pid, of w3 "q\<lparr>ord_status := OrdApproved, ord_updated_at := 1\<rparr>" OrdFulfilled]
    by (auto simp: execute_order_fulfill_def w1_def w2_def w3_def w4_def q_def sample_shop_def)
  have s1: "execute_step sample_host sample_commerce_engine draw 0 ''order.create''
      (create_order_input sample_host [sample_line]) sample_shop_context ((), sample_shop)
      = (Inr (handler_result ''order.create'' d1), (), w1)" for draw
    by (rule sample_commerce_step [OF _ h(1) _ c, of "JArray (map (order_line_json sample_host) [sample_line])"])
      (simp_all add: create_order_input_def)
  have s2: "execute_step sample_host sample_commerce_engine draw 1 ''order.approve'' ?in sample_shop_context ((), w1)
      = (Inr (handler_result ''order.approve'' d2), (), w2)" for draw
    by (rule sample_commerce_step [OF _ h(2) _ a, of "json_uuid sample_host 1"]) simp_all
  have s3: "execute_step sample_host sample_commerce_engine draw 2 ''order.fulfill'' ?in sample_shop_context ((), w3)
      = (Inr (handler_result ''order.fulfill'' d4), (), w4)" for draw
    by (rule sample_commerce_step [OF _ h(3) _ f, of "json_uuid sample_host 1"]) simp_all
  have q: "bindR (created_order_id sample_host (handler_result ''order.create'' d1)) (load_order sample_host w1) = Inr q"
    using d1 by (simp add: created_order_id_def handler_result_def json_uuid_def json_as_str_def sample_host_def
        load_order_def load_record_def w1_def)
  define r1 where "r1 = q\<lparr>ord_status := OrdApproved, ord_updated_at := 2\<rparr>"
  define r2 where "r2 = r1\<lparr>ord_status := OrdFulfilled, ord_updated_at := 4\<rparr>"
  have l1: "local_transition ''approval'' OrdApproved q ((), w2) = (Inr r1, (), w3)"
    by (simp add: local_transition_Inr r1_def w1_def w2_def w3_def q_def sample_shop_def)
  have l2: "local_transition ''fulfillment'' OrdFulfilled r1 ((), w4) = (Inr r2, (), w4\<lparr>cw_drawn := 5\<rparr>)"
    by (simp add: local_transition_Inr r1_def r2_def w1_def w2_def w3_def w4_def q_def sample_shop_def)
  have ev: "\<exists>e. order_evidence sample_host sample_agent fresh operation r input sample_shop_context = Inr e"
    if "wf_json input" "float_free input" for fresh operation r input
    using that by (simp add: order_evidence_def create_proof_def canonicalize_exact_ok proof_sign_ok bindR_eq_Inr
        proof_new_def sample_agent_def generate_keypair_for_def sample_shop_context_def)
  have exact: "wf_json (create_order_input sample_host [sample_line])" "float_free (create_order_input sample_host [sample_line])"
    "wf_json ?in" "float_free ?in"
    by (auto intro!: wf_jobject float_free_jobject simp: create_order_input_def order_line_json_def json_u32_def)
  obtain e1 e2 e3 where
    "order_evidence sample_host sample_agent (of_nat 6) ''order.create'' r2 (create_order_input sample_host [sample_line])
       sample_shop_context = Inr e1"
    "order_evidence sample_host sample_agent (of_nat 7) ''order.approve'' r2 ?in sample_shop_context = Inr e2"
    "order_evidence sample_host sample_agent (of_nat 8) ''order.fulfill'' r2 ?in sample_shop_context = Inr e3"
    using ev exact by meson
  moreover have "ord_id q = 1" by (simp add: q_def)
  ultimately show ?thesis
    by (simp only: fulfill_def s1 bindE_simps q snd_conv Let_def s2 l1 s3 l2 bindR_simps) blast
qed


lemma sample_stocked_ok: "commerce_ok 20 sample_stocked"
proof -
  have unat: "unat (of_nat n :: uuid) = n" if "n < 20" for n
    using that by (simp add: unsigned_of_nat take_bit_nat_eq_self)
  have "inj_on (\<lambda>n. of_nat n :: uuid) {6..<20}"
    by (rule inj_onI) (metis atLeastLessThan_iff unat)
  moreover have "(of_nat n :: uuid) \<noteq> 5" if "6 \<le> n" "n < 20" for n
    using that unat [of n] by auto
  ultimately show ?thesis by (auto simp: commerce_ok_def sample_stocked_def sample_shop_def sample_order_def)
qed

theorem order_lifecycle_bounded_witness:
  "length (order_moves sample_host (\<lambda>_. []) 5
     [OrderFulfill (jobject [(''order_id'', JString ''5'')]), OrderApprove (jobject [(''order_id'', JString ''5'')]),
      OrderApprove (jobject [(''order_id'', JString ''5'')]), OrderFulfill (jobject [(''order_id'', JString ''5'')])]
     sample_stocked) \<le> 2"
proof -
  have "cw_orders sample_stocked 5 = Some sample_order" "cw_drawn sample_stocked = 6" "ord_status sample_order = OrdPending"
    by (simp_all add: sample_stocked_def sample_order_def)
  with order_lifecycle_bounded [OF sample_stocked_ok, of 5 sample_order
    "[OrderFulfill (jobject [(''order_id'', JString ''5'')]), OrderApprove (jobject [(''order_id'', JString ''5'')]),
      OrderApprove (jobject [(''order_id'', JString ''5'')]), OrderFulfill (jobject [(''order_id'', JString ''5'')])]"
    sample_host "\<lambda>_. []"]
  show ?thesis by simp
qed

end
