(* ===== verification/OperatorBase.thy ===== *)
theory OperatorBase
  imports AgentRun
begin

text \<open>
  The shared part of the operator control plane:
  \<^verbatim>\<open>crates/proof-kernel/src/operator/common.rs\<close> (strict wire forms, digests, names,
  capabilities, budget amounts) and, of \<^verbatim>\<open>durable.rs\<close> and \<^verbatim>\<open>store.rs\<close> beside it, the
  durable records with their validators. A record is serialized as the list of its fields;
  a strict field that has no wire form makes the whole record unserializable. Instants are
  nanoseconds, and leap seconds are not among them.
\<close>

section \<open>Strict wire forms\<close>

definition MAX_SAFE_INTEGER :: u64 where
  "MAX_SAFE_INTEGER = 9007199254740991"

definition strict_uuid_v7 :: "host \<Rightarrow> uuid \<Rightarrow> json option" where
  "strict_uuid_v7 H u = (if uuid_is_v7 H u then Some (json_uuid H u) else None)"

definition strict_safe_integer :: "u64 \<Rightarrow> json option" where
  "strict_safe_integer n = (if n \<le> MAX_SAFE_INTEGER then Some (JNumber (PosInt n)) else None)"

text \<open>Bytes of a time text that are checked to be decimal digits: all of the first 19 but five.\<close>

definition valid_wire :: "string \<Rightarrow> bool" where
  "valid_wire s =
     (20 \<le> length s \<and> s ! 4 = CHR ''-'' \<and> s ! 7 = CHR ''-'' \<and> s ! 10 = CHR ''T'' \<and> s ! 13 = CHR '':''
      \<and> s ! 16 = CHR '':'' \<and> last s = CHR ''Z''
      \<and> list_all (\<lambda>i. is_digit_char (s ! i)) [0, 1, 2, 3, 5, 6, 8, 9, 11, 12, 14, 15, 17, 18]
      \<and> of_char (s ! 17) \<le> (of_char (CHR ''5'') :: nat)
      \<and> (length s = 20
         \<or> (22 \<le> length s \<and> length s \<le> 30 \<and> s ! 19 = CHR ''.''
            \<and> list_all is_digit_char (take (length s - 21) (drop 20 s)))))"

definition strict_utc :: "host \<Rightarrow> utc \<Rightarrow> json option" where
  "strict_utc H t = (if valid_wire (host_utc_text H t) then Some (json_utc H t) else None)"

definition strict_optional :: "('a \<Rightarrow> json option) \<Rightarrow> 'a option \<Rightarrow> json option" where
  "strict_optional f x = (case x of None \<Rightarrow> Some JNull | Some v \<Rightarrow> f v)"

definition plain_optional :: "('a \<Rightarrow> json) \<Rightarrow> 'a option \<Rightarrow> json option" where
  "plain_optional f x = (case x of None \<Rightarrow> Some JNull | Some v \<Rightarrow> Some (f v))"

type_synonym wire_fields = "(string \<times> json option) list"

definition strict_members :: "wire_fields \<Rightarrow> (string \<times> json) list option" where
  "strict_members fs =
     (if list_all (\<lambda>(_, v). v \<noteq> None) fs then Some (map (\<lambda>(k, v). (k, the v)) fs) else None)"

definition strict_object :: "wire_fields \<Rightarrow> json option" where
  "strict_object fs = map_option jobject (strict_members fs)"

section \<open>Names\<close>

definition is_lowercase :: "char \<Rightarrow> bool" where
  "is_lowercase c = (of_char c \<in> {97::nat..122})"

definition is_uppercase :: "char \<Rightarrow> bool" where
  "is_uppercase c = (of_char c \<in> {65::nat..90})"

definition valid_lower_identifier :: "string \<Rightarrow> bool" where
  "valid_lower_identifier s =
     ((case s of [] \<Rightarrow> False | c # _ \<Rightarrow> is_lowercase c)
      \<and> list_all (\<lambda>c. is_lowercase c \<or> is_digit_char c \<or> c = CHR ''_'') s)"

definition valid_operation_name :: "string \<Rightarrow> bool" where
  "valid_operation_name s =
     (length s \<le> 128
      \<and> (case split_on CHR ''.'' s of
           [domain, action] \<Rightarrow>
             domain \<noteq> [] \<and> action \<noteq> [] \<and> valid_lower_identifier domain \<and> valid_lower_identifier action
         | _ \<Rightarrow> False))"

definition valid_operation_version :: "string \<Rightarrow> bool" where
  "valid_operation_version s =
     (case strip_prefix_char s CHR ''v'' of
        None \<Rightarrow> False
      | Some digits \<Rightarrow>
          length s \<le> 16 \<and> digits \<noteq> [] \<and> hd digits \<noteq> CHR ''0'' \<and> list_all is_digit_char digits)"

definition valid_adapter_name :: "string \<Rightarrow> bool" where
  "valid_adapter_name s =
     (2 \<le> length s \<and> length s \<le> 64 \<and> is_lowercase (hd s)
      \<and> list_all (\<lambda>c. is_lowercase c \<or> is_digit_char c \<or> c = CHR ''_'' \<or> c = CHR ''-'') s)"

definition valid_model_name :: "string \<Rightarrow> bool" where
  "valid_model_name s =
     (1 \<le> length s \<and> length s \<le> 128
      \<and> list_all (\<lambda>c. is_lowercase c \<or> is_uppercase c \<or> is_digit_char c
                       \<or> c \<in> {CHR ''.'', CHR ''_'', CHR '':'', CHR ''/'', CHR ''-''}) s)"

section \<open>Digests\<close>

datatype ControlDigest = ControlDigest (control_bytes: "u8 list")

definition control_encoded :: "ControlDigest \<Rightarrow> string" where
  "control_encoded d = ''blake3-256:'' @ digest_hex (ContentDigest (control_bytes d))"

definition json_control :: "ControlDigest \<Rightarrow> json" where
  "json_control d = JString (control_encoded d)"

definition control_digest :: "host \<Rightarrow> string \<Rightarrow> string \<Rightarrow> ControlDigest" where
  "control_digest H domain payload = ControlDigest (host_blake3 H (domain @ [CHR 0x00] @ payload))"

definition control_digest_serialized :: "host \<Rightarrow> string \<Rightarrow> json \<Rightarrow> CanonicalizationError + ControlDigest" where
  "control_digest_serialized H domain v =
     bindR (canonicalize_serialized H v) (\<lambda>canonical. Inr (control_digest H domain canonical))"

datatype OperatorValidationError =
  OvInvalidSchema | OvInvalidUuid | OvInvalidRevision | OvInvalidBranch | OvInvalidChronology | OvBudgetExceeded

definition digest_without_field :: "host \<Rightarrow> string \<Rightarrow> wire_fields \<Rightarrow> string
    \<Rightarrow> OperatorValidationError + ControlDigest" where
  "digest_without_field H domain fs field =
     bindR (ok_or OvInvalidSchema (strict_members fs)) (\<lambda>members.
       map_err (\<lambda>_. OvInvalidSchema)
         (control_digest_serialized H domain (jobject (filter (\<lambda>(k, _). k \<noteq> field) members))))"

section \<open>Capabilities\<close>

datatype Capability = ApprovalDecide | ApprovalRead | AuditRead | RunCancel | RunRead | RunResume

fun capability_rank :: "Capability \<Rightarrow> nat" where
  "capability_rank ApprovalDecide = 0"
| "capability_rank ApprovalRead = 1"
| "capability_rank AuditRead = 2"
| "capability_rank RunCancel = 3"
| "capability_rank RunRead = 4"
| "capability_rank RunResume = 5"

instantiation Capability :: linorder
begin

definition less_eq_Capability :: "Capability \<Rightarrow> Capability \<Rightarrow> bool" where
  "less_eq_Capability a b \<longleftrightarrow> capability_rank a \<le> capability_rank b"

definition less_Capability :: "Capability \<Rightarrow> Capability \<Rightarrow> bool" where
  "less_Capability a b \<longleftrightarrow> capability_rank a < capability_rank b"

instance
proof
  fix x y z :: Capability
  show "x < y \<longleftrightarrow> x \<le> y \<and> \<not> y \<le> x" by (auto simp: less_eq_Capability_def less_Capability_def)
  show "x \<le> x" by (simp add: less_eq_Capability_def)
  show "x \<le> y \<Longrightarrow> y \<le> z \<Longrightarrow> x \<le> z" by (simp add: less_eq_Capability_def)
  show "x \<le> y \<Longrightarrow> y \<le> x \<Longrightarrow> x = y"
    by (cases x; cases y) (simp_all add: less_eq_Capability_def)
  show "x \<le> y \<or> y \<le> x" by (auto simp: less_eq_Capability_def)
qed

end

datatype CapabilitySetError = InvalidLength | NonCanonical

datatype CapabilitySet = CapabilitySet (capabilities: "Capability list")

definition capability_set_new :: "Capability list \<Rightarrow> CapabilitySetError + CapabilitySet" where
  "capability_set_new values =
     (if values = [] \<or> length values > 6 then Inl InvalidLength
      else if list_ex (\<lambda>(a, b). b \<le> a) (zip values (tl values)) then Inl NonCanonical
      else Inr (CapabilitySet values))"

definition capability_set_all :: CapabilitySet where
  "capability_set_all = CapabilitySet [ApprovalDecide, ApprovalRead, AuditRead, RunCancel, RunRead, RunResume]"

section \<open>Budget amounts\<close>

record BudgetAmounts =
  ba_steps :: u64
  ba_tokens :: u64
  ba_duration_ms :: u64
  ba_cost_microusd :: u64
  ba_tool_dispatches :: u64

definition zero_amounts :: BudgetAmounts where
  "zero_amounts = \<lparr> ba_steps = 0, ba_tokens = 0, ba_duration_ms = 0, ba_cost_microusd = 0,
                     ba_tool_dispatches = 0 \<rparr>"

definition amounts_is_safe :: "BudgetAmounts \<Rightarrow> bool" where
  "amounts_is_safe a =
     list_all (\<lambda>v. v \<le> MAX_SAFE_INTEGER)
       [ba_steps a, ba_tokens a, ba_duration_ms a, ba_cost_microusd a, ba_tool_dispatches a]"

definition fits_within :: "BudgetAmounts \<Rightarrow> BudgetAmounts \<Rightarrow> bool" where
  "fits_within a ceiling =
     (ba_steps a \<le> ba_steps ceiling \<and> ba_tokens a \<le> ba_tokens ceiling
      \<and> ba_duration_ms a \<le> ba_duration_ms ceiling \<and> ba_cost_microusd a \<le> ba_cost_microusd ceiling
      \<and> ba_tool_dispatches a \<le> ba_tool_dispatches ceiling)"

definition amounts_fields :: "BudgetAmounts \<Rightarrow> wire_fields" where
  "amounts_fields a =
     [(''steps'', strict_safe_integer (ba_steps a)), (''tokens'', strict_safe_integer (ba_tokens a)),
      (''duration_ms'', strict_safe_integer (ba_duration_ms a)),
      (''cost_microusd'', strict_safe_integer (ba_cost_microusd a)),
      (''tool_dispatches'', strict_safe_integer (ba_tool_dispatches a))]"

text \<open>The field-wise \<open>checked_add\<close> and \<open>checked_sub\<close> that the callers write out.\<close>

definition amounts_lift :: "(u64 \<Rightarrow> u64 \<Rightarrow> u64 option) \<Rightarrow> BudgetAmounts \<Rightarrow> BudgetAmounts \<Rightarrow> BudgetAmounts option" where
  "amounts_lift f a b =
     Option.bind (f (ba_steps a) (ba_steps b)) (\<lambda>s.
     Option.bind (f (ba_tokens a) (ba_tokens b)) (\<lambda>t.
     Option.bind (f (ba_duration_ms a) (ba_duration_ms b)) (\<lambda>d.
     Option.bind (f (ba_cost_microusd a) (ba_cost_microusd b)) (\<lambda>c.
     map_option (\<lambda>n. \<lparr> ba_steps = s, ba_tokens = t, ba_duration_ms = d, ba_cost_microusd = c,
                         ba_tool_dispatches = n \<rparr>)
       (f (ba_tool_dispatches a) (ba_tool_dispatches b))))))"

end
