(* ===== verification/OperatorRecords.thy ===== *)
theory OperatorRecords
  imports OperatorBase
begin

text \<open>
  The durable records of the operator control plane and their validators:
  \<^verbatim>\<open>crates/proof-kernel/src/operator/durable.rs\<close>, with the prepared-execution bodies of
  \<^verbatim>\<open>store.rs\<close> beside it. Each record has its wire fields in the order of the struct, and a
  validator that returns the first error the code returns.
\<close>

abbreviation text_value :: "string \<Rightarrow> json option" where
  "text_value s \<equiv> Some (JString s)"

abbreviation control_value :: "ControlDigest \<Rightarrow> json option" where
  "control_value d \<equiv> Some (json_control d)"

abbreviation content_value :: "ContentDigest \<Rightarrow> json option" where
  "content_value d \<equiv> Some (json_digest d)"

section \<open>Budget accounts\<close>

record BudgetPolicy =
  pol_schema :: string
  pol_budget_id :: uuid
  pol_workspace_id :: uuid
  pol_limits :: BudgetAmounts
  pol_deadline_at :: utc
  pol_limits_digest :: ControlDigest

definition budget_policy_fields :: "host \<Rightarrow> BudgetPolicy \<Rightarrow> wire_fields" where
  "budget_policy_fields H p =
     [(''schema'', text_value (pol_schema p)), (''budget_id'', strict_uuid_v7 H (pol_budget_id p)),
      (''workspace_id'', strict_uuid_v7 H (pol_workspace_id p)),
      (''limits'', strict_object (amounts_fields (pol_limits p))),
      (''deadline_at'', strict_utc H (pol_deadline_at p)),
      (''limits_digest'', control_value (pol_limits_digest p))]"

definition budget_policy_validate :: "host \<Rightarrow> BudgetPolicy \<Rightarrow> OperatorValidationError + unit" where
  "budget_policy_validate H p =
     (if pol_schema p \<noteq> ''proof.operator.budget-policy/v1''
         \<or> \<not> uuid_is_v7 H (pol_budget_id p) \<or> \<not> uuid_is_v7 H (pol_workspace_id p)
         \<or> \<not> amounts_is_safe (pol_limits p)
      then Inl OvInvalidSchema
      else bindR (digest_without_field H ''Proof-Operator-Budget-Limits-v1'' (budget_policy_fields H p)
                    ''limits_digest'') (\<lambda>d.
             if pol_limits_digest p \<noteq> d then Inl OvInvalidSchema else Inr ()))"

datatype BudgetAccountState = AccActive | AccClosed | AccExhausted

record BudgetAccount =
  acc_schema :: string
  acc_policy :: BudgetPolicy
  acc_revision :: u64
  acc_state :: BudgetAccountState
  acc_reserved :: BudgetAmounts
  acc_committed :: BudgetAmounts
  acc_created_at :: utc
  acc_updated_at :: utc

definition budget_account_validate :: "host \<Rightarrow> BudgetAccount \<Rightarrow> OperatorValidationError + unit" where
  "budget_account_validate H a =
     bindR (budget_policy_validate H (acc_policy a)) (\<lambda>_.
       if acc_schema a \<noteq> ''proof-operator-budget-account/v1'' \<or> acc_revision a > MAX_SAFE_INTEGER
          \<or> \<not> amounts_is_safe (acc_reserved a) \<or> \<not> amounts_is_safe (acc_committed a)
       then Inl OvInvalidSchema
       else if acc_updated_at a < acc_created_at a \<or> pol_deadline_at (acc_policy a) \<le> acc_created_at a
       then Inl OvInvalidChronology
       else bindR (ok_or OvBudgetExceeded (amounts_lift checked_add (acc_reserved a) (acc_committed a))) (\<lambda>used.
              if \<not> fits_within used (pol_limits (acc_policy a)) then Inl OvBudgetExceeded else Inr ()))"

definition can_reserve :: "host \<Rightarrow> BudgetAccount \<Rightarrow> BudgetAmounts \<Rightarrow> utc \<Rightarrow> OperatorValidationError + unit" where
  "can_reserve H a requested now =
     bindR (budget_account_validate H a) (\<lambda>_.
       if \<not> amounts_is_safe requested \<or> acc_state a \<noteq> AccActive \<or> now \<ge> pol_deadline_at (acc_policy a)
       then Inl OvBudgetExceeded
       else bindR (ok_or OvBudgetExceeded (amounts_lift checked_add (acc_reserved a) requested)) (\<lambda>n.
            bindR (ok_or OvBudgetExceeded (amounts_lift checked_add n (acc_committed a))) (\<lambda>combined.
              if \<not> fits_within combined (pol_limits (acc_policy a)) then Inl OvBudgetExceeded else Inr ())))"

section \<open>Run control and leases\<close>

record RunControl =
  rc_schema :: string
  rc_run_id :: uuid
  rc_workspace_id :: uuid
  rc_budget_id :: uuid
  rc_control_revision :: u64
  rc_active_dispatch_reservation_id :: "uuid option"
  rc_recovery_directive_id :: "uuid option"
  rc_recovery_directive_digest :: "ControlDigest option"
  rc_last_command_id :: "uuid option"
  rc_created_at :: utc
  rc_updated_at :: utc
  rc_binding_digest :: ControlDigest

definition run_control_fields :: "host \<Rightarrow> RunControl \<Rightarrow> wire_fields" where
  "run_control_fields H c =
     [(''schema'', text_value (rc_schema c)), (''run_id'', strict_uuid_v7 H (rc_run_id c)),
      (''workspace_id'', strict_uuid_v7 H (rc_workspace_id c)),
      (''budget_id'', strict_uuid_v7 H (rc_budget_id c)),
      (''control_revision'', strict_safe_integer (rc_control_revision c)),
      (''active_dispatch_reservation_id'',
         strict_optional (strict_uuid_v7 H) (rc_active_dispatch_reservation_id c)),
      (''recovery_directive_id'', strict_optional (strict_uuid_v7 H) (rc_recovery_directive_id c)),
      (''recovery_directive_digest'', plain_optional json_control (rc_recovery_directive_digest c)),
      (''last_command_id'', strict_optional (strict_uuid_v7 H) (rc_last_command_id c)),
      (''created_at'', strict_utc H (rc_created_at c)), (''updated_at'', strict_utc H (rc_updated_at c)),
      (''binding_digest'', control_value (rc_binding_digest c))]"

definition some_not_v7 :: "host \<Rightarrow> uuid option list \<Rightarrow> bool" where
  "some_not_v7 H ids = list_ex (\<lambda>i. case i of None \<Rightarrow> False | Some u \<Rightarrow> \<not> uuid_is_v7 H u) ids"

definition run_control_validate :: "host \<Rightarrow> RunControl \<Rightarrow> OperatorValidationError + unit" where
  "run_control_validate H c =
     (if rc_schema c \<noteq> ''proof-operator-run-control/v1'' then Inl OvInvalidSchema
      else if \<not> uuid_is_v7 H (rc_run_id c) \<or> \<not> uuid_is_v7 H (rc_workspace_id c)
              \<or> \<not> uuid_is_v7 H (rc_budget_id c) \<or> rc_control_revision c > MAX_SAFE_INTEGER
      then Inl OvInvalidRevision
      else if (rc_recovery_directive_id c \<noteq> None) \<noteq> (rc_recovery_directive_digest c \<noteq> None)
      then Inl OvInvalidBranch
      else if some_not_v7 H [rc_active_dispatch_reservation_id c, rc_recovery_directive_id c, rc_last_command_id c]
              \<or> rc_updated_at c < rc_created_at c
      then Inl OvInvalidChronology
      else bindR (digest_without_field H ''Proof-Operator-Run-Binding-v1'' (run_control_fields H c)
                    ''binding_digest'') (\<lambda>d.
             if rc_binding_digest c \<noteq> d then Inl OvInvalidChronology else Inr ()))"

datatype RunLeaseState = LeaseActive | LeaseReleased

fun lease_state_text :: "RunLeaseState \<Rightarrow> string" where
  "lease_state_text LeaseActive = ''active''"
| "lease_state_text LeaseReleased = ''released''"

record RunLease =
  rl_schema :: string
  rl_run_id :: uuid
  rl_workspace_id :: uuid
  rl_lease_id :: uuid
  rl_owner_instance_id :: uuid
  rl_process_epoch_id :: uuid
  rl_lease_token_digest :: ControlDigest
  rl_fence_epoch :: u64
  rl_revision :: u64
  rl_state :: RunLeaseState
  rl_acquired_at :: utc
  rl_renewed_at :: utc
  rl_expires_at :: utc
  rl_released_at :: "utc option"
  rl_lease_digest :: ControlDigest

definition run_lease_fields :: "host \<Rightarrow> RunLease \<Rightarrow> wire_fields" where
  "run_lease_fields H l =
     [(''schema'', text_value (rl_schema l)), (''run_id'', strict_uuid_v7 H (rl_run_id l)),
      (''workspace_id'', strict_uuid_v7 H (rl_workspace_id l)),
      (''lease_id'', strict_uuid_v7 H (rl_lease_id l)),
      (''owner_instance_id'', strict_uuid_v7 H (rl_owner_instance_id l)),
      (''process_epoch_id'', strict_uuid_v7 H (rl_process_epoch_id l)),
      (''lease_token_digest'', control_value (rl_lease_token_digest l)),
      (''fence_epoch'', strict_safe_integer (rl_fence_epoch l)),
      (''revision'', strict_safe_integer (rl_revision l)),
      (''state'', text_value (lease_state_text (rl_state l))),
      (''acquired_at'', strict_utc H (rl_acquired_at l)), (''renewed_at'', strict_utc H (rl_renewed_at l)),
      (''expires_at'', strict_utc H (rl_expires_at l)),
      (''released_at'', strict_optional (strict_utc H) (rl_released_at l)),
      (''lease_digest'', control_value (rl_lease_digest l))]"

text \<open>\<open>Duration::seconds(30)\<close>\<close>

definition lease_seconds :: int where
  "lease_seconds = 30 * 10 ^ 9"

definition run_lease_validate :: "host \<Rightarrow> RunLease \<Rightarrow> OperatorValidationError + unit" where
  "run_lease_validate H l =
     (if rl_schema l \<noteq> ''proof.operator.run-lease/v1'' then Inl OvInvalidSchema
      else if rl_fence_epoch l = 0 \<or> rl_fence_epoch l > MAX_SAFE_INTEGER \<or> rl_revision l > MAX_SAFE_INTEGER
              \<or> \<not> list_all (uuid_is_v7 H) [rl_run_id l, rl_workspace_id l, rl_lease_id l,
                                            rl_owner_instance_id l, rl_process_epoch_id l]
      then Inl OvInvalidRevision
      else if rl_renewed_at l < rl_acquired_at l \<or> rl_expires_at l \<le> rl_renewed_at l
              \<or> (rl_state l = LeaseActive) \<noteq> (rl_released_at l = None)
              \<or> (rl_state l = LeaseActive \<and> rl_expires_at l - rl_renewed_at l \<noteq> lease_seconds)
              \<or> (case rl_released_at l of
                   None \<Rightarrow> False
                 | Some released \<Rightarrow> released < rl_renewed_at l \<or> released \<ge> rl_expires_at l)
      then Inl OvInvalidChronology
      else bindR (digest_without_field H ''Proof-Operator-Lease-v1'' (run_lease_fields H l) ''lease_digest'')
             (\<lambda>d. if rl_lease_digest l \<noteq> d then Inl OvInvalidSchema else Inr ()))"

section \<open>Dispatch\<close>

datatype BoundaryKind = Provider | Tool

fun boundary_text :: "BoundaryKind \<Rightarrow> string" where
  "boundary_text Provider = ''provider''"
| "boundary_text Tool = ''tool''"

record DispatchIntent =
  di_schema :: string
  di_kind :: BoundaryKind
  di_adapter :: string
  di_model :: "string option"
  di_operation :: string
  di_version :: string
  di_argument_digest :: ControlDigest
  di_ceiling :: BudgetAmounts

definition dispatch_intent_fields :: "DispatchIntent \<Rightarrow> wire_fields" where
  "dispatch_intent_fields i =
     [(''schema'', text_value (di_schema i)), (''kind'', text_value (boundary_text (di_kind i))),
      (''adapter'', text_value (di_adapter i)), (''model'', plain_optional JString (di_model i)),
      (''operation'', text_value (di_operation i)), (''version'', text_value (di_version i)),
      (''argument_digest'', control_value (di_argument_digest i)),
      (''ceiling'', strict_object (amounts_fields (di_ceiling i)))]"

definition dispatch_intent_validate :: "DispatchIntent \<Rightarrow> OperatorValidationError + unit" where
  "dispatch_intent_validate i =
     (if di_schema i \<noteq> ''proof.operator.dispatch-intent/v1'' \<or> \<not> valid_operation_name (di_operation i)
         \<or> \<not> valid_operation_version (di_version i) \<or> \<not> valid_adapter_name (di_adapter i)
         \<or> (case di_model i of None \<Rightarrow> False | Some m \<Rightarrow> \<not> valid_model_name m)
      then Inl OvInvalidSchema
      else if \<not> amounts_is_safe (di_ceiling i) \<or> (di_kind i = Provider) \<noteq> (di_model i \<noteq> None)
      then Inl OvInvalidBranch
      else Inr ())"

text \<open>\<open>control_digest_serialized\<close> of a record given by its fields.\<close>

definition digest_record :: "host \<Rightarrow> string \<Rightarrow> wire_fields \<Rightarrow> ControlDigest option" where
  "digest_record H domain fs =
     Option.bind (strict_object fs) (\<lambda>v.
       case control_digest_serialized H domain v of Inl _ \<Rightarrow> None | Inr d \<Rightarrow> Some d)"

record ReplayClaimBinding =
  rb_schema :: string
  rb_workspace_id :: uuid
  rb_run_id :: uuid
  rb_step_id :: uuid
  rb_checkpoint_id :: uuid
  rb_checkpoint_sequence :: u64
  rb_checkpoint_digest :: ContentDigest
  rb_operation :: string
  rb_version :: string
  rb_idempotency_key :: uuid
  rb_input_digest :: ContentDigest
  rb_claimed_by :: uuid
  rb_binding_digest :: ControlDigest

text \<open>The field \<open>policy\<close> has one value, which every binding carries.\<close>

definition replay_binding_fields :: "host \<Rightarrow> ReplayClaimBinding \<Rightarrow> wire_fields" where
  "replay_binding_fields H b =
     [(''schema'', text_value (rb_schema b)), (''policy'', text_value ''required_uuidv7_exact_replay''),
      (''workspace_id'', strict_uuid_v7 H (rb_workspace_id b)), (''run_id'', strict_uuid_v7 H (rb_run_id b)),
      (''step_id'', strict_uuid_v7 H (rb_step_id b)),
      (''checkpoint_id'', strict_uuid_v7 H (rb_checkpoint_id b)),
      (''checkpoint_sequence'', strict_safe_integer (rb_checkpoint_sequence b)),
      (''checkpoint_digest'', content_value (rb_checkpoint_digest b)),
      (''operation'', text_value (rb_operation b)), (''version'', text_value (rb_version b)),
      (''idempotency_key'', strict_uuid_v7 H (rb_idempotency_key b)),
      (''input_digest'', content_value (rb_input_digest b)),
      (''claimed_by'', strict_uuid_v7 H (rb_claimed_by b)),
      (''binding_digest'', control_value (rb_binding_digest b))]"

definition recomputed_binding_digest :: "host \<Rightarrow> ReplayClaimBinding \<Rightarrow> OperatorValidationError + ControlDigest" where
  "recomputed_binding_digest H b =
     digest_without_field H ''Proof-Operator-Replay-Binding-v1'' (replay_binding_fields H b) ''binding_digest''"

definition replay_binding_validate :: "host \<Rightarrow> ReplayClaimBinding \<Rightarrow> OperatorValidationError + unit" where
  "replay_binding_validate H b =
     (if rb_schema b \<noteq> ''proof.operator.replay-claim-binding/v1''
         \<or> \<not> list_all (uuid_is_v7 H) [rb_workspace_id b, rb_run_id b, rb_step_id b, rb_checkpoint_id b,
                                       rb_idempotency_key b, rb_claimed_by b]
         \<or> rb_checkpoint_sequence b > MAX_SAFE_INTEGER \<or> \<not> valid_operation_name (rb_operation b)
         \<or> \<not> valid_operation_version (rb_version b)
      then Inl OvInvalidSchema
      else bindR (recomputed_binding_digest H b) (\<lambda>d.
             if d \<noteq> rb_binding_digest b then Inl OvInvalidSchema else Inr ()))"

record DispatchPermit =
  dp_schema :: string
  dp_permit_id :: uuid
  dp_run_id :: uuid
  dp_reservation_id :: uuid
  dp_lease_id :: uuid
  dp_process_epoch_id :: uuid
  dp_fence_epoch :: u64
  dp_expected_control_revision :: u64
  dp_intent_digest :: ControlDigest
  dp_replay_binding_digest :: "ControlDigest option"
  dp_dispatch_token_digest :: ControlDigest
  dp_call_digest :: ControlDigest
  dp_authorized_at :: utc
  dp_budget_deadline_at :: utc

definition dispatch_permit_validate :: "host \<Rightarrow> DispatchPermit \<Rightarrow> OperatorValidationError + unit" where
  "dispatch_permit_validate H p =
     (if dp_schema p \<noteq> ''proof.operator.dispatch-permit/v1''
         \<or> \<not> list_all (uuid_is_v7 H) [dp_permit_id p, dp_run_id p, dp_reservation_id p, dp_lease_id p,
                                       dp_process_epoch_id p]
         \<or> dp_fence_epoch p = 0 \<or> dp_fence_epoch p > MAX_SAFE_INTEGER
         \<or> dp_expected_control_revision p > MAX_SAFE_INTEGER
      then Inl OvInvalidRevision
      else if dp_budget_deadline_at p \<le> dp_authorized_at p then Inl OvInvalidChronology
      else Inr ())"

record RecoveryDirective =
  rd_schema :: string
  rd_directive_id :: uuid
  rd_workspace_id :: uuid
  rd_run_id :: uuid
  rd_source_lease_id :: uuid
  rd_source_reservation_id :: uuid
  rd_source_budget_id :: uuid
  rd_source_idempotency_key :: uuid
  rd_source_request_digest :: ControlDigest
  rd_checkpoint_id :: uuid
  rd_checkpoint_sequence :: u64
  rd_checkpoint_digest :: ContentDigest
  rd_source_fence_epoch :: u64
  rd_source_control_revision :: u64
  rd_intent_digest :: ControlDigest
  rd_replay :: "ReplayClaimBinding option"
  rd_created_at :: utc
  rd_directive_digest :: ControlDigest

text \<open>The fields \<open>classification\<close> and \<open>required_budget_disposition\<close> have one value each.\<close>

definition recovery_directive_fields :: "host \<Rightarrow> RecoveryDirective \<Rightarrow> wire_fields" where
  "recovery_directive_fields H r =
     [(''schema'', text_value (rd_schema r)), (''directive_id'', strict_uuid_v7 H (rd_directive_id r)),
      (''workspace_id'', strict_uuid_v7 H (rd_workspace_id r)), (''run_id'', strict_uuid_v7 H (rd_run_id r)),
      (''classification'', text_value ''pre_dispatch_recoverable''),
      (''source_lease_id'', strict_uuid_v7 H (rd_source_lease_id r)),
      (''source_reservation_id'', strict_uuid_v7 H (rd_source_reservation_id r)),
      (''source_budget_id'', strict_uuid_v7 H (rd_source_budget_id r)),
      (''source_idempotency_key'', strict_uuid_v7 H (rd_source_idempotency_key r)),
      (''source_request_digest'', control_value (rd_source_request_digest r)),
      (''checkpoint_id'', strict_uuid_v7 H (rd_checkpoint_id r)),
      (''checkpoint_sequence'', strict_safe_integer (rd_checkpoint_sequence r)),
      (''checkpoint_digest'', content_value (rd_checkpoint_digest r)),
      (''source_fence_epoch'', strict_safe_integer (rd_source_fence_epoch r)),
      (''source_control_revision'', strict_safe_integer (rd_source_control_revision r)),
      (''intent_digest'', control_value (rd_intent_digest r)),
      (''replay'', strict_optional (\<lambda>b. strict_object (replay_binding_fields H b)) (rd_replay r)),
      (''required_budget_disposition'', text_value ''none''),
      (''created_at'', strict_utc H (rd_created_at r)),
      (''directive_digest'', control_value (rd_directive_digest r))]"

definition recovery_directive_validate :: "host \<Rightarrow> RecoveryDirective \<Rightarrow> OperatorValidationError + unit" where
  "recovery_directive_validate H r =
     (if rd_schema r \<noteq> ''proof.operator.recovery-directive/v1''
         \<or> \<not> list_all (uuid_is_v7 H) [rd_directive_id r, rd_workspace_id r, rd_run_id r, rd_source_lease_id r,
                rd_source_reservation_id r, rd_source_budget_id r, rd_source_idempotency_key r, rd_checkpoint_id r]
         \<or> rd_checkpoint_sequence r > MAX_SAFE_INTEGER
         \<or> rd_source_fence_epoch r = 0 \<or> rd_source_fence_epoch r > MAX_SAFE_INTEGER
         \<or> rd_source_control_revision r > MAX_SAFE_INTEGER
         \<or> (case rd_replay r of
              None \<Rightarrow> False
            | Some b \<Rightarrow>
                \<not> is_ok (replay_binding_validate H b) \<or> rb_workspace_id b \<noteq> rd_workspace_id r
                \<or> rb_run_id b \<noteq> rd_run_id r \<or> rb_checkpoint_id b \<noteq> rd_checkpoint_id r
                \<or> rb_checkpoint_sequence b \<noteq> rd_checkpoint_sequence r
                \<or> rb_checkpoint_digest b \<noteq> rd_checkpoint_digest r)
      then Inl OvInvalidBranch
      else bindR (digest_without_field H ''Proof-Operator-Recovery-Directive-v1'' (recovery_directive_fields H r)
                    ''directive_digest'') (\<lambda>d.
             if rd_directive_digest r \<noteq> d then Inl OvInvalidSchema else Inr ()))"

section \<open>Prepared results\<close>

record ProofReference =
  pr_proof_id :: uuid
  pr_actor_id :: uuid
  pr_operation :: string
  pr_proof_digest :: ContentDigest

definition proof_reference_fields :: "host \<Rightarrow> ProofReference \<Rightarrow> wire_fields" where
  "proof_reference_fields H p =
     [(''proof_id'', strict_uuid_v7 H (pr_proof_id p)), (''actor_id'', strict_uuid_v7 H (pr_actor_id p)),
      (''operation'', text_value (pr_operation p)), (''proof_digest'', content_value (pr_proof_digest p))]"

definition proof_reference_validate :: "host \<Rightarrow> ProofReference \<Rightarrow> OperatorValidationError + unit" where
  "proof_reference_validate H p =
     (if \<not> uuid_is_v7 H (pr_proof_id p) \<or> \<not> uuid_is_v7 H (pr_actor_id p)
         \<or> \<not> valid_operation_name (pr_operation p)
      then Inl OvInvalidSchema else Inr ())"

datatype OperatorStoreError =
  OsConflict | OsCorrupt | OsInvalid | OsNotActionable | OsNotFound | OsSignerFailed
| OsStaleFence | OsStaleRevision | OsUnavailable

record PreparedUsageRecord =
  pu_schema :: string
  pu_boundary_kind :: BoundaryKind
  pu_boundary_calls :: u64
  pu_adapter :: string
  pu_model :: "string option"
  pu_steps :: u64
  pu_tokens :: u64
  pu_cost_microusd :: u64
  pu_tool_dispatches :: u64
  pu_input_digest :: ContentDigest
  pu_output_digest :: ContentDigest

definition prepared_usage_fields :: "PreparedUsageRecord \<Rightarrow> wire_fields" where
  "prepared_usage_fields u =
     [(''schema'', text_value (pu_schema u)), (''boundary_kind'', text_value (boundary_text (pu_boundary_kind u))),
      (''boundary_calls'', strict_safe_integer (pu_boundary_calls u)), (''adapter'', text_value (pu_adapter u)),
      (''model'', plain_optional JString (pu_model u)), (''steps'', strict_safe_integer (pu_steps u)),
      (''tokens'', strict_safe_integer (pu_tokens u)),
      (''cost_microusd'', strict_safe_integer (pu_cost_microusd u)),
      (''tool_dispatches'', strict_safe_integer (pu_tool_dispatches u)),
      (''input_digest'', content_value (pu_input_digest u)),
      (''output_digest'', content_value (pu_output_digest u))]"

definition prepared_usage_validate :: "PreparedUsageRecord \<Rightarrow> OperatorStoreError + unit" where
  "prepared_usage_validate u =
     (if pu_schema u \<noteq> ''proof.operator.prepared-usage-body/v1'' \<or> pu_boundary_calls u \<noteq> 1 \<or> pu_steps u \<noteq> 1
         \<or> \<not> valid_adapter_name (pu_adapter u)
         \<or> (case pu_model u of None \<Rightarrow> False | Some m \<Rightarrow> \<not> valid_model_name m)
         \<or> (pu_boundary_kind u = Provider) \<noteq> (pu_model u \<noteq> None)
         \<or> (pu_boundary_kind u = Provider \<and> pu_tool_dispatches u \<noteq> 0)
         \<or> (pu_boundary_kind u = Tool
            \<and> (pu_tokens u \<noteq> 0 \<or> pu_cost_microusd u \<noteq> 0 \<or> pu_tool_dispatches u \<noteq> 1))
         \<or> list_ex (\<lambda>v. v > MAX_SAFE_INTEGER) [pu_tokens u, pu_cost_microusd u, pu_tool_dispatches u]
      then Inl OsInvalid else Inr ())"

record PreparedRuntimeResultBody =
  px_schema :: string
  px_usage :: PreparedUsageRecord
  px_output_digest :: ContentDigest
  px_proof :: ProofReference
  px_run_revision :: u64
  px_step_revision :: u64
  px_checkpoint_id :: "uuid option"
  px_checkpoint_sequence :: "u64 option"
  px_checkpoint_digest :: "ContentDigest option"
  px_first_event_sequence :: u64
  px_last_event_sequence :: u64

definition prepared_result_fields :: "host \<Rightarrow> PreparedRuntimeResultBody \<Rightarrow> wire_fields" where
  "prepared_result_fields H x =
     [(''schema'', text_value (px_schema x)),
      (''usage'', strict_object (prepared_usage_fields (px_usage x))),
      (''output_digest'', content_value (px_output_digest x)),
      (''proof'', strict_object (proof_reference_fields H (px_proof x))),
      (''run_revision'', strict_safe_integer (px_run_revision x)),
      (''step_revision'', strict_safe_integer (px_step_revision x)),
      (''checkpoint_id'', strict_optional (strict_uuid_v7 H) (px_checkpoint_id x)),
      (''checkpoint_sequence'', strict_optional strict_safe_integer (px_checkpoint_sequence x)),
      (''checkpoint_digest'', strict_optional content_value (px_checkpoint_digest x)),
      (''first_event_sequence'', strict_safe_integer (px_first_event_sequence x)),
      (''last_event_sequence'', strict_safe_integer (px_last_event_sequence x))]"

definition prepared_result_validate :: "host \<Rightarrow> PreparedRuntimeResultBody \<Rightarrow> OperatorStoreError + unit" where
  "prepared_result_validate H x =
     (let all_none = px_checkpoint_id x = None \<and> px_checkpoint_sequence x = None \<and> px_checkpoint_digest x = None;
          all_some = px_checkpoint_id x \<noteq> None \<and> px_checkpoint_sequence x \<noteq> None \<and> px_checkpoint_digest x \<noteq> None
      in if px_schema x \<noteq> ''proof.operator.prepared-runtime-result-body/v1''
            \<or> \<not> is_ok (prepared_usage_validate (px_usage x))
            \<or> \<not> (all_none \<or> all_some)
            \<or> some_not_v7 H [px_checkpoint_id x]
            \<or> list_ex (\<lambda>v. v > MAX_SAFE_INTEGER)
                [px_run_revision x, px_step_revision x,
                 (case px_checkpoint_sequence x of None \<Rightarrow> 0 | Some v \<Rightarrow> v),
                 px_first_event_sequence x, px_last_event_sequence x]
            \<or> px_first_event_sequence x > px_last_event_sequence x
            \<or> px_output_digest x \<noteq> pu_output_digest (px_usage x)
            \<or> \<not> is_ok (proof_reference_validate H (px_proof x))
         then Inl OsInvalid else Inr ())"

text \<open>The field \<open>handler_mutation\<close> has one value, \<open>NoEffect\<close>. Validating a stored
  reservation maps every error of the binding to one error, so that the model of
  \<open>PreparedExecutionBinding::validate\<close> is whether it answers \<open>Ok\<close>.\<close>

record PreparedExecutionBinding =
  pb_schema :: string
  pb_payload_digest :: ControlDigest
  pb_replay_binding_digest :: "ControlDigest option"
  pb_execution_context_id :: uuid
  pb_result :: PreparedRuntimeResultBody
  pb_result_digest :: ControlDigest

definition prepared_binding_valid :: "host \<Rightarrow> PreparedExecutionBinding \<Rightarrow> bool" where
  "prepared_binding_valid H b =
     (pb_schema b = ''proof.operator.prepared-execution-binding/v1''
      \<and> uuid_is_v7 H (pb_execution_context_id b) \<and> is_ok (prepared_result_validate H (pb_result b))
      \<and> digest_record H ''Proof-Operator-Runtime-Result-v1'' (prepared_result_fields H (pb_result b))
          = Some (pb_result_digest b))"

record RuntimeCommit =
  rt_schema :: string
  rt_permit :: DispatchPermit
  rt_expected_run_revision :: u64
  rt_expected_step_revision :: u64
  rt_expected_checkpoint_id :: uuid
  rt_expected_checkpoint_sequence :: u64
  rt_expected_checkpoint_digest :: ContentDigest
  rt_actual_charge :: BudgetAmounts
  rt_prepared_execution_digest :: ControlDigest
  rt_result_digest :: ControlDigest
  rt_committed_at :: utc

definition runtime_commit_validate :: "host \<Rightarrow> RuntimeCommit \<Rightarrow> OperatorValidationError + unit" where
  "runtime_commit_validate H c =
     (if rt_schema c \<noteq> ''proof.operator.runtime-commit/v1''
         \<or> \<not> is_ok (dispatch_permit_validate H (rt_permit c))
         \<or> rt_expected_run_revision c > MAX_SAFE_INTEGER \<or> rt_expected_step_revision c > MAX_SAFE_INTEGER
         \<or> \<not> uuid_is_v7 H (rt_expected_checkpoint_id c)
         \<or> rt_expected_checkpoint_sequence c > MAX_SAFE_INTEGER
         \<or> \<not> amounts_is_safe (rt_actual_charge c)
         \<or> rt_committed_at c < dp_authorized_at (rt_permit c)
      then Inl OvInvalidBranch else Inr ())"

section \<open>Budget reservations\<close>

datatype BudgetReservationState = BrCommitted | BrDispatching | BrForfeited | BrReleased | BrReserved

record BudgetReservation =
  br_schema :: string
  br_reservation_id :: uuid
  br_budget_id :: uuid
  br_run_id :: uuid
  br_lease_id :: uuid
  br_fence_epoch :: u64
  br_idempotency_key :: uuid
  br_request_digest :: ControlDigest
  br_kind :: BoundaryKind
  br_intent :: DispatchIntent
  br_intent_digest :: ControlDigest
  br_replay :: "ReplayClaimBinding option"
  br_recovery :: "RecoveryDirective option"
  br_state :: BudgetReservationState
  br_reserved :: BudgetAmounts
  br_charged :: BudgetAmounts
  br_created_at :: utc
  br_permit_id :: "uuid option"
  br_dispatch_token_digest :: "ControlDigest option"
  br_call_digest :: "ControlDigest option"
  br_prepared_execution_digest :: "ControlDigest option"
  br_result_digest :: "ControlDigest option"
  br_prepared_binding :: "PreparedExecutionBinding option"
  br_runtime_commit :: "RuntimeCommit option"
  br_dispatch_started_at :: "utc option"
  br_settled_at :: "utc option"

text \<open>The three groups of fields the branch table of \<open>BudgetReservation::validate\<close> reads.\<close>

definition result_empty :: "BudgetReservation \<Rightarrow> bool" where
  "result_empty r =
     (br_prepared_execution_digest r = None \<and> br_result_digest r = None
      \<and> br_prepared_binding r = None \<and> br_runtime_commit r = None)"

definition pre_dispatch_empty :: "BudgetReservation \<Rightarrow> bool" where
  "pre_dispatch_empty r =
     (br_permit_id r = None \<and> br_dispatch_token_digest r = None \<and> br_call_digest r = None
      \<and> result_empty r \<and> br_dispatch_started_at r = None)"

definition dispatch_identity :: "BudgetReservation \<Rightarrow> bool" where
  "dispatch_identity r =
     (br_permit_id r \<noteq> None \<and> br_dispatch_token_digest r \<noteq> None \<and> br_call_digest r \<noteq> None
      \<and> br_dispatch_started_at r \<noteq> None)"

definition reservation_branch_valid :: "BudgetReservation \<Rightarrow> bool" where
  "reservation_branch_valid r =
     (case br_state r of
        BrReserved \<Rightarrow> br_charged r = zero_amounts \<and> pre_dispatch_empty r \<and> br_settled_at r = None
      | BrReleased \<Rightarrow> br_charged r = zero_amounts \<and> pre_dispatch_empty r \<and> br_settled_at r \<noteq> None
      | BrDispatching \<Rightarrow> br_charged r = zero_amounts \<and> dispatch_identity r \<and> result_empty r
          \<and> br_settled_at r = None
      | BrForfeited \<Rightarrow> br_charged r = br_reserved r \<and> dispatch_identity r \<and> result_empty r
          \<and> br_settled_at r \<noteq> None
      | BrCommitted \<Rightarrow> dispatch_identity r \<and> br_prepared_execution_digest r \<noteq> None
          \<and> br_result_digest r \<noteq> None \<and> br_prepared_binding r \<noteq> None \<and> br_runtime_commit r \<noteq> None
          \<and> br_settled_at r \<noteq> None)"

definition reservation_chronology :: "BudgetReservation \<Rightarrow> bool" where
  "reservation_chronology r =
     ((case br_dispatch_started_at r of None \<Rightarrow> True | Some t \<Rightarrow> br_created_at r \<le> t)
      \<and> (case br_settled_at r of
           None \<Rightarrow> True
         | Some t \<Rightarrow> br_created_at r \<le> t
             \<and> (case br_dispatch_started_at r of None \<Rightarrow> True | Some start \<Rightarrow> start \<le> t)))"

definition reservation_commit_valid :: "host \<Rightarrow> BudgetReservation \<Rightarrow> OperatorValidationError + unit" where
  "reservation_commit_valid H r =
     (case br_runtime_commit r of
        None \<Rightarrow> Inr ()
      | Some c \<Rightarrow>
          bindR (runtime_commit_validate H c) (\<lambda>_.
          bindR (ok_or OvInvalidBranch (br_prepared_binding r)) (\<lambda>prepared.
            if \<not> prepared_binding_valid H prepared
               \<or> Some (dp_permit_id (rt_permit c)) \<noteq> br_permit_id r
               \<or> dp_reservation_id (rt_permit c) \<noteq> br_reservation_id r
               \<or> dp_run_id (rt_permit c) \<noteq> br_run_id r
               \<or> dp_lease_id (rt_permit c) \<noteq> br_lease_id r
               \<or> dp_fence_epoch (rt_permit c) \<noteq> br_fence_epoch r
               \<or> dp_intent_digest (rt_permit c) \<noteq> br_intent_digest r
               \<or> Some (dp_call_digest (rt_permit c)) \<noteq> br_call_digest r
               \<or> rt_actual_charge c \<noteq> br_charged r
               \<or> Some (rt_prepared_execution_digest c) \<noteq> br_prepared_execution_digest r
               \<or> Some (rt_result_digest c) \<noteq> br_result_digest r
               \<or> rt_prepared_execution_digest c \<noteq> pb_payload_digest prepared
               \<or> rt_result_digest c \<noteq> pb_result_digest prepared
            then Inl OvInvalidBranch else Inr ())))"

text \<open>The two \<open>expect("committed branch")\<close> calls of the source are the comparisons with
  \<open>Some\<close> above: a commit present means the state is \<open>Committed\<close> by the branch table, and
  that branch has both fields.\<close>

definition budget_reservation_validate :: "host \<Rightarrow> BudgetReservation \<Rightarrow> OperatorValidationError + unit" where
  "budget_reservation_validate H r =
     bindR (dispatch_intent_validate (br_intent r)) (\<lambda>_.
       if br_schema r \<noteq> ''proof-operator-budget-reservation/v1''
          \<or> \<not> list_all (uuid_is_v7 H) [br_reservation_id r, br_budget_id r, br_run_id r, br_lease_id r,
                                        br_idempotency_key r]
          \<or> br_fence_epoch r = 0 \<or> br_fence_epoch r > MAX_SAFE_INTEGER
          \<or> br_kind r \<noteq> di_kind (br_intent r)
          \<or> (br_kind r = Provider \<and> br_replay r \<noteq> None)
          \<or> \<not> amounts_is_safe (br_reserved r) \<or> br_reserved r \<noteq> di_ceiling (br_intent r)
          \<or> \<not> amounts_is_safe (br_charged r) \<or> \<not> fits_within (br_charged r) (br_reserved r)
          \<or> some_not_v7 H [br_permit_id r]
          \<or> (case br_replay r of None \<Rightarrow> False | Some b \<Rightarrow> \<not> is_ok (replay_binding_validate H b))
          \<or> (case br_recovery r of None \<Rightarrow> False | Some d \<Rightarrow> \<not> is_ok (recovery_directive_validate H d))
       then Inl OvInvalidBranch
       else bindR (ok_or OvInvalidSchema
                     (digest_record H ''Proof-Operator-Dispatch-Intent-v1'' (dispatch_intent_fields (br_intent r))))
         (\<lambda>expected.
            if br_intent_digest r \<noteq> expected
               \<or> (case br_recovery r of
                    None \<Rightarrow> False
                  | Some d \<Rightarrow> rd_run_id d \<noteq> br_run_id r \<or> rd_intent_digest d \<noteq> br_intent_digest r
                      \<or> rd_replay d \<noteq> br_replay r)
            then Inl OvInvalidSchema
            else if \<not> reservation_branch_valid r \<or> \<not> reservation_chronology r then Inl OvInvalidBranch
            else reservation_commit_valid H r))"

end
