(* ===== verification/OperatorAudit.thy ===== *)
theory OperatorAudit
  imports OperatorRecords
begin

text \<open>
  The run projections and the audit log of the operator control plane:
  \<open>RunProjection\<close> and \<open>AuditEvent\<close> of \<^verbatim>\<open>crates/proof-kernel/src/operator/durable.rs\<close>.
  Every audit event carries the digest of its predecessor and of itself. The lemmas show that
  a digest over the wire form of a record determines the record, and that the log is
  determined by the digest of its last event, short of a blake3 collision.
\<close>

section \<open>Run projections\<close>

datatype AttentionState = AtAwaitingDecision | AtRecoverable | AtRunning | AtTerminal

fun attention_text :: "AttentionState \<Rightarrow> string" where
  "attention_text AtAwaitingDecision = ''awaiting_decision''"
| "attention_text AtRecoverable = ''recoverable''"
| "attention_text AtRunning = ''running''"
| "attention_text AtTerminal = ''terminal''"

fun agent_run_status_text :: "AgentRunStatus \<Rightarrow> string" where
  "agent_run_status_text RunQueued = ''queued''"
| "agent_run_status_text RunRunning = ''running''"
| "agent_run_status_text RunWaitingForInput = ''waiting_for_input''"
| "agent_run_status_text RunSucceeded = ''succeeded''"
| "agent_run_status_text RunFailed = ''failed''"
| "agent_run_status_text RunCancelled = ''cancelled''"

record RunProjection =
  rp_schema :: string
  rp_projection_id :: uuid
  rp_projection_sequence :: u64
  rp_projection_revision :: u64
  rp_workspace_id :: uuid
  rp_run_id :: uuid
  rp_source_run_revision :: u64
  rp_source_control_revision :: u64
  rp_checkpoint_id :: uuid
  rp_checkpoint_sequence :: u64
  rp_checkpoint_digest :: ContentDigest
  rp_fence_epoch :: u64
  rp_run_status :: AgentRunStatus
  rp_attention :: AttentionState
  rp_required_human_id :: "uuid option"
  rp_approval_request_id :: "uuid option"
  rp_recovery_directive_id :: "uuid option"
  rp_recovery_directive_digest :: "ControlDigest option"
  rp_projected_at :: utc
  rp_snapshot_digest :: ControlDigest

definition run_projection_fields :: "host \<Rightarrow> RunProjection \<Rightarrow> wire_fields" where
  "run_projection_fields H p =
     [(''schema'', text_value (rp_schema p)),
      (''projection_id'', strict_uuid_v7 H (rp_projection_id p)),
      (''projection_sequence'', strict_safe_integer (rp_projection_sequence p)),
      (''projection_revision'', strict_safe_integer (rp_projection_revision p)),
      (''workspace_id'', strict_uuid_v7 H (rp_workspace_id p)),
      (''run_id'', strict_uuid_v7 H (rp_run_id p)),
      (''source_run_revision'', strict_safe_integer (rp_source_run_revision p)),
      (''source_control_revision'', strict_safe_integer (rp_source_control_revision p)),
      (''checkpoint_id'', strict_uuid_v7 H (rp_checkpoint_id p)),
      (''checkpoint_sequence'', strict_safe_integer (rp_checkpoint_sequence p)),
      (''checkpoint_digest'', content_value (rp_checkpoint_digest p)),
      (''fence_epoch'', strict_safe_integer (rp_fence_epoch p)),
      (''run_status'', text_value (agent_run_status_text (rp_run_status p))),
      (''attention'', text_value (attention_text (rp_attention p))),
      (''required_human_id'', strict_optional (strict_uuid_v7 H) (rp_required_human_id p)),
      (''approval_request_id'', strict_optional (strict_uuid_v7 H) (rp_approval_request_id p)),
      (''recovery_directive_id'', strict_optional (strict_uuid_v7 H) (rp_recovery_directive_id p)),
      (''recovery_directive_digest'', plain_optional json_control (rp_recovery_directive_digest p)),
      (''projected_at'', strict_utc H (rp_projected_at p)),
      (''snapshot_digest'', control_value (rp_snapshot_digest p))]"

definition projection_branch_valid :: "RunProjection \<Rightarrow> bool" where
  "projection_branch_valid p =
     (let human = rp_required_human_id p \<noteq> None; request = rp_approval_request_id p \<noteq> None;
          directive = rp_recovery_directive_id p \<noteq> None; digest = rp_recovery_directive_digest p \<noteq> None;
          approval = (human \<and> request \<and> \<not> directive \<and> \<not> digest);
          recovery = (\<not> human \<and> \<not> request \<and> directive \<and> digest);
          clear = (\<not> human \<and> \<not> request \<and> \<not> directive \<and> \<not> digest)
      in case rp_attention p of
           AtAwaitingDecision \<Rightarrow> rp_run_status p = RunWaitingForInput \<and> approval
         | AtRecoverable \<Rightarrow> rp_run_status p = RunFailed \<and> recovery
         | AtRunning \<Rightarrow> rp_run_status p \<in> {RunQueued, RunRunning} \<and> clear
         | AtTerminal \<Rightarrow> rp_run_status p \<in> {RunCancelled, RunFailed, RunSucceeded} \<and> clear)"

definition run_projection_validate :: "host \<Rightarrow> RunProjection \<Rightarrow> OperatorValidationError + unit" where
  "run_projection_validate H p =
     (if rp_schema p \<noteq> ''proof-operator-run-projection/v1'' \<or> rp_projection_sequence p = 0
         \<or> list_ex (\<lambda>v. v > MAX_SAFE_INTEGER)
              [rp_projection_sequence p, rp_projection_revision p, rp_source_run_revision p,
               rp_source_control_revision p, rp_checkpoint_sequence p, rp_fence_epoch p]
         \<or> \<not> list_all (uuid_is_v7 H) [rp_projection_id p, rp_workspace_id p, rp_run_id p, rp_checkpoint_id p]
         \<or> some_not_v7 H [rp_required_human_id p, rp_approval_request_id p, rp_recovery_directive_id p]
      then Inl OvInvalidRevision
      else if \<not> projection_branch_valid p then Inl OvInvalidBranch
      else bindR (digest_without_field H ''Proof-Operator-Run-Projection-v1'' (run_projection_fields H p)
                    ''snapshot_digest'') (\<lambda>d.
             if rp_snapshot_digest p \<noteq> d then Inl OvInvalidSchema else Inr ()))"

section \<open>Audit events\<close>

datatype AuditEventKind =
  AkApprovalDecided | AkApprovalExpired | AkBudgetCommitted | AkBudgetForfeited
| AkBudgetRejected | AkBudgetReleased | AkBudgetReserved | AkCommandConflict
| AkCommandRejected | AkControlFailure | AkControlShutdown | AkDispatchAuthorized
| AkLeaseAcquired | AkLeaseReclaimed | AkLeaseReleased | AkLeaseRenewed
| AkRecoveryCompleted | AkRecoveryStarted | AkRunCancelled | AkRunResumed
| AkRuntimeResultCommitted | AkSessionChallengeIssued | AkSessionExpired | AkSessionIssued
| AkSessionReplaced | AkSessionRevoked | AkStaleFenceRejected

fun audit_kind_text :: "AuditEventKind \<Rightarrow> string" where
  "audit_kind_text AkApprovalDecided = ''approval_decided''"
| "audit_kind_text AkApprovalExpired = ''approval_expired''"
| "audit_kind_text AkBudgetCommitted = ''budget_committed''"
| "audit_kind_text AkBudgetForfeited = ''budget_forfeited''"
| "audit_kind_text AkBudgetRejected = ''budget_rejected''"
| "audit_kind_text AkBudgetReleased = ''budget_released''"
| "audit_kind_text AkBudgetReserved = ''budget_reserved''"
| "audit_kind_text AkCommandConflict = ''command_conflict''"
| "audit_kind_text AkCommandRejected = ''command_rejected''"
| "audit_kind_text AkControlFailure = ''control_failure''"
| "audit_kind_text AkControlShutdown = ''control_shutdown''"
| "audit_kind_text AkDispatchAuthorized = ''dispatch_authorized''"
| "audit_kind_text AkLeaseAcquired = ''lease_acquired''"
| "audit_kind_text AkLeaseReclaimed = ''lease_reclaimed''"
| "audit_kind_text AkLeaseReleased = ''lease_released''"
| "audit_kind_text AkLeaseRenewed = ''lease_renewed''"
| "audit_kind_text AkRecoveryCompleted = ''recovery_completed''"
| "audit_kind_text AkRecoveryStarted = ''recovery_started''"
| "audit_kind_text AkRunCancelled = ''run_cancelled''"
| "audit_kind_text AkRunResumed = ''run_resumed''"
| "audit_kind_text AkRuntimeResultCommitted = ''runtime_result_committed''"
| "audit_kind_text AkSessionChallengeIssued = ''session_challenge_issued''"
| "audit_kind_text AkSessionExpired = ''session_expired''"
| "audit_kind_text AkSessionIssued = ''session_issued''"
| "audit_kind_text AkSessionReplaced = ''session_replaced''"
| "audit_kind_text AkSessionRevoked = ''session_revoked''"
| "audit_kind_text AkStaleFenceRejected = ''stale_fence_rejected''"

datatype AuditOutcome =
  AoAccepted | AoConflict | AoExpired | AoFailed | AoRejected

fun audit_outcome_text :: "AuditOutcome \<Rightarrow> string" where
  "audit_outcome_text AoAccepted = ''accepted''"
| "audit_outcome_text AoConflict = ''conflict''"
| "audit_outcome_text AoExpired = ''expired''"
| "audit_outcome_text AoFailed = ''failed''"
| "audit_outcome_text AoRejected = ''rejected''"

datatype AuditFailureScope =
  AfCommand | AfRuntime | AfStorage | AfWorkspace

fun failure_scope_text :: "AuditFailureScope \<Rightarrow> string" where
  "failure_scope_text AfCommand = ''command''"
| "failure_scope_text AfRuntime = ''runtime''"
| "failure_scope_text AfStorage = ''storage''"
| "failure_scope_text AfWorkspace = ''workspace''"

datatype CommandKind =
  CkApprovalDecide | CkRunCancel | CkRunResume | CkSessionRevoke

fun command_kind_text :: "CommandKind \<Rightarrow> string" where
  "command_kind_text CkApprovalDecide = ''approval_decide''"
| "command_kind_text CkRunCancel = ''run_cancel''"
| "command_kind_text CkRunResume = ''run_resume''"
| "command_kind_text CkSessionRevoke = ''session_revoke''"

record AuditEvent =
  ae_schema :: string
  ae_workspace_id :: uuid
  ae_event_id :: uuid
  ae_sequence :: u64
  ae_kind :: AuditEventKind
  ae_outcome :: AuditOutcome
  ae_previous_digest :: "ControlDigest option"
  ae_event_digest :: ControlDigest
  ae_human_id :: "uuid option"
  ae_session_id :: "uuid option"
  ae_challenge_id :: "uuid option"
  ae_challenge_digest :: "ControlDigest option"
  ae_session_authority_digest :: "ControlDigest option"
  ae_related_session_id :: "uuid option"
  ae_server_instance_id :: "uuid option"
  ae_run_id :: "uuid option"
  ae_approval_request_id :: "uuid option"
  ae_command_id :: "uuid option"
  ae_command_kind :: "CommandKind option"
  ae_budget_id :: "uuid option"
  ae_reservation_id :: "uuid option"
  ae_lease_id :: "uuid option"
  ae_source_lease_id :: "uuid option"
  ae_process_epoch_id :: "uuid option"
  ae_permit_id :: "uuid option"
  ae_recovery_directive_id :: "uuid option"
  ae_fence_epoch :: "u64 option"
  ae_auth_epoch :: "u64 option"
  ae_policy_revision :: "u64 option"
  ae_intent_digest :: "ControlDigest option"
  ae_call_digest :: "ControlDigest option"
  ae_decision_digest :: "ContentDigest option"
  ae_recovery_directive_digest :: "ControlDigest option"
  ae_failure_scope :: "AuditFailureScope option"
  ae_proof :: "ProofReference option"
  ae_occurred_at :: utc

definition audit_event_fields :: "host \<Rightarrow> AuditEvent \<Rightarrow> wire_fields" where
  "audit_event_fields H e =
     [(''schema'', text_value (ae_schema e)),
      (''workspace_id'', strict_uuid_v7 H (ae_workspace_id e)),
      (''event_id'', strict_uuid_v7 H (ae_event_id e)),
      (''sequence'', strict_safe_integer (ae_sequence e)),
      (''kind'', text_value (audit_kind_text (ae_kind e))),
      (''outcome'', text_value (audit_outcome_text (ae_outcome e))),
      (''previous_digest'', plain_optional json_control (ae_previous_digest e)),
      (''event_digest'', control_value (ae_event_digest e)),
      (''human_id'', strict_optional (strict_uuid_v7 H) (ae_human_id e)),
      (''session_id'', strict_optional (strict_uuid_v7 H) (ae_session_id e)),
      (''challenge_id'', strict_optional (strict_uuid_v7 H) (ae_challenge_id e)),
      (''challenge_digest'', plain_optional json_control (ae_challenge_digest e)),
      (''session_authority_digest'', plain_optional json_control (ae_session_authority_digest e)),
      (''related_session_id'', strict_optional (strict_uuid_v7 H) (ae_related_session_id e)),
      (''server_instance_id'', strict_optional (strict_uuid_v7 H) (ae_server_instance_id e)),
      (''run_id'', strict_optional (strict_uuid_v7 H) (ae_run_id e)),
      (''approval_request_id'', strict_optional (strict_uuid_v7 H) (ae_approval_request_id e)),
      (''command_id'', strict_optional (strict_uuid_v7 H) (ae_command_id e)),
      (''command_kind'', plain_optional (\<lambda>k. JString (command_kind_text k)) (ae_command_kind e)),
      (''budget_id'', strict_optional (strict_uuid_v7 H) (ae_budget_id e)),
      (''reservation_id'', strict_optional (strict_uuid_v7 H) (ae_reservation_id e)),
      (''lease_id'', strict_optional (strict_uuid_v7 H) (ae_lease_id e)),
      (''source_lease_id'', strict_optional (strict_uuid_v7 H) (ae_source_lease_id e)),
      (''process_epoch_id'', strict_optional (strict_uuid_v7 H) (ae_process_epoch_id e)),
      (''permit_id'', strict_optional (strict_uuid_v7 H) (ae_permit_id e)),
      (''recovery_directive_id'', strict_optional (strict_uuid_v7 H) (ae_recovery_directive_id e)),
      (''fence_epoch'', strict_optional strict_safe_integer (ae_fence_epoch e)),
      (''auth_epoch'', strict_optional strict_safe_integer (ae_auth_epoch e)),
      (''policy_revision'', strict_optional strict_safe_integer (ae_policy_revision e)),
      (''intent_digest'', plain_optional json_control (ae_intent_digest e)),
      (''call_digest'', plain_optional json_control (ae_call_digest e)),
      (''decision_digest'', plain_optional json_digest (ae_decision_digest e)),
      (''recovery_directive_digest'', plain_optional json_control (ae_recovery_directive_digest e)),
      (''failure_scope'', plain_optional (\<lambda>k. JString (failure_scope_text k)) (ae_failure_scope e)),
      (''proof'', strict_optional (\<lambda>p. strict_object (proof_reference_fields H p)) (ae_proof e)),
      (''occurred_at'', strict_utc H (ae_occurred_at e))]"

definition profile_mask :: "AuditEvent \<Rightarrow> u32" where
  "profile_mask e =
     (let present =
        [ae_human_id e \<noteq> None, ae_session_id e \<noteq> None, ae_challenge_id e \<noteq> None,
         ae_related_session_id e \<noteq> None, ae_server_instance_id e \<noteq> None, ae_run_id e \<noteq> None,
         ae_approval_request_id e \<noteq> None, ae_command_id e \<noteq> None, ae_command_kind e \<noteq> None,
         ae_budget_id e \<noteq> None, ae_reservation_id e \<noteq> None, ae_lease_id e \<noteq> None,
         ae_source_lease_id e \<noteq> None, ae_process_epoch_id e \<noteq> None, ae_permit_id e \<noteq> None,
         ae_recovery_directive_id e \<noteq> None, ae_fence_epoch e \<noteq> None, ae_auth_epoch e \<noteq> None,
         ae_policy_revision e \<noteq> None, ae_intent_digest e \<noteq> None, ae_call_digest e \<noteq> None,
         ae_decision_digest e \<noteq> None, ae_recovery_directive_digest e \<noteq> None,
         ae_failure_scope e \<noteq> None, ae_proof e \<noteq> None]
      in fold (\<lambda>(index, yes) bits. bits OR push_bit index (if yes then 1 else 0)) (enumerate 0 present) 0)"

definition proof_operation_is :: "AuditEvent \<Rightarrow> string \<Rightarrow> bool" where
  "proof_operation_is e operation = (case ae_proof e of None \<Rightarrow> False | Some p \<Rightarrow> pr_operation p = operation)"

definition valid_command_profile :: "AuditEvent \<Rightarrow> u32 \<Rightarrow> bool" where
  "valid_command_profile e bits =
     ((ae_command_kind e, bits) \<in>
        {(Some CkApprovalDecide, 0x1e3), (Some CkRunCancel, 0x1a3), (Some CkRunResume, 0x2001e3),
         (Some CkRunResume, 0x4081a3), (Some CkSessionRevoke, 0x183)})"

definition valid_failure_profile :: "AuditEvent \<Rightarrow> u32 \<Rightarrow> bool" where
  "valid_failure_profile e bits =
     (ae_outcome e = AoFailed
      \<and> (ae_failure_scope e, ae_command_kind e, bits) \<in>
          {(Some AfWorkspace, None, 0x800010), (Some AfStorage, None, 0x800010),
           (Some AfCommand, Some CkApprovalDecide, 0x8001f3), (Some AfCommand, Some CkRunCancel, 0x8001b3),
           (Some AfCommand, Some CkRunResume, 0xe081f3), (Some AfCommand, Some CkSessionRevoke, 0x800193),
           (Some AfRuntime, None, 0x996e30)})"

text \<open>The table of which fields an event of each kind carries.\<close>

definition event_profile :: "AuditEvent \<Rightarrow> bool" where
  "event_profile e =
     (let bits = profile_mask e; accepted = (ae_outcome e = AoAccepted)
      in case ae_kind e of
           AkSessionChallengeIssued \<Rightarrow> accepted \<and> bits = 0x60015
         | AkSessionIssued \<Rightarrow> accepted \<and> bits = 0x60017
         | AkSessionReplaced \<Rightarrow> accepted \<and> bits = 0x6001f
         | AkSessionRevoked \<Rightarrow> accepted \<and> bits = 0x1060193 \<and> ae_command_kind e = Some CkSessionRevoke
             \<and> proof_operation_is e ''operator.session_revoke''
         | AkSessionExpired \<Rightarrow> ae_outcome e = AoExpired \<and> bits = 0x60013
         | AkApprovalDecided \<Rightarrow> accepted \<and> bits = 0x12001e3 \<and> ae_command_kind e = Some CkApprovalDecide
             \<and> proof_operation_is e ''operator.approval_decide''
         | AkApprovalExpired \<Rightarrow> ae_outcome e = AoExpired \<and> bits = 0x60
         | AkRunCancelled \<Rightarrow> accepted \<and> bits = 0x10001a3 \<and> ae_command_kind e = Some CkRunCancel
             \<and> proof_operation_is e ''operator.run_cancel''
         | AkRunResumed \<Rightarrow> accepted \<and> bits \<in> {0x12001e3, 0x141a9a3} \<and> ae_command_kind e = Some CkRunResume
             \<and> proof_operation_is e ''operator.run_resume''
         | AkLeaseAcquired \<Rightarrow> accepted \<and> bits = 0x12830
         | AkLeaseRenewed \<Rightarrow> accepted \<and> bits = 0x12830
         | AkLeaseReclaimed \<Rightarrow> accepted \<and> bits \<in> {0x13830, 0x49b830, 0x49bc30}
         | AkLeaseReleased \<Rightarrow> accepted \<and> bits = 0x12830
         | AkStaleFenceRejected \<Rightarrow> ae_outcome e = AoRejected
             \<and> (case ae_fence_epoch e of None \<Rightarrow> False | Some fence \<Rightarrow> fence \<noteq> 0)
             \<and> (ae_command_kind e, bits) \<in>
                 {(Some CkApprovalDecide, 0x101e3), (Some CkRunCancel, 0x101a3),
                  (Some CkRunResume, 0x2101e3), (Some CkRunResume, 0x4181a3)}
         | AkBudgetReserved \<Rightarrow> accepted \<and> bits = 0x90e20
         | AkBudgetReleased \<Rightarrow> accepted \<and> bits = 0x90e20
         | AkBudgetCommitted \<Rightarrow> accepted \<and> bits = 0x194e20
         | AkBudgetForfeited \<Rightarrow> ae_outcome e = AoFailed \<and> bits = 0x194e20
         | AkBudgetRejected \<Rightarrow> ae_outcome e = AoRejected \<and> bits = 0x90e20
         | AkDispatchAuthorized \<Rightarrow> accepted \<and> bits = 0x196e30
         | AkRuntimeResultCommitted \<Rightarrow> accepted \<and> bits = 0x1196e30
         | AkRecoveryStarted \<Rightarrow> accepted \<and> bits = 0x499430
         | AkRecoveryCompleted \<Rightarrow> accepted \<and> bits = 0x49bc30
         | AkControlShutdown \<Rightarrow> accepted \<and> bits = 0x10
         | AkCommandRejected \<Rightarrow> ae_outcome e = AoRejected \<and> valid_command_profile e bits
         | AkCommandConflict \<Rightarrow> ae_outcome e = AoConflict \<and> valid_command_profile e bits
         | AkControlFailure \<Rightarrow> valid_failure_profile e bits)"

definition event_ids :: "AuditEvent \<Rightarrow> uuid option list" where
  "event_ids e =
     [ae_human_id e, ae_session_id e, ae_challenge_id e, ae_related_session_id e, ae_server_instance_id e,
      ae_run_id e, ae_approval_request_id e, ae_command_id e, ae_budget_id e, ae_reservation_id e,
      ae_lease_id e, ae_source_lease_id e, ae_process_epoch_id e, ae_permit_id e, ae_recovery_directive_id e]"

definition event_digest_of :: "host \<Rightarrow> AuditEvent \<Rightarrow> OperatorValidationError + ControlDigest" where
  "event_digest_of H e =
     digest_without_field H ''Proof-Operator-Audit-Event-v1'' (audit_event_fields H e) ''event_digest''"

definition validate_chain_link :: "host \<Rightarrow> AuditEvent \<Rightarrow> u64 \<Rightarrow> ControlDigest option
    \<Rightarrow> OperatorValidationError + unit" where
  "validate_chain_link H e expected_sequence expected_previous =
     (if ae_schema e \<noteq> ''proof.operator.audit-event/v1'' \<or> ae_sequence e \<noteq> expected_sequence
         \<or> ae_sequence e = 0 \<or> ae_previous_digest e \<noteq> expected_previous
         \<or> (ae_sequence e = 1) \<noteq> (ae_previous_digest e = None)
      then Inl OvInvalidChronology
      else if \<not> uuid_is_v7 H (ae_workspace_id e) \<or> \<not> uuid_is_v7 H (ae_event_id e)
         \<or> some_not_v7 H (event_ids e)
         \<or> list_ex (\<lambda>v. case v of None \<Rightarrow> False | Some n \<Rightarrow> n > MAX_SAFE_INTEGER)
              [ae_fence_epoch e, ae_auth_epoch e, ae_policy_revision e]
         \<or> list_ex (\<lambda>v. v = Some 0) [ae_auth_epoch e, ae_policy_revision e]
         \<or> (case ae_proof e of None \<Rightarrow> False | Some p \<Rightarrow> \<not> is_ok (proof_reference_validate H p))
      then Inl OvInvalidUuid
      else if (ae_session_id e \<noteq> None) \<noteq> (ae_session_authority_digest e \<noteq> None) then Inl OvInvalidBranch
      else if (ae_kind e \<in> {AkSessionChallengeIssued, AkSessionIssued, AkSessionReplaced})
              \<noteq> (ae_challenge_digest e \<noteq> None)
      then Inl OvInvalidBranch
      else if \<not> event_profile e then Inl OvInvalidBranch
      else bindR (event_digest_of H e) (\<lambda>expected.
             if expected \<noteq> ae_event_digest e then Inl OvInvalidSchema else Inr ()))"

text \<open>A log read from its first event: each event links to the one before it.\<close>

fun chain_from :: "host \<Rightarrow> u64 \<Rightarrow> ControlDigest option \<Rightarrow> AuditEvent list \<Rightarrow> bool" where
  "chain_from H n previous [] = True"
| "chain_from H n previous (e # es) =
     (is_ok (validate_chain_link H e n previous) \<and> chain_from H (n + 1) (Some (ae_event_digest e)) es)"

abbreviation audit_chain :: "host \<Rightarrow> AuditEvent list \<Rightarrow> bool" where
  "audit_chain H es \<equiv> chain_from H 1 None es"

section \<open>A digest determines the record\<close>

text \<open>The message a record's digest hashes: the domain, a zero byte and the canonical text of
  the record without the field that holds the digest.\<close>

definition hashed_message :: "host \<Rightarrow> string \<Rightarrow> wire_fields \<Rightarrow> string \<Rightarrow> string" where
  "hashed_message H domain fs field =
     domain @ [CHR 0x00]
       @ render H (jobject (map (\<lambda>(k, v). (k, the v)) (filter (\<lambda>(k, _). k \<noteq> field) fs)))"

definition exact_wire :: "json option \<Rightarrow> bool" where
  "exact_wire v = (case v of None \<Rightarrow> True | Some w \<Rightarrow> wf_json w \<and> float_free w)"

lemma exact_wire_simps [simp]:
  "exact_wire None"
  "exact_wire (Some w) \<longleftrightarrow> wf_json w \<and> float_free w"
  by (simp_all add: exact_wire_def)

lemma exact_wire_values [simp]:
  "exact_wire (strict_uuid_v7 H u)"
  "exact_wire (strict_safe_integer n)"
  "exact_wire (strict_utc H t)"
  "wf_json (json_control c)" "float_free (json_control c)"
  "wf_json (json_digest d)" "float_free (json_digest d)"
  by (simp_all add: strict_uuid_v7_def strict_safe_integer_def strict_utc_def json_uuid_def json_utc_def
      json_control_def json_digest_def)

lemma exact_wire_optional [simp]:
  "(\<And>x. v = Some x \<Longrightarrow> exact_wire (f x)) \<Longrightarrow> exact_wire (strict_optional f v)"
  "(\<And>x. v = Some x \<Longrightarrow> exact_wire (Some (g x))) \<Longrightarrow> exact_wire (plain_optional g v)"
  by (auto simp: strict_optional_def plain_optional_def split: option.splits)

lemma exact_wire_object:
  assumes "\<forall>v \<in> snd ` set fs. exact_wire v"
  shows "exact_wire (strict_object fs)"
proof (cases "strict_members fs")
  case (Some ms)
  then have "\<forall>w \<in> snd ` set ms. wf_json w \<and> float_free w"
    using assms by (fastforce simp: strict_members_def list_all_iff split: if_splits)
  with Some show ?thesis by (simp add: strict_object_def wf_jobject float_free_jobject)
qed (simp add: strict_object_def)

lemma jobject_inj:
  assumes keys: "map fst xs = map fst ys" and "distinct (map fst xs)" and "jobject xs = jobject ys"
  shows "xs = ys"
proof (rule nth_equalityI)
  show len: "length xs = length ys" using keys map_eq_imp_length_eq by blast
  have get: "map_of (rev xs) k = map_of (rev ys) k" for k
    using assms(3) by (metis json_get_jobject)
  fix i assume i: "i < length xs"
  have key: "fst (xs ! i) = fst (ys ! i)" using keys i len by (metis nth_map)
  have at: "map_of (rev zs) (fst (zs ! i)) = Some (snd (zs ! i))"
    if "distinct (map fst zs)" and "i < length zs" for zs :: "(string \<times> json) list"
    using that by (intro map_of_is_SomeI) (simp_all add: rev_map [symmetric])
  have "Some (snd (xs ! i)) = Some (snd (ys ! i))"
    using at [of xs] at [of ys] assms(2) i len key get keys by metis
  with key show "xs ! i = ys ! i" by (simp add: prod_eq_iff)
qed

lemma digest_without_field_Inr:
  assumes "digest_without_field H domain fs field = Inr d" and "\<forall>v \<in> snd ` set fs. exact_wire v"
  shows "\<forall>v \<in> snd ` set fs. v \<noteq> None"
    and "d = ControlDigest (host_blake3 H (hashed_message H domain fs field))"
proof -
  let ?ms = "map (\<lambda>(k, v). (k, the v)) fs"
  show some: "\<forall>v \<in> snd ` set fs. v \<noteq> None"
    using assms(1) by (force simp: digest_without_field_def strict_members_def list_all_iff split: if_splits)
  have eq: "filter (\<lambda>(k, _). k \<noteq> field) ?ms = map (\<lambda>(k, v). (k, the v)) (filter (\<lambda>(k, _). k \<noteq> field) fs)"
    by (simp add: filter_map comp_def case_prod_unfold)
  have "\<forall>w \<in> snd ` set (filter (\<lambda>(k, _). k \<noteq> field) ?ms). wf_json w \<and> float_free w"
    using some assms(2) by fastforce
  then have "canonicalize_serialized H (jobject (filter (\<lambda>(k, _). k \<noteq> field) ?ms))
      = Inr (render H (jobject (filter (\<lambda>(k, _). k \<noteq> field) ?ms)))"
    by (simp only: canonicalize_serialized_def) (intro canonicalize_exact_ok wf_jobject float_free_jobject; simp)
  moreover have "strict_members fs = Some ?ms"
    using some by (force simp: strict_members_def list_all_iff)
  ultimately show "d = ControlDigest (host_blake3 H (hashed_message H domain fs field))"
    using assms(1) by (simp add: digest_without_field_def control_digest_serialized_def control_digest_def
        hashed_message_def eq)
qed

lemma hashed_message_inj:
  assumes "quote_law H" and "hashed_message H domain fs field = hashed_message H domain fs' field"
    and keys: "map fst fs = map fst fs'" and "distinct (map fst fs)"
    and exact: "\<forall>v \<in> snd ` set fs. exact_wire v \<and> v \<noteq> None" "\<forall>v \<in> snd ` set fs'. exact_wire v \<and> v \<noteq> None"
  shows "filter (\<lambda>(k, _). k \<noteq> field) fs = filter (\<lambda>(k, _). k \<noteq> field) fs'"
proof -
  let ?f = "filter (\<lambda>(k, _). k \<noteq> field)" and ?the = "map (\<lambda>(k, v). (k, the v))"
  have fst_f: "map fst (?f gs) = filter (\<lambda>k. k \<noteq> field) (map fst gs)" for gs :: wire_fields
    by (simp add: filter_map comp_def case_prod_unfold)
  have fst_the: "map fst (?the gs) = map fst gs" for gs :: wire_fields
    by (simp add: comp_def case_prod_unfold)
  have ok: "\<forall>w \<in> snd ` set (?the (?f gs)). wf_json w \<and> float_free w"
    if "\<forall>v \<in> snd ` set gs. exact_wire v \<and> v \<noteq> None" for gs :: wire_fields
    using that by fastforce
  have "jobject (?the (?f fs)) = jobject (?the (?f fs'))"
    using assms(2) ok [OF exact(1)] ok [OF exact(2)]
    by (intro render_inj [OF assms(1)] wf_jobject float_free_jobject) (simp_all add: hashed_message_def)
  then have "?the (?f fs) = ?the (?f fs')"
    using keys assms(4) by (intro jobject_inj) (simp_all only: fst_the fst_f distinct_filter)
  then have "map (\<lambda>(k, v). (k, Some v)) (?the (?f fs)) = map (\<lambda>(k, v). (k, Some v)) (?the (?f fs'))"
    by (rule arg_cong)
  moreover have restore: "map (\<lambda>(k, v). (k, Some v)) (?the (?f gs)) = ?f gs"
    if "\<forall>v \<in> snd ` set gs. exact_wire v \<and> v \<noteq> None" for gs :: wire_fields
    using that by (induction gs) auto
  ultimately show ?thesis by (simp only: restore [OF exact(1)] restore [OF exact(2)])
qed

lemma exact_proof_reference [simp]: "exact_wire (strict_object (proof_reference_fields H p))"
  by (rule exact_wire_object) (simp add: proof_reference_fields_def)

lemma exact_audit_event: "\<forall>v \<in> snd ` set (audit_event_fields H e). exact_wire v"
  by (simp add: audit_event_fields_def)

lemma keys_audit_event: "map fst (audit_event_fields H e) = map fst (audit_event_fields H e')"
  by (simp add: audit_event_fields_def)

lemma distinct_audit_event: "distinct (map fst (audit_event_fields H e))"
  by (simp add: audit_event_fields_def)

text \<open>The wire form of a field determines its value.\<close>

definition wire_inj :: "('a \<Rightarrow> json option) \<Rightarrow> bool" where
  "wire_inj f \<longleftrightarrow> (\<forall>a b. f a \<noteq> None \<longrightarrow> f a = f b \<longrightarrow> a = b) \<and> (\<forall>a. f a \<noteq> Some JNull)"

lemma wire_injD: "wire_inj f \<Longrightarrow> \<exists>y. f a = Some y \<Longrightarrow> f a = f b \<Longrightarrow> a = b"
  by (auto simp: wire_inj_def)

lemma wire_inj_optional:
  assumes "wire_inj f" and "\<exists>y. strict_optional f a = Some y" and "strict_optional f a = strict_optional f b"
  shows "a = b"
  using assms by (cases a; cases b) (auto simp: strict_optional_def wire_inj_def dest: sym)

lemma wire_inj_plain:
  assumes "wire_inj (\<lambda>x. Some (g x))" and "plain_optional g a = plain_optional g b"
  shows "a = b"
  using assms by (cases a; cases b) (auto simp: plain_optional_def wire_inj_def dest: sym)

lemma control_encoded_inj: "control_encoded c = control_encoded d \<longleftrightarrow> c = d"
  by (cases c; cases d) (simp add: control_encoded_def digest_hex_inj)

lemma wire_inj_text: "wire_inj (\<lambda>x. Some (JString (g x))) \<longleftrightarrow> inj g"
  by (auto simp: wire_inj_def inj_def)

lemma inj_texts: "inj audit_kind_text" "inj audit_outcome_text" "inj command_kind_text" "inj failure_scope_text"
proof -
  show "inj audit_outcome_text" "inj command_kind_text" "inj failure_scope_text"
    by (rule injI; rename_tac a b; case_tac a; case_tac b; simp)+
  show "inj audit_kind_text"
    by (rule injI; rename_tac a b; case_tac a; case_tac b; simp)
qed

lemma wire_inj_values:
  assumes "text_law H"
  shows "wire_inj (strict_uuid_v7 H)" "wire_inj strict_safe_integer" "wire_inj (strict_utc H)"
    "wire_inj (\<lambda>c. Some (json_control c))" "wire_inj (\<lambda>d. Some (json_digest d))"
    "wire_inj (\<lambda>k. Some (JString (audit_kind_text k)))" "wire_inj (\<lambda>k. Some (JString (audit_outcome_text k)))"
    "wire_inj (\<lambda>k. Some (JString (command_kind_text k)))" "wire_inj (\<lambda>k. Some (JString (failure_scope_text k)))"
  by (auto simp: wire_inj_text inj_texts)
    (auto simp: wire_inj_def strict_uuid_v7_def strict_safe_integer_def strict_utc_def
      json_value_inj [OF assms] control_encoded_inj json_uuid_def json_utc_def json_control_def json_digest_def
      text_inj [OF assms] digest_hex_inj split: if_splits)


lemma proof_reference_fields_inj:
  assumes "text_law H" and "strict_object (proof_reference_fields H p) \<noteq> None"
    and "strict_object (proof_reference_fields H p) = strict_object (proof_reference_fields H q)"
  shows "p = q"
proof -
  note inj = wire_inj_values [OF assms(1), THEN wire_injD]
  obtain m where m: "strict_members (proof_reference_fields H p) = Some m"
    using assms(2) by (auto simp: strict_object_def)
  obtain m' where m': "strict_members (proof_reference_fields H q) = Some m'" and "jobject m = jobject m'"
    using assms(3) m by (cases "strict_members (proof_reference_fields H q)") (auto simp: strict_object_def)
  moreover have "map fst m = map fst m'" and "distinct (map fst m)"
    using m m' by (auto simp: strict_members_def proof_reference_fields_def split: if_splits)
  ultimately have "m = m'" by (intro jobject_inj)
  with m m' show ?thesis
    by (intro ProofReference.equality)
      (auto simp: strict_members_def proof_reference_fields_def split: if_splits
        intro: inj simp: json_value_inj [OF assms(1)] strict_uuid_v7_def)
qed

lemma wire_inj_proof: "text_law H \<Longrightarrow> wire_inj (\<lambda>p. strict_object (proof_reference_fields H p))"
  using proof_reference_fields_inj
  by (auto simp: wire_inj_def strict_object_def jobject_def)

lemma audit_event_fields_inj:
  assumes "text_law H" and some: "\<forall>v \<in> snd ` set (audit_event_fields H e). v \<noteq> None"
    and eq: "filter (\<lambda>(k, _). k \<noteq> ''event_digest'') (audit_event_fields H e)
        = filter (\<lambda>(k, _). k \<noteq> ''event_digest'') (audit_event_fields H e')"
    and digest: "ae_event_digest e = ae_event_digest e'"
  shows "e = e'"
proof -
  note inj = wire_inj_values [OF assms(1), THEN wire_injD] wire_inj_values [OF assms(1), THEN wire_inj_optional]
    wire_inj_values(4,5,8,9) [OF assms(1), THEN wire_inj_plain] wire_inj_proof [OF assms(1), THEN wire_inj_optional]
    inj_texts [THEN injD]
  have eqs: "list_all2 (\<lambda>a b. snd a = snd b)
      (filter (\<lambda>(k, _). k \<noteq> ''event_digest'') (audit_event_fields H e))
      (filter (\<lambda>(k, _). k \<noteq> ''event_digest'') (audit_event_fields H e'))"
    unfolding eq by (simp add: list_all2_refl)
  note eqs' = eqs [unfolded audit_event_fields_def, simplified]
  note some' = some [unfolded audit_event_fields_def, simplified]
  show ?thesis
    using eqs' some' digest
    by - (elim conjE, rule AuditEvent.equality, (assumption | (erule inj, assumption) | erule inj | simp (no_asm))+)
qed


section \<open>The audit chain\<close>

definition event_message :: "host \<Rightarrow> AuditEvent \<Rightarrow> string" where
  "event_message H e =
     hashed_message H ''Proof-Operator-Audit-Event-v1'' (audit_event_fields H e) ''event_digest''"

lemma validate_chain_link_ok:
  assumes "is_ok (validate_chain_link H e n p)"
  shows "ae_sequence e = n" and "ae_previous_digest e = p" and "event_digest_of H e = Inr (ae_event_digest e)"
  using assms
  by (auto simp: validate_chain_link_def is_ok_iff bindR_eq_Inr split: if_splits)

lemma event_digest_binds:
  assumes "quote_law H" and "text_law H"
    and d: "event_digest_of H e = Inr (ae_event_digest e)" and d': "event_digest_of H e' = Inr (ae_event_digest e')"
    and "ae_event_digest e = ae_event_digest e'"
  shows "e = e' \<or> blake3_collision H (event_message H e) (event_message H e')"
proof (cases "event_message H e = event_message H e'")
  case True
  note some = digest_without_field_Inr(1) [OF d [unfolded event_digest_of_def] exact_audit_event]
    and some' = digest_without_field_Inr(1) [OF d' [unfolded event_digest_of_def] exact_audit_event]
  have "\<forall>v \<in> snd ` set (audit_event_fields H e). exact_wire v \<and> v \<noteq> None"
    and "\<forall>v \<in> snd ` set (audit_event_fields H e'). exact_wire v \<and> v \<noteq> None"
    using some some' exact_audit_event [of H e] exact_audit_event [of H e'] by blast+
  from hashed_message_inj [OF assms(1) True [unfolded event_message_def] keys_audit_event distinct_audit_event this]
  have "filter (\<lambda>(k, _). k \<noteq> ''event_digest'') (audit_event_fields H e)
      = filter (\<lambda>(k, _). k \<noteq> ''event_digest'') (audit_event_fields H e')" .
  then show ?thesis using audit_event_fields_inj [OF assms(2) some _ assms(5)] by blast
next
  case False
  then show ?thesis
    using digest_without_field_Inr(2) [OF d [unfolded event_digest_of_def] exact_audit_event]
      digest_without_field_Inr(2) [OF d' [unfolded event_digest_of_def] exact_audit_event] assms(5)
    by (simp add: blake3_collision_def event_message_def)
qed

text \<open>The digest of the last event, which \<open>operator_audit_heads\<close> keeps.\<close>

definition chain_head :: "ControlDigest option \<Rightarrow> AuditEvent list \<Rightarrow> ControlDigest option" where
  "chain_head p es = (if es = [] then p else Some (ae_event_digest (last es)))"

lemma chain_from_snoc:
  "chain_from H n p (es @ [e]) \<longleftrightarrow>
     chain_from H n p es \<and> is_ok (validate_chain_link H e (n + of_nat (length es)) (chain_head p es))"
  by (induction es arbitrary: n p) (auto simp: chain_head_def algebra_simps)

lemma chain_head_snoc [simp]: "chain_head p (es @ [e]) = Some (ae_event_digest e)"
  by (simp add: chain_head_def)

lemma audit_chain_binds:
  assumes "quote_law H" and "text_law H"
    and "audit_chain H es" and "audit_chain H es'" and "chain_head None es = chain_head None es'"
  shows "es = es' \<or> (\<exists>e \<in> set es. \<exists>e' \<in> set es'. blake3_collision H (event_message H e) (event_message H e'))"
  using assms(3-)
proof (induction es arbitrary: es' rule: rev_induct)
  case Nil
  then show ?case by (simp add: chain_head_def split: if_splits)
next
  case (snoc e es)
  from snoc.prems(3) obtain fs f where es': "es' = fs @ [f]"
    by (cases es' rule: rev_cases) (simp_all add: chain_head_def)
  note link = snoc.prems(1) [unfolded chain_from_snoc] and link' = snoc.prems(2) [unfolded es' chain_from_snoc]
  have "e = f \<or> blake3_collision H (event_message H e) (event_message H f)"
    using link link' snoc.prems(3) validate_chain_link_ok(3)
    by (intro event_digest_binds [OF assms(1,2)]) (auto simp: es')
  moreover have "es = fs \<or> (\<exists>e \<in> set es. \<exists>e' \<in> set fs. blake3_collision H (event_message H e) (event_message H e'))"
    if "e = f"
    using link link' that validate_chain_link_ok(2) by (intro snoc.IH) (auto, metis)
  ultimately show ?case by (auto simp: es')
qed

end
