(* ===== verification/OperatorStore.thy ===== *)
theory OperatorStore
  imports OperatorAudit
begin

text \<open>
  The SQLite store of the operator control plane:
  \<^verbatim>\<open>crates/proof-storage/src/sqlite/operator_store.rs\<close> over the tables of
  \<^verbatim>\<open>migration_14_up.sql\<close> beside it, for run leases (claim, renew, release, the release of an
  expired lease in \<open>reclaim\<close>), projections and the audit log. The lease token custody is that
  of \<^verbatim>\<open>crates/proof-kernel/src/operator/prepared.rs\<close>.

  A table is the list of its rows, and a row is the record that its JSON column holds; the
  other columns repeat fields of the record. The uniqueness and foreign-key constraints of the
  tables are checks of the inserts and updates; the column checks repeat the validators of the
  records. An operation runs in an immediate transaction: an error before the commit leaves
  the store as it was. The clock and the identifiers drawn by a call are its environment.
  Failures of the database itself (\<open>Unavailable\<close> from a lock or from I/O) are left out.
\<close>

section \<open>Tables\<close>

record approval_row =
  ar_approval_request_id :: uuid
  ar_run_id :: uuid
  ar_required_human_id :: uuid
  ar_created_at :: utc

datatype ReplayRowState = RyClaimed | RyCompleted | RyFailed

text \<open>A row of \<open>execution_replays\<close>, without the columns that only a completed execution has.\<close>

record replay_row =
  ry_operation :: string
  ry_version :: string
  ry_idempotency_key :: uuid
  ry_input_digest :: ContentDigest
  ry_claim_token :: uuid
  ry_claimed_by :: uuid
  ry_claimed_at :: utc
  ry_state :: ReplayRowState

record OperatorStore =
  os_controls :: "RunControl list"
  os_leases :: "RunLease list"
  os_reservations :: "BudgetReservation list"
  os_budgets :: "BudgetAccount list"
  os_directives :: "RecoveryDirective list"
  os_approvals :: "approval_row list"
  os_projections :: "RunProjection list"
  os_heads :: "uuid \<Rightarrow> (u64 \<times> ControlDigest option) option"
  os_events :: "AuditEvent list"
  os_runs :: "AgentRun list"
  os_steps :: "AgentRunStep list"
  os_checkpoints :: "AgentCheckpoint list"
  os_principals :: "uuid list"
  os_approval_requests :: "uuid list"
  os_proofs :: "uuid list"
  os_replays :: "replay_row list"
  os_bindings :: "(ReplayClaimBinding \<times> uuid) list"

text \<open>The context of an operator store: the trusted time and the fresh identifiers that a call
  draws, in the order of the draws (each draw may fail), and the operations of the schema
  catalog.\<close>

record OperatorEnv =
  env_now :: "utc option"
  env_uuid :: "nat \<Rightarrow> uuid option"
  env_catalog :: "(string \<times> string) list"

definition operator_now :: "OperatorEnv option \<Rightarrow> OperatorStoreError + utc" where
  "operator_now ctx = bindR (ok_or OsUnavailable ctx) (\<lambda>env. ok_or OsUnavailable (env_now env))"

definition operator_uuid :: "OperatorEnv option \<Rightarrow> nat \<Rightarrow> OperatorStoreError + uuid" where
  "operator_uuid ctx n = bindR (ok_or OsUnavailable ctx) (\<lambda>env. ok_or OsUnavailable (env_uuid env n))"

definition invalid_if :: "bool \<Rightarrow> OperatorStoreError + unit" where
  "invalid_if condition = (if condition then Inl OsInvalid else Inr ())"

text \<open>\<open>u64_safe\<close> of a count that SQLite computed, and the guarded increment of a revision.\<close>

definition u64_safe :: "nat \<Rightarrow> OperatorStoreError + u64" where
  "u64_safe n = (if n > unat MAX_SAFE_INTEGER then Inl OsCorrupt else Inr (of_nat n))"

definition safe_increment :: "u64 \<Rightarrow> OperatorStoreError + u64" where
  "safe_increment n =
     (case checked_add n 1 of
        None \<Rightarrow> Inl OsCorrupt
      | Some m \<Rightarrow> if m \<le> MAX_SAFE_INTEGER then Inr m else Inl OsCorrupt)"

definition store_digest :: "host \<Rightarrow> string \<Rightarrow> wire_fields \<Rightarrow> string \<Rightarrow> OperatorStoreError + ControlDigest" where
  "store_digest H domain fs field = map_err (\<lambda>_. OsInvalid) (digest_without_field H domain fs field)"

text \<open>The row that \<open>ORDER BY ... DESC LIMIT 1\<close> picks.\<close>

fun last_row :: "('a \<Rightarrow> 'a \<Rightarrow> bool) \<Rightarrow> 'a list \<Rightarrow> 'a option" where
  "last_row lt [] = None"
| "last_row lt (x # xs) =
     (case last_row lt xs of None \<Rightarrow> Some x | Some y \<Rightarrow> Some (if lt x y then y else x))"

definition references :: "uuid option \<Rightarrow> uuid list \<Rightarrow> bool" where
  "references key table = (case key of None \<Rightarrow> True | Some k \<Rightarrow> k \<in> set table)"

section \<open>Run control\<close>

definition load_control :: "host \<Rightarrow> OperatorStore \<Rightarrow> uuid \<Rightarrow> OperatorStoreError + RunControl" where
  "load_control H s run =
     bindR (ok_or OsNotFound (find (\<lambda>c. rc_run_id c = run) (os_controls s))) (\<lambda>c.
       if is_ok (run_control_validate H c) then Inr c else Inl OsCorrupt)"

definition bump_control :: "host \<Rightarrow> RunControl \<Rightarrow> utc \<Rightarrow> OperatorStoreError + RunControl" where
  "bump_control H c now =
     bindR (safe_increment (rc_control_revision c)) (\<lambda>revision.
       let c1 = c\<lparr> rc_control_revision := revision, rc_updated_at := now \<rparr>
       in bindR (store_digest H ''Proof-Operator-Run-Binding-v1'' (run_control_fields H c1) ''binding_digest'')
            (\<lambda>d. let c2 = c1\<lparr> rc_binding_digest := d \<rparr>
                 in if is_ok (run_control_validate H c2) then Inr c2 else Inl OsCorrupt))"

definition update_run_control :: "host \<Rightarrow> RunControl \<Rightarrow> OperatorStore \<Rightarrow> OperatorStoreError + OperatorStore" where
  "update_run_control H c s =
     (if \<not> is_ok (run_control_validate H c) then Inl OsCorrupt
      else if list_ex (\<lambda>c'. rc_run_id c' \<noteq> rc_run_id c \<and> rc_binding_digest c' = rc_binding_digest c) (os_controls s)
      then Inl OsUnavailable
      else if \<not> list_ex (\<lambda>c'. rc_run_id c' = rc_run_id c) (os_controls s) then Inl OsCorrupt
      else Inr (s\<lparr> os_controls := map (\<lambda>c'. if rc_run_id c' = rc_run_id c then c else c') (os_controls s) \<rparr>))"

section \<open>Leases\<close>

definition load_lease :: "host \<Rightarrow> OperatorStore \<Rightarrow> uuid \<Rightarrow> OperatorStoreError + RunLease" where
  "load_lease H s lease =
     bindR (ok_or OsNotFound (find (\<lambda>l. rl_lease_id l = lease) (os_leases s))) (\<lambda>l.
       if is_ok (run_lease_validate H l) then Inr l else Inl OsCorrupt)"

definition active_leases :: "OperatorStore \<Rightarrow> uuid \<Rightarrow> RunLease list" where
  "active_leases s run = filter (\<lambda>l. rl_run_id l = run \<and> rl_state l = LeaseActive) (os_leases s)"

text \<open>\<open>COALESCE(MAX(fence_epoch), 0)\<close>\<close>

definition max_fence :: "OperatorStore \<Rightarrow> uuid \<Rightarrow> u64" where
  "max_fence s run = fold (\<lambda>l m. max (rl_fence_epoch l) m) (filter (\<lambda>l. rl_run_id l = run) (os_leases s)) 0"

definition insert_lease :: "RunLease \<Rightarrow> OperatorStore \<Rightarrow> OperatorStoreError + OperatorStore" where
  "insert_lease l s =
     (if list_ex (\<lambda>l'. rl_lease_id l' = rl_lease_id l
           \<or> (rl_run_id l' = rl_run_id l
              \<and> (rl_fence_epoch l' = rl_fence_epoch l
                 \<or> (rl_state l' = LeaseActive \<and> rl_state l = LeaseActive)))) (os_leases s)
      then Inl OsUnavailable
      else Inr (s\<lparr> os_leases := os_leases s @ [l] \<rparr>))"

definition update_lease :: "host \<Rightarrow> RunLease \<Rightarrow> OperatorStore \<Rightarrow> OperatorStoreError + OperatorStore" where
  "update_lease H l s =
     (if \<not> is_ok (run_lease_validate H l) then Inl OsCorrupt
      else if list_ex (\<lambda>l'. rl_lease_id l' \<noteq> rl_lease_id l \<and> rl_run_id l' = rl_run_id l
             \<and> rl_state l' = LeaseActive \<and> rl_state l = LeaseActive) (os_leases s)
      then Inl OsUnavailable
      else if \<not> list_ex (\<lambda>l'. rl_lease_id l' = rl_lease_id l) (os_leases s) then Inl OsCorrupt
      else Inr (s\<lparr> os_leases := map (\<lambda>l'. if rl_lease_id l' = rl_lease_id l then l else l') (os_leases s) \<rparr>))"

definition digest_lease :: "host \<Rightarrow> RunLease \<Rightarrow> OperatorStoreError + RunLease" where
  "digest_lease H l =
     bindR (store_digest H ''Proof-Operator-Lease-v1'' (run_lease_fields H l) ''lease_digest'')
       (\<lambda>d. Inr (l\<lparr> rl_lease_digest := d \<rparr>))"

definition lease_token_digest :: "host \<Rightarrow> string \<Rightarrow> ControlDigest" where
  "lease_token_digest H token = control_digest H ''Proof-Operator-Lease-Token-v1'' token"

record LeaseAuthority =
  la_schema :: string
  la_workspace_id :: uuid
  la_run_id :: uuid
  la_lease_id :: uuid
  la_owner_instance_id :: uuid
  la_process_epoch_id :: uuid
  la_fence_epoch :: u64
  la_expected_control_revision :: u64
  la_lease_token :: string

definition validate_authority :: "host \<Rightarrow> OperatorStore \<Rightarrow> LeaseAuthority \<Rightarrow> utc
    \<Rightarrow> OperatorStoreError + RunControl \<times> RunLease" where
  "validate_authority H s a now =
     bindR (invalid_if (la_schema a \<noteq> ''proof.operator.lease-authority/v1''
         \<or> \<not> list_all (uuid_is_v7 H) [la_workspace_id a, la_run_id a, la_lease_id a, la_owner_instance_id a,
                                       la_process_epoch_id a]
         \<or> la_fence_epoch a = 0 \<or> la_fence_epoch a > MAX_SAFE_INTEGER
         \<or> la_expected_control_revision a > MAX_SAFE_INTEGER)) (\<lambda>_.
     bindR (ok_or OsStaleFence (find (\<lambda>l. rl_lease_id l = la_lease_id a) (os_leases s))) (\<lambda>row.
       if lease_token_digest H (la_lease_token a) \<noteq> rl_lease_token_digest row then Inl OsStaleFence
       else
     bindR (load_control H s (la_run_id a)) (\<lambda>control.
     bindR (load_lease H s (la_lease_id a)) (\<lambda>lease.
       if rc_workspace_id control \<noteq> la_workspace_id a
          \<or> rc_control_revision control \<noteq> la_expected_control_revision a
          \<or> rl_workspace_id lease \<noteq> la_workspace_id a \<or> rl_run_id lease \<noteq> la_run_id a
          \<or> rl_owner_instance_id lease \<noteq> la_owner_instance_id a
          \<or> rl_process_epoch_id lease \<noteq> la_process_epoch_id a
          \<or> rl_fence_epoch lease \<noteq> la_fence_epoch a
          \<or> rl_state lease \<noteq> LeaseActive \<or> now \<ge> rl_expires_at lease
       then Inl OsStaleFence else Inr (control, lease)))))"

section \<open>Projections\<close>

definition insert_projection :: "RunProjection \<Rightarrow> OperatorStore \<Rightarrow> OperatorStoreError + OperatorStore" where
  "insert_projection p s =
     (if list_ex (\<lambda>q. rp_projection_sequence q = rp_projection_sequence p \<or> rp_projection_id q = rp_projection_id p
           \<or> (rp_workspace_id q = rp_workspace_id p \<and> rp_run_id q = rp_run_id p
              \<and> rp_projection_revision q = rp_projection_revision p)) (os_projections s)
         \<or> \<not> references (rp_recovery_directive_id p) (map rd_directive_id (os_directives s))
         \<or> \<not> references (rp_required_human_id p) (os_principals s)
         \<or> \<not> references (rp_approval_request_id p) (os_approval_requests s)
      then Inl OsUnavailable
      else Inr (s\<lparr> os_projections := os_projections s @ [p] \<rparr>))"

definition latest_projection :: "OperatorStore \<Rightarrow> uuid \<Rightarrow> RunProjection option" where
  "latest_projection s run =
     last_row (\<lambda>p q. rp_projection_sequence p < rp_projection_sequence q)
       (filter (\<lambda>p. rp_run_id p = run) (os_projections s))"

definition latest_checkpoint :: "OperatorStore \<Rightarrow> uuid \<Rightarrow> AgentCheckpoint option" where
  "latest_checkpoint s run =
     last_row (\<lambda>c d. cp_sequence c < cp_sequence d) (filter (\<lambda>c. cp_run_id c = run) (os_checkpoints s))"

text \<open>The latest approval of a run by creation time, then by identifier.\<close>

definition latest_approval :: "OperatorStore \<Rightarrow> uuid \<Rightarrow> approval_row option" where
  "latest_approval s run =
     last_row (\<lambda>a b. ar_created_at a < ar_created_at b
         \<or> (ar_created_at a = ar_created_at b \<and> ar_approval_request_id a < ar_approval_request_id b))
       (filter (\<lambda>a. ar_run_id a = run) (os_approvals s))"

definition next_projection_sequence :: "OperatorStore \<Rightarrow> nat" where
  "next_projection_sequence s = fold (\<lambda>p m. max (unat (rp_projection_sequence p)) m) (os_projections s) 0 + 1"

definition project_attention :: "OperatorStore \<Rightarrow> RunControl \<Rightarrow> AgentRunStatus \<Rightarrow> RunProjection
    \<Rightarrow> OperatorStoreError + RunProjection" where
  "project_attention s control status p =
     (let directed = p\<lparr> rp_recovery_directive_id := rc_recovery_directive_id control,
                        rp_recovery_directive_digest := rc_recovery_directive_digest control \<rparr>;
          cleared = p\<lparr> rp_required_human_id := None, rp_approval_request_id := None,
                       rp_recovery_directive_id := None, rp_recovery_directive_digest := None \<rparr>
      in if status = RunQueued \<or> status = RunRunning then Inr (cleared\<lparr> rp_attention := AtRunning \<rparr>)
         else if status = RunWaitingForInput then
           bindR (ok_or OsCorrupt (latest_approval s (rc_run_id control))) (\<lambda>a.
             Inr (p\<lparr> rp_attention := AtAwaitingDecision,
                     rp_approval_request_id := Some (ar_approval_request_id a),
                     rp_required_human_id := Some (ar_required_human_id a),
                     rp_recovery_directive_id := None, rp_recovery_directive_digest := None \<rparr>))
         else if status = RunFailed \<and> rc_recovery_directive_id control \<noteq> None then
           Inr (directed\<lparr> rp_attention := AtRecoverable, rp_required_human_id := None,
                          rp_approval_request_id := None \<rparr>)
         else Inr (cleared\<lparr> rp_attention := AtTerminal \<rparr>))"

definition append_current_projection :: "host \<Rightarrow> OperatorEnv option \<Rightarrow> nat \<Rightarrow> RunControl \<Rightarrow> u64 \<Rightarrow> utc
    \<Rightarrow> OperatorStore \<Rightarrow> OperatorStoreError + OperatorStore" where
  "append_current_projection H ctx draw control fence now s =
     bindR (ok_or OsCorrupt (latest_projection s (rc_run_id control))) (\<lambda>previous.
       if \<not> is_ok (run_projection_validate H previous) \<or> rp_run_id previous \<noteq> rc_run_id control
          \<or> rp_workspace_id previous \<noteq> rc_workspace_id control
       then Inl OsCorrupt
       else
     bindR (operator_uuid ctx draw) (\<lambda>projection_id.
     bindR (u64_safe (next_projection_sequence s)) (\<lambda>sequence.
     bindR (safe_increment (rp_projection_revision previous)) (\<lambda>revision.
     bindR (ok_or OsUnavailable (find (\<lambda>r. AgentRun.run_id r = rc_run_id control) (os_runs s))) (\<lambda>run.
     bindR (ok_or OsCorrupt (latest_checkpoint s (rc_run_id control))) (\<lambda>checkpoint.
     bindR (project_attention s control (run_status run)
              (previous\<lparr> rp_projection_id := projection_id, rp_projection_sequence := sequence,
                         rp_projection_revision := revision,
                         rp_source_control_revision := rc_control_revision control,
                         rp_fence_epoch := fence, rp_source_run_revision := run_revision run,
                         rp_run_status := run_status run, rp_checkpoint_id := cp_id checkpoint,
                         rp_checkpoint_sequence := ucast (cp_sequence checkpoint),
                         rp_checkpoint_digest := cp_state_digest checkpoint \<rparr>)) (\<lambda>projected.
     bindR (store_digest H ''Proof-Operator-Run-Projection-v1''
              (run_projection_fields H (projected\<lparr> rp_projected_at := now \<rparr>)) ''snapshot_digest'') (\<lambda>d.
       let projection = projected\<lparr> rp_projected_at := now, rp_snapshot_digest := d \<rparr>
       in if is_ok (run_projection_validate H projection) then insert_projection projection s
          else Inl OsCorrupt))))))))"

section \<open>Audit events\<close>

definition event_base :: "uuid \<Rightarrow> uuid \<Rightarrow> AuditEventKind \<Rightarrow> AuditOutcome \<Rightarrow> utc \<Rightarrow> AuditEvent" where
  "event_base workspace event kind outcome occurred_at =
     \<lparr> ae_schema = ''proof.operator.audit-event/v1'', ae_workspace_id = workspace, ae_event_id = event,
       ae_sequence = 1, ae_kind = kind, ae_outcome = outcome, ae_previous_digest = None,
       ae_event_digest = ControlDigest (replicate 32 0), ae_human_id = None, ae_session_id = None,
       ae_challenge_id = None, ae_challenge_digest = None, ae_session_authority_digest = None,
       ae_related_session_id = None, ae_server_instance_id = None, ae_run_id = None,
       ae_approval_request_id = None, ae_command_id = None, ae_command_kind = None, ae_budget_id = None,
       ae_reservation_id = None, ae_lease_id = None, ae_source_lease_id = None, ae_process_epoch_id = None,
       ae_permit_id = None, ae_recovery_directive_id = None, ae_fence_epoch = None, ae_auth_epoch = None,
       ae_policy_revision = None, ae_intent_digest = None, ae_call_digest = None, ae_decision_digest = None,
       ae_recovery_directive_digest = None, ae_failure_scope = None, ae_proof = None,
       ae_occurred_at = occurred_at \<rparr>"

definition lease_event :: "RunLease \<Rightarrow> uuid \<Rightarrow> AuditEventKind \<Rightarrow> utc \<Rightarrow> AuditEvent" where
  "lease_event lease event kind now =
     (event_base (rl_workspace_id lease) event kind AoAccepted now)
       \<lparr> ae_run_id := Some (rl_run_id lease), ae_server_instance_id := Some (rl_owner_instance_id lease),
         ae_lease_id := Some (rl_lease_id lease), ae_process_epoch_id := Some (rl_process_epoch_id lease),
         ae_fence_epoch := Some (rl_fence_epoch lease) \<rparr>"

definition event_references :: "AuditEvent \<Rightarrow> OperatorStore \<Rightarrow> bool" where
  "event_references e s =
     (references (ae_human_id e) (os_principals s)
      \<and> references (ae_run_id e) (map rc_run_id (os_controls s))
      \<and> references (ae_approval_request_id e) (os_approval_requests s)
      \<and> references (ae_budget_id e) (map (\<lambda>b. pol_budget_id (acc_policy b)) (os_budgets s))
      \<and> references (ae_lease_id e) (map rl_lease_id (os_leases s))
      \<and> references (ae_source_lease_id e) (map rl_lease_id (os_leases s))
      \<and> references (ae_recovery_directive_id e) (map rd_directive_id (os_directives s))
      \<and> references (map_option pr_proof_id (ae_proof e)) (os_proofs s))"

definition append_audit_event :: "host \<Rightarrow> AuditEvent \<Rightarrow> OperatorStore \<Rightarrow> OperatorStoreError + OperatorStore" where
  "append_audit_event H event s =
     bindR (ok_or OsUnavailable (os_heads s (ae_workspace_id event))) (\<lambda>(last_sequence, last_digest).
     bindR (safe_increment last_sequence) (\<lambda>sequence.
       let linked = event\<lparr> ae_sequence := sequence, ae_previous_digest := last_digest \<rparr>
       in
     bindR (map_err (\<lambda>_. OsInvalid) (event_digest_of H linked)) (\<lambda>d.
       let e = linked\<lparr> ae_event_digest := d \<rparr>
       in if \<not> is_ok (validate_chain_link H e (ae_sequence e) (ae_previous_digest e)) then Inl OsInvalid
          else if list_ex (\<lambda>f. (ae_workspace_id f = ae_workspace_id e \<and> ae_sequence f = ae_sequence e)
                 \<or> ae_event_id f = ae_event_id e \<or> ae_event_digest f = ae_event_digest e) (os_events s)
               \<or> \<not> event_references e s
          then Inl OsUnavailable
          else Inr (s\<lparr> os_events := os_events s @ [e],
                       os_heads := (os_heads s)(ae_workspace_id e \<mapsto> (ae_sequence e, Some d)) \<rparr>))))"

section \<open>What an update changes\<close>

lemma update_run_control_Inr:
  assumes "update_run_control H c s = Inr s'"
  shows "s' = s\<lparr> os_controls := map (\<lambda>c'. if rc_run_id c' = rc_run_id c then c else c') (os_controls s) \<rparr>"
    and "is_ok (run_control_validate H c)" and "\<exists>c' \<in> set (os_controls s). rc_run_id c' = rc_run_id c"
  using assms by (auto simp: update_run_control_def list_ex_iff split: if_splits)

lemma append_current_projection_Inr:
  assumes "append_current_projection H ctx draw control fence now s = Inr s'"
  shows "\<exists>p. s' = s\<lparr> os_projections := os_projections s @ [p] \<rparr>"
  using assms
  by (auto simp: append_current_projection_def insert_projection_def bindR_eq_Inr Let_def split: if_splits)

lemma safe_increment_Inr:
  assumes "safe_increment n = Inr m"
  shows "m = n + 1" and "unat m = unat n + 1" and "m \<le> MAX_SAFE_INTEGER"
proof -
  from assms have "checked_add n 1 = Some m" and "m \<le> MAX_SAFE_INTEGER"
    by (auto simp: safe_increment_def split: option.splits if_splits)
  then show "m = n + 1" "unat m = unat n + 1" "m \<le> MAX_SAFE_INTEGER"
    using unat_checked_add [of n 1 m] by (simp_all add: checked_add_Some_iff)
qed

lemma append_audit_event_Inr:
  assumes "append_audit_event H event s = Inr s'"
  obtains e n d where "os_heads s (ae_workspace_id event) = Some (n, d)"
    and "ae_workspace_id e = ae_workspace_id event" and "is_ok (validate_chain_link H e (n + 1) d)"
    and "s' = s\<lparr> os_events := os_events s @ [e],
                 os_heads := (os_heads s)(ae_workspace_id event \<mapsto> (n + 1, Some (ae_event_digest e))) \<rparr>"
proof -
  from assms obtain n d where head: "os_heads s (ae_workspace_id event) = Some (n, d)"
    by (auto simp: append_audit_event_def bindR_eq_Inr ok_or_def split: option.splits)
  with assms obtain m where m: "safe_increment n = Inr m"
    by (auto simp: append_audit_event_def bindR_eq_Inr ok_or_def)
  let ?linked = "event\<lparr> ae_sequence := m, ae_previous_digest := d \<rparr>"
  from assms head m obtain g where g: "map_err (\<lambda>_. OsInvalid) (event_digest_of H ?linked) = Inr g"
    by (auto simp: append_audit_event_def bindR_eq_Inr ok_or_def Let_def)
  let ?e = "?linked\<lparr> ae_event_digest := g \<rparr>"
  from assms head m g have "is_ok (validate_chain_link H ?e m d)"
    and "s' = s\<lparr> os_events := os_events s @ [?e],
                 os_heads := (os_heads s)(ae_workspace_id event \<mapsto> (m, Some g)) \<rparr>"
    by (auto simp: append_audit_event_def ok_or_def Let_def split: if_splits)
  with head safe_increment_Inr(1) [OF m] that [of n d ?e] show ?thesis by simp
qed

section \<open>The audit log of a workspace\<close>

definition audit_log :: "OperatorStore \<Rightarrow> uuid \<Rightarrow> AuditEvent list" where
  "audit_log s w = filter (\<lambda>e. ae_workspace_id e = w) (os_events s)"

definition log_ok :: "host \<Rightarrow> (u64 \<times> ControlDigest option) option \<Rightarrow> AuditEvent list \<Rightarrow> bool" where
  "log_ok H head es =
     (case head of
        None \<Rightarrow> es = []
      | Some (n, d) \<Rightarrow> audit_chain H es \<and> n = of_nat (length es) \<and> d = chain_head None es)"

text \<open>Every log is a chain that ends at its head, and starts with the log \<open>base\<close> gives.\<close>

definition audit_ok :: "host \<Rightarrow> (uuid \<Rightarrow> AuditEvent list) \<Rightarrow> OperatorStore \<Rightarrow> bool" where
  "audit_ok H base s \<longleftrightarrow>
     (\<forall>w. log_ok H (os_heads s w) (audit_log s w) \<and> (\<exists>es. audit_log s w = base w @ es))"

lemma append_audit_event_ok:
  assumes ok: "audit_ok H base s" and step: "append_audit_event H event s = Inr s'"
  shows "audit_ok H base s'"
proof -
  from step obtain e n d where head: "os_heads s (ae_workspace_id event) = Some (n, d)"
    and w: "ae_workspace_id e = ae_workspace_id event" and link: "is_ok (validate_chain_link H e (n + 1) d)"
    and s': "s' = s\<lparr> os_events := os_events s @ [e],
                 os_heads := (os_heads s)(ae_workspace_id event \<mapsto> (n + 1, Some (ae_event_digest e))) \<rparr>"
    by (rule append_audit_event_Inr)
  have old: "log_ok H (Some (n, d)) (audit_log s (ae_workspace_id event))"
    using ok by (metis audit_ok_def head)
  have log: "audit_log s' v = (if v = ae_workspace_id event then audit_log s v @ [e] else audit_log s v)" for v
    using w by (simp add: audit_log_def s')
  have heads: "os_heads s' = (os_heads s)(ae_workspace_id event \<mapsto> (n + 1, Some (ae_event_digest e)))"
    by (simp add: s')
  have "log_ok H (os_heads s' v) (audit_log s' v)" for v
    using ok old link by (cases "v = ae_workspace_id event")
      (simp_all add: log heads audit_ok_def, simp add: log_ok_def chain_from_snoc algebra_simps)
  moreover have "\<exists>es. audit_log s' v = base v @ es" for v
    using ok by (cases "v = ae_workspace_id event") (auto simp: log audit_ok_def, metis append_assoc)
  ultimately show ?thesis by (simp add: audit_ok_def)
qed

lemma audit_ok_cong:
  assumes "audit_ok H base s" and "os_events s' = os_events s" and "os_heads s' = os_heads s"
  shows "audit_ok H base s'"
proof -
  have "audit_log s' = audit_log s" using assms(2) by (simp add: audit_log_def fun_eq_iff)
  with assms show ?thesis by (simp add: audit_ok_def)
qed

end
