(* ===== verification/OperatorLease.thy ===== *)
theory OperatorLease
  imports OperatorStore
begin

text \<open>
  Run leases: the custody of a lease token of
  \<^verbatim>\<open>crates/proof-kernel/src/operator/prepared.rs\<close>, and the operations \<open>claim_run_lease\<close>,
  \<open>renew_run_lease\<close>, \<open>release_run_lease\<close> and \<open>reclaim\<close> of
  \<^verbatim>\<open>crates/proof-storage/src/sqlite/operator_store.rs\<close>. A lease fences its run: its epoch is
  the number that every later write must carry. The lemmas show what each operation does to
  the lease table, that fence epochs only grow and that a run has at most one active lease.
  \<open>reclaim\<close> is modelled up to the release of the expired lease, which is where every call ends;
  what the code would do after it is an argument.
\<close>

section \<open>Requests and results\<close>

record LeaseClaimBinding =
  lb_workspace_id :: uuid
  lb_run_id :: uuid
  lb_lease_id :: uuid
  lb_owner_instance_id :: uuid
  lb_process_epoch_id :: uuid
  lb_expected_fence_epoch :: u64
  lb_expected_control_revision :: u64

record LeaseClaimRequest =
  lr_schema :: string
  lr_binding :: LeaseClaimBinding
  lr_lease_token :: string

datatype LeaseMutationOutcome = LmAcquired | LmReleased | LmRenewed

record LeaseMutationResult =
  lm_schema :: string
  lm_outcome :: LeaseMutationOutcome
  lm_lease :: RunLease
  lm_control_revision :: u64

definition lease_mutation_validate :: "host \<Rightarrow> LeaseMutationResult \<Rightarrow> OperatorStoreError + unit" where
  "lease_mutation_validate H r =
     (let state_matches = (case lm_outcome r of
            LmAcquired \<Rightarrow> rl_state (lm_lease r) = LeaseActive
          | LmRenewed \<Rightarrow> rl_state (lm_lease r) = LeaseActive
          | LmReleased \<Rightarrow> rl_state (lm_lease r) = LeaseReleased)
      in if lm_schema r \<noteq> ''proof.operator.lease-mutation-result/v1''
            \<or> lm_control_revision r > MAX_SAFE_INTEGER \<or> \<not> state_matches
            \<or> \<not> is_ok (run_lease_validate H (lm_lease r))
         then Inl OsInvalid else Inr ())"

section \<open>Custody of the lease token\<close>

text \<open>Every error of the custody is \<open>HandlerFailed\<close> with the text given. \<open>proof_state\<close> is the
  atomic flag that a token proof is handed out once.\<close>

datatype LeaseEstablishment =
  EstClaim LeaseClaimBinding
| EstReclaim LeaseClaimBinding uuid uuid u64 ContentDigest

record BoundLease =
  bl_workspace_id :: uuid
  bl_run_id :: uuid
  bl_lease_id :: uuid
  bl_owner_instance_id :: uuid
  bl_process_epoch_id :: uuid
  bl_fence_epoch :: u64

record LeaseTokenCustody =
  lc_token :: string
  lc_establishment :: "LeaseEstablishment option"
  lc_bound :: "BoundLease option"
  lc_proof_state :: nat

definition lease_custody_new :: "string \<Rightarrow> LeaseTokenCustody" where
  "lease_custody_new token = \<lparr> lc_token = token, lc_establishment = None, lc_bound = None, lc_proof_state = 0 \<rparr>"

definition validate_lease_claim_binding :: "host \<Rightarrow> LeaseClaimBinding \<Rightarrow> string + unit" where
  "validate_lease_claim_binding H b =
     (if \<not> list_all (uuid_is_v7 H) [lb_workspace_id b, lb_run_id b, lb_lease_id b, lb_owner_instance_id b,
                                     lb_process_epoch_id b]
         \<or> lb_expected_fence_epoch b > MAX_SAFE_INTEGER \<or> lb_expected_control_revision b > MAX_SAFE_INTEGER
      then Inl ''lease claim binding is invalid'' else Inr ())"

definition begin_establishment :: "LeaseTokenCustody \<Rightarrow> LeaseEstablishment \<Rightarrow> string + LeaseTokenCustody" where
  "begin_establishment c est =
     (if lc_bound c \<noteq> None \<or> lc_establishment c \<noteq> None \<or> lc_proof_state c \<noteq> 0
      then Inl ''lease establishment proof is unavailable''
      else Inr (c\<lparr> lc_establishment := Some est, lc_proof_state := 1 \<rparr>))"

definition custody_claim_request :: "host \<Rightarrow> LeaseTokenCustody \<Rightarrow> LeaseClaimBinding
    \<Rightarrow> string + LeaseClaimRequest \<times> LeaseTokenCustody" where
  "custody_claim_request H c b =
     bindR (validate_lease_claim_binding H b) (\<lambda>_.
     bindR (begin_establishment c (EstClaim b)) (\<lambda>c1.
       Inr (\<lparr> lr_schema = ''proof.operator.lease-claim-request/v1'', lr_binding = b,
              lr_lease_token = lc_token c \<rparr>, c1)))"

definition validate_bound_lease :: "host \<Rightarrow> LeaseClaimBinding \<Rightarrow> RunLease \<Rightarrow> u64 \<Rightarrow> string \<Rightarrow> string + BoundLease" where
  "validate_bound_lease H b lease control_revision token =
     (if \<not> is_ok (run_lease_validate H lease) \<or> rl_state lease \<noteq> LeaseActive
         \<or> rl_workspace_id lease \<noteq> lb_workspace_id b \<or> rl_run_id lease \<noteq> lb_run_id b
         \<or> rl_lease_id lease \<noteq> lb_lease_id b \<or> rl_owner_instance_id lease \<noteq> lb_owner_instance_id b
         \<or> rl_process_epoch_id lease \<noteq> lb_process_epoch_id b
      then Inl ''lease result did not bind custody''
      else
     bindR (ok_or ''lease fence overflow'' (checked_add (lb_expected_fence_epoch b) 1)) (\<lambda>fence.
       if rl_fence_epoch lease \<noteq> fence then Inl ''lease result did not bind custody''
       else
     bindR (ok_or ''lease control revision overflow'' (checked_add (lb_expected_control_revision b) 1)) (\<lambda>revision.
       if control_revision \<noteq> revision
          \<or> rl_lease_token_digest lease \<noteq> lease_token_digest H token
          \<or> rl_acquired_at lease \<noteq> rl_renewed_at lease
          \<or> rl_expires_at lease - rl_renewed_at lease \<noteq> lease_seconds
       then Inl ''lease result did not bind custody''
       else Inr \<lparr> bl_workspace_id = rl_workspace_id lease, bl_run_id = rl_run_id lease,
                  bl_lease_id = rl_lease_id lease, bl_owner_instance_id = rl_owner_instance_id lease,
                  bl_process_epoch_id = rl_process_epoch_id lease, bl_fence_epoch = rl_fence_epoch lease \<rparr>)))"

definition bind_claim_result :: "host \<Rightarrow> LeaseTokenCustody \<Rightarrow> LeaseMutationResult \<Rightarrow> string + LeaseTokenCustody" where
  "bind_claim_result H c r =
     (case lc_establishment c of
        Some (EstClaim b) \<Rightarrow>
          if \<not> is_ok (lease_mutation_validate H r) \<or> lm_outcome r \<noteq> LmAcquired
          then Inl ''lease claim did not acquire authority''
          else bindR (validate_bound_lease H b (lm_lease r) (lm_control_revision r) (lc_token c)) (\<lambda>bound.
                 Inr (c\<lparr> lc_bound := Some bound, lc_establishment := None \<rparr>))
      | _ \<Rightarrow> Inl ''lease claim custody is not pending'')"

definition custody_authority :: "LeaseTokenCustody \<Rightarrow> u64 \<Rightarrow> string + LeaseAuthority" where
  "custody_authority c expected_control_revision =
     bindR (ok_or ''lease custody is not bound'' (lc_bound c)) (\<lambda>b.
       if expected_control_revision > MAX_SAFE_INTEGER then Inl ''lease control revision is invalid''
       else Inr \<lparr> la_schema = ''proof.operator.lease-authority/v1'', la_workspace_id = bl_workspace_id b,
                  la_run_id = bl_run_id b, la_lease_id = bl_lease_id b,
                  la_owner_instance_id = bl_owner_instance_id b,
                  la_process_epoch_id = bl_process_epoch_id b, la_fence_epoch = bl_fence_epoch b,
                  la_expected_control_revision = expected_control_revision, la_lease_token = lc_token c \<rparr>)"

record LeaseRenewRequest =
  ln_schema :: string
  ln_authority :: LeaseAuthority

record LeaseReleaseRequest =
  lx_schema :: string
  lx_custody :: LeaseTokenCustody
  lx_expected_control_revision :: u64

definition into_release_request :: "LeaseTokenCustody \<Rightarrow> u64 \<Rightarrow> string + LeaseReleaseRequest" where
  "into_release_request c expected_control_revision =
     (if lc_bound c = None \<or> expected_control_revision > MAX_SAFE_INTEGER
      then Inl ''lease release custody is unavailable''
      else Inr \<lparr> lx_schema = ''proof.operator.lease-release-request/v1'', lx_custody = c,
                 lx_expected_control_revision = expected_control_revision \<rparr>)"

section \<open>Lease operations\<close>

text \<open>A transaction commits with a result, or fails and leaves the store as it was.\<close>

definition transact :: "OperatorStore \<Rightarrow> OperatorStoreError + ('a \<times> OperatorStore)
    \<Rightarrow> (OperatorStoreError + 'a) \<times> OperatorStore" where
  "transact s body = (case body of Inl e \<Rightarrow> (Inl e, s) | Inr (r, s') \<Rightarrow> (Inr r, s'))"

text \<open>The tail that the three lease mutations share: the control revision, a projection and an
  audit event, in this order.\<close>

definition record_lease :: "host \<Rightarrow> OperatorEnv option \<Rightarrow> LeaseMutationOutcome \<Rightarrow> AuditEventKind \<Rightarrow> utc
    \<Rightarrow> RunControl \<Rightarrow> RunLease \<Rightarrow> OperatorStore \<Rightarrow> OperatorStoreError + LeaseMutationResult \<times> OperatorStore" where
  "record_lease H ctx outcome kind now control lease s =
     bindR (bump_control H control now) (\<lambda>control1.
     bindR (update_run_control H control1 s) (\<lambda>s1.
     bindR (append_current_projection H ctx 0 control1 (rl_fence_epoch lease) now s1) (\<lambda>s2.
     bindR (operator_uuid ctx 1) (\<lambda>event.
     bindR (append_audit_event H (lease_event lease event kind now) s2) (\<lambda>s3.
       Inr (\<lparr> lm_schema = ''proof.operator.lease-mutation-result/v1'', lm_outcome = outcome,
              lm_lease = lease, lm_control_revision = rc_control_revision control1 \<rparr>, s3))))))"

definition new_lease :: "host \<Rightarrow> LeaseClaimRequest \<Rightarrow> utc \<Rightarrow> RunLease" where
  "new_lease H r now =
     \<lparr> rl_schema = ''proof.operator.run-lease/v1'', rl_run_id = lb_run_id (lr_binding r),
       rl_workspace_id = lb_workspace_id (lr_binding r), rl_lease_id = lb_lease_id (lr_binding r),
       rl_owner_instance_id = lb_owner_instance_id (lr_binding r),
       rl_process_epoch_id = lb_process_epoch_id (lr_binding r),
       rl_lease_token_digest = lease_token_digest H (lr_lease_token r),
       rl_fence_epoch = lb_expected_fence_epoch (lr_binding r) + 1, rl_revision = 0,
       rl_state = LeaseActive, rl_acquired_at = now, rl_renewed_at = now,
       rl_expires_at = now + lease_seconds, rl_released_at = None,
       rl_lease_digest = ControlDigest (replicate 32 0) \<rparr>"

definition claim_body :: "host \<Rightarrow> OperatorEnv option \<Rightarrow> LeaseClaimRequest \<Rightarrow> OperatorStore
    \<Rightarrow> OperatorStoreError + LeaseMutationResult \<times> OperatorStore" where
  "claim_body H ctx r s =
     (let b = lr_binding r in
      bindR (ok_or OsUnavailable ctx) (\<lambda>_.
      bindR (invalid_if (lr_schema r \<noteq> ''proof.operator.lease-claim-request/v1''
          \<or> \<not> list_all (uuid_is_v7 H) [lb_workspace_id b, lb_run_id b, lb_lease_id b, lb_owner_instance_id b,
                                        lb_process_epoch_id b]
          \<or> lb_expected_fence_epoch b > MAX_SAFE_INTEGER
          \<or> lb_expected_control_revision b > MAX_SAFE_INTEGER)) (\<lambda>_.
      bindR (load_control H s (lb_run_id b)) (\<lambda>control.
        if rc_workspace_id control \<noteq> lb_workspace_id b
           \<or> rc_control_revision control \<noteq> lb_expected_control_revision b
        then Inl OsStaleRevision
        else if active_leases s (lb_run_id b) \<noteq> [] then Inl OsNotActionable
        else
      bindR (u64_safe (unat (max_fence s (lb_run_id b)))) (\<lambda>maximum.
        if maximum \<noteq> lb_expected_fence_epoch b then Inl OsStaleFence
        else
      bindR (operator_now ctx) (\<lambda>now.
      bindR (digest_lease H (new_lease H r now)) (\<lambda>lease.
        if \<not> is_ok (run_lease_validate H lease) then Inl OsInvalid
        else
      bindR (insert_lease lease s) (\<lambda>s1.
        record_lease H ctx LmAcquired AkLeaseAcquired now control lease s1))))))))"

definition claim_run_lease :: "host \<Rightarrow> OperatorEnv option \<Rightarrow> LeaseClaimRequest \<Rightarrow> OperatorStore
    \<Rightarrow> (OperatorStoreError + LeaseMutationResult) \<times> OperatorStore" where
  "claim_run_lease H ctx r s = transact s (claim_body H ctx r s)"

definition renew_body :: "host \<Rightarrow> OperatorEnv option \<Rightarrow> LeaseRenewRequest \<Rightarrow> OperatorStore
    \<Rightarrow> OperatorStoreError + LeaseMutationResult \<times> OperatorStore" where
  "renew_body H ctx r s =
     bindR (ok_or OsUnavailable ctx) (\<lambda>_.
     bindR (invalid_if (ln_schema r \<noteq> ''proof.operator.lease-renew-request/v1'')) (\<lambda>_.
     bindR (operator_now ctx) (\<lambda>now.
     bindR (validate_authority H s (ln_authority r) now) (\<lambda>(control, lease).
     bindR (ok_or OsCorrupt (checked_add (rl_revision lease) 1)) (\<lambda>revision.
     bindR (digest_lease H (lease\<lparr> rl_revision := revision, rl_renewed_at := now,
              rl_expires_at := now + lease_seconds \<rparr>)) (\<lambda>renewed.
     bindR (update_lease H renewed s) (\<lambda>s1.
       record_lease H ctx LmRenewed AkLeaseRenewed now control renewed s1)))))))"

definition renew_run_lease :: "host \<Rightarrow> OperatorEnv option \<Rightarrow> LeaseRenewRequest \<Rightarrow> OperatorStore
    \<Rightarrow> (OperatorStoreError + LeaseMutationResult) \<times> OperatorStore" where
  "renew_run_lease H ctx r s = transact s (renew_body H ctx r s)"

definition is_open :: "BudgetReservation \<Rightarrow> bool" where
  "is_open r = (br_state r = BrReserved \<or> br_state r = BrDispatching)"

definition release_body :: "host \<Rightarrow> OperatorEnv option \<Rightarrow> LeaseReleaseRequest \<Rightarrow> OperatorStore
    \<Rightarrow> OperatorStoreError + LeaseMutationResult \<times> OperatorStore" where
  "release_body H ctx r s =
     bindR (ok_or OsUnavailable ctx) (\<lambda>_.
     bindR (invalid_if (lx_schema r \<noteq> ''proof.operator.lease-release-request/v1'')) (\<lambda>_.
     bindR (map_err (\<lambda>_. OsInvalid) (custody_authority (lx_custody r) (lx_expected_control_revision r))) (\<lambda>authority.
     bindR (operator_now ctx) (\<lambda>now.
     bindR (validate_authority H s authority now) (\<lambda>(control, lease).
       if list_ex (\<lambda>x. br_lease_id x = rl_lease_id lease \<and> is_open x) (os_reservations s)
          \<or> rc_active_dispatch_reservation_id control \<noteq> None
       then Inl OsNotActionable
       else
     bindR (ok_or OsCorrupt (checked_add (rl_revision lease) 1)) (\<lambda>revision.
     bindR (digest_lease H (lease\<lparr> rl_revision := revision, rl_state := LeaseReleased,
              rl_released_at := Some now \<rparr>)) (\<lambda>released.
     bindR (update_lease H released s) (\<lambda>s1.
       record_lease H ctx LmReleased AkLeaseReleased now control released s1))))))))"

definition release_run_lease :: "host \<Rightarrow> OperatorEnv option \<Rightarrow> LeaseReleaseRequest \<Rightarrow> OperatorStore
    \<Rightarrow> (OperatorStoreError + LeaseMutationResult) \<times> OperatorStore" where
  "release_run_lease H ctx r s = transact s (release_body H ctx r s)"

section \<open>Reclaiming an expired lease\<close>

record ReclaimRequest =
  rq_schema :: string
  rq_workspace_id :: uuid
  rq_run_id :: uuid
  rq_expired_lease_id :: uuid
  rq_expected_fence_epoch :: u64
  rq_expected_control_revision :: u64
  rq_new_lease_id :: uuid
  rq_owner_instance_id :: uuid
  rq_new_process_epoch_id :: uuid
  rq_new_lease_token :: string
  rq_checkpoint_id :: uuid
  rq_checkpoint_sequence :: u64
  rq_checkpoint_digest :: ContentDigest

definition load_latest_checkpoint_identity :: "OperatorStore \<Rightarrow> uuid
    \<Rightarrow> OperatorStoreError + uuid \<times> u64 \<times> ContentDigest" where
  "load_latest_checkpoint_identity s run =
     bindR (ok_or OsCorrupt (latest_checkpoint s run)) (\<lambda>c.
       Inr (cp_id c, ucast (cp_sequence c), cp_state_digest c))"

text \<open>What follows the update of the expired lease, from the open reservation of the run to the
  replacement lease, is the argument \<open>rest\<close>.\<close>

definition reclaim_body :: "(RunControl \<Rightarrow> RunLease \<Rightarrow> BudgetReservation list \<Rightarrow> utc \<Rightarrow> OperatorStore
      \<Rightarrow> OperatorStoreError + 'r \<times> OperatorStore)
    \<Rightarrow> host \<Rightarrow> OperatorEnv option \<Rightarrow> ReclaimRequest \<Rightarrow> OperatorStore \<Rightarrow> OperatorStoreError + 'r \<times> OperatorStore" where
  "reclaim_body rest H ctx r s =
     bindR (invalid_if (rq_schema r \<noteq> ''proof.operator.reclaim-request/v1''
         \<or> \<not> list_all (uuid_is_v7 H) [rq_workspace_id r, rq_run_id r, rq_expired_lease_id r, rq_new_lease_id r,
                                       rq_owner_instance_id r, rq_new_process_epoch_id r, rq_checkpoint_id r]
         \<or> rq_expected_fence_epoch r = 0 \<or> rq_expected_fence_epoch r > MAX_SAFE_INTEGER
         \<or> rq_expected_control_revision r > MAX_SAFE_INTEGER
         \<or> rq_checkpoint_sequence r > MAX_SAFE_INTEGER)) (\<lambda>_.
     bindR (operator_now ctx) (\<lambda>now.
     bindR (load_control H s (rq_run_id r)) (\<lambda>control.
     bindR (load_lease H s (rq_expired_lease_id r)) (\<lambda>expired.
     bindR (load_latest_checkpoint_identity s (rq_run_id r)) (\<lambda>checkpoint.
       if rc_workspace_id control \<noteq> rq_workspace_id r
          \<or> rc_control_revision control \<noteq> rq_expected_control_revision r
          \<or> rl_workspace_id expired \<noteq> rq_workspace_id r \<or> rl_run_id expired \<noteq> rq_run_id r
          \<or> rl_fence_epoch expired \<noteq> rq_expected_fence_epoch r
          \<or> rl_state expired \<noteq> LeaseActive \<or> now < rl_expires_at expired
          \<or> checkpoint \<noteq> (rq_checkpoint_id r, rq_checkpoint_sequence r, rq_checkpoint_digest r)
       then Inl OsStaleFence
       else if length (active_leases s (rq_run_id r)) \<noteq> 1 then Inl OsCorrupt
       else
     let opened = filter (\<lambda>x. br_run_id x = rq_run_id r \<and> is_open x) (os_reservations s)
     in if length opened > 1 then Inl OsCorrupt
        else
     bindR (ok_or OsCorrupt (checked_add (rl_revision expired) 1)) (\<lambda>revision.
     bindR (digest_lease H (expired\<lparr> rl_revision := revision, rl_state := LeaseReleased,
              rl_released_at := Some now \<rparr>)) (\<lambda>released.
     bindR (update_lease H released s) (\<lambda>s1. rest control released opened now s1))))))))"

definition reclaim :: "(RunControl \<Rightarrow> RunLease \<Rightarrow> BudgetReservation list \<Rightarrow> utc \<Rightarrow> OperatorStore
      \<Rightarrow> OperatorStoreError + 'r \<times> OperatorStore)
    \<Rightarrow> host \<Rightarrow> OperatorEnv option \<Rightarrow> ReclaimRequest \<Rightarrow> OperatorStore
    \<Rightarrow> (OperatorStoreError + 'r) \<times> OperatorStore" where
  "reclaim rest H ctx r s = transact s (reclaim_body rest H ctx r s)"

section \<open>What a lease operation changes\<close>

lemma record_lease_Inr:
  assumes "record_lease H ctx outcome kind now control lease s = Inr (r, s')"
  shows "os_leases s' = os_leases s" and "lm_lease r = lease" and "lm_outcome r = outcome"
    and "lm_schema r = ''proof.operator.lease-mutation-result/v1''"
    and "audit_ok H base s \<Longrightarrow> audit_ok H base s'"
    and "os_reservations s' = os_reservations s" and "os_budgets s' = os_budgets s"
    and "\<exists>c. bump_control H control now = Inr c \<and> lm_control_revision r = rc_control_revision c
           \<and> os_controls s' = map (\<lambda>c'. if rc_run_id c' = rc_run_id c then c else c') (os_controls s)
           \<and> (\<exists>c' \<in> set (os_controls s). rc_run_id c' = rc_run_id c)"
proof -
  from assms obtain c s1 s2 event where bump: "bump_control H control now = Inr c"
    and s1: "update_run_control H c s = Inr s1"
    and s2: "append_current_projection H ctx 0 c (rl_fence_epoch lease) now s1 = Inr s2"
    and s3: "append_audit_event H (lease_event lease event kind now) s2 = Inr s'"
    and r: "r = \<lparr> lm_schema = ''proof.operator.lease-mutation-result/v1'', lm_outcome = outcome,
              lm_lease = lease, lm_control_revision = rc_control_revision c \<rparr>"
    by (auto simp: record_lease_def bindR_eq_Inr)
  note c1 = update_run_control_Inr [OF s1]
  obtain p where p: "s2 = s1\<lparr> os_projections := os_projections s1 @ [p] \<rparr>"
    using append_current_projection_Inr [OF s2] by blast
  have frame: "os_leases s' = os_leases s2" "os_controls s' = os_controls s2"
    "os_reservations s' = os_reservations s2" "os_budgets s' = os_budgets s2"
    using s3 by (rule append_audit_event_Inr; simp)+
  show "os_leases s' = os_leases s" "os_reservations s' = os_reservations s" "os_budgets s' = os_budgets s"
    using frame p c1(1) by simp_all
  show "lm_lease r = lease" "lm_outcome r = outcome" "lm_schema r = ''proof.operator.lease-mutation-result/v1''"
    by (simp_all add: r)
  show "audit_ok H base s'" if "audit_ok H base s"
    using append_audit_event_ok [OF _ s3] audit_ok_cong [OF that, of s2] p c1(1) by simp
  show "\<exists>c. bump_control H control now = Inr c \<and> lm_control_revision r = rc_control_revision c
           \<and> os_controls s' = map (\<lambda>c'. if rc_run_id c' = rc_run_id c then c else c') (os_controls s)
           \<and> (\<exists>c' \<in> set (os_controls s). rc_run_id c' = rc_run_id c)"
    using bump c1 p frame by (intro exI [of _ c]) (simp add: r)
qed

lemma claim_body_Inr:
  assumes "claim_body H ctx r s = Inr (res, s')"
  obtains env now control lease where "ctx = Some env" and "env_now env = Some now"
    and "load_control H s (lb_run_id (lr_binding r)) = Inr control"
    and "rc_workspace_id control = lb_workspace_id (lr_binding r)"
    and "rc_control_revision control = lb_expected_control_revision (lr_binding r)"
    and "active_leases s (lb_run_id (lr_binding r)) = []"
    and "max_fence s (lb_run_id (lr_binding r)) = lb_expected_fence_epoch (lr_binding r)"
    and "digest_lease H (new_lease H r now) = Inr lease" and "is_ok (run_lease_validate H lease)"
    and "insert_lease lease s = Inr (s\<lparr> os_leases := os_leases s @ [lease] \<rparr>)"
    and "record_lease H ctx LmAcquired AkLeaseAcquired now control lease
           (s\<lparr> os_leases := os_leases s @ [lease] \<rparr>) = Inr (res, s')"
proof -
  have u: "u64_safe (unat m) = Inr n \<longleftrightarrow> m \<le> MAX_SAFE_INTEGER \<and> n = m" for m n
    by (auto simp: u64_safe_def word_less_nat_alt not_less word_le_nat_alt)
  from assms obtain env control now lease s1 where
    facts: "ctx = Some env" "load_control H s (lb_run_id (lr_binding r)) = Inr control"
      "rc_workspace_id control = lb_workspace_id (lr_binding r)"
      "rc_control_revision control = lb_expected_control_revision (lr_binding r)"
      "active_leases s (lb_run_id (lr_binding r)) = []"
      "max_fence s (lb_run_id (lr_binding r)) = lb_expected_fence_epoch (lr_binding r)"
      "operator_now ctx = Inr now"
      "digest_lease H (new_lease H r now) = Inr lease" "is_ok (run_lease_validate H lease)"
      "insert_lease lease s = Inr s1"
      "record_lease H ctx LmAcquired AkLeaseAcquired now control lease s1 = Inr (res, s')"
    by (auto simp: claim_body_def Let_def bindR_eq_Inr u ok_or_eq_Inr split: if_splits)
  moreover from facts(10) have "s1 = s\<lparr> os_leases := os_leases s @ [lease] \<rparr>"
    by (simp add: insert_lease_def split: if_splits)
  moreover from facts(1,7) have "env_now env = Some now"
    by (simp add: operator_now_def ok_or_def split: option.splits)
  ultimately show ?thesis by (intro that) simp_all
qed


lemma digest_lease_Inr:
  assumes "digest_lease H l = Inr l'"
  shows "\<exists>d. l' = l\<lparr> rl_lease_digest := d \<rparr>"
  using assms by (auto simp: digest_lease_def bindR_eq_Inr)

lemma update_lease_Inr:
  assumes "update_lease H l s = Inr s'"
  shows "s' = s\<lparr> os_leases := map (\<lambda>l'. if rl_lease_id l' = rl_lease_id l then l else l') (os_leases s) \<rparr>"
    and "is_ok (run_lease_validate H l)"
  using assms by (auto simp: update_lease_def split: if_splits)

lemma validate_authority_Inr:
  assumes "validate_authority H s a now = Inr (control, lease)"
  shows "find (\<lambda>l. rl_lease_id l = la_lease_id a) (os_leases s) = Some lease"
    and "rl_state lease = LeaseActive" and "now < rl_expires_at lease"
    and "is_ok (run_lease_validate H lease)"
    and "rl_run_id lease = la_run_id a" and "rl_lease_id lease = la_lease_id a"
    and "rl_fence_epoch lease = la_fence_epoch a"
    and "load_control H s (la_run_id a) = Inr control"
    and "rc_control_revision control = la_expected_control_revision a"
proof -
  from assms have l: "load_lease H s (la_lease_id a) = Inr lease"
    and r: "rl_state lease = LeaseActive" "now < rl_expires_at lease" "rl_run_id lease = la_run_id a"
      "rl_fence_epoch lease = la_fence_epoch a" "load_control H s (la_run_id a) = Inr control"
      "rc_control_revision control = la_expected_control_revision a"
    by (auto simp: validate_authority_def bindR_eq_Inr split: if_splits)
  then show "rl_state lease = LeaseActive" "now < rl_expires_at lease" "rl_run_id lease = la_run_id a"
    "rl_fence_epoch lease = la_fence_epoch a" "load_control H s (la_run_id a) = Inr control"
    "rc_control_revision control = la_expected_control_revision a" by blast+
  from l show found: "find (\<lambda>l. rl_lease_id l = la_lease_id a) (os_leases s) = Some lease"
    and "is_ok (run_lease_validate H lease)"
    by (auto simp: load_lease_def bindR_eq_Inr split: if_splits)
  from found show "rl_lease_id lease = la_lease_id a" by (auto simp: find_Some_iff)
qed

text \<open>Renewing and releasing replace one active, unexpired lease by its successor.\<close>

definition lease_replaced :: "OperatorStore \<Rightarrow> OperatorStore \<Rightarrow> utc \<Rightarrow> RunLease \<Rightarrow> RunLease \<Rightarrow> bool" where
  "lease_replaced s s' now lease lease' \<longleftrightarrow>
     lease \<in> set (os_leases s) \<and> rl_state lease = LeaseActive \<and> now < rl_expires_at lease
     \<and> rl_lease_id lease' = rl_lease_id lease \<and> rl_run_id lease' = rl_run_id lease
     \<and> rl_fence_epoch lease' = rl_fence_epoch lease
     \<and> os_leases s' = map (\<lambda>l. if rl_lease_id l = rl_lease_id lease then lease' else l) (os_leases s)"

lemma renew_body_Inr:
  assumes "renew_body H ctx r s = Inr (res, s')"
  shows "\<exists>env now lease. ctx = Some env \<and> env_now env = Some now \<and> lease_replaced s s' now lease (lm_lease res)"
    and "audit_ok H base s \<Longrightarrow> audit_ok H base s'"
    and "os_reservations s' = os_reservations s" and "os_budgets s' = os_budgets s"
proof -
  from assms obtain env now control lease revision renewed s1 where ctx: "ctx = Some env" "operator_now ctx = Inr now"
    and auth: "validate_authority H s (ln_authority r) now = Inr (control, lease)"
    and renewed: "digest_lease H (lease\<lparr> rl_revision := revision, rl_renewed_at := now,
              rl_expires_at := now + lease_seconds \<rparr>) = Inr renewed"
    and s1: "update_lease H renewed s = Inr s1"
    and rec: "record_lease H ctx LmRenewed AkLeaseRenewed now control renewed s1 = Inr (res, s')"
    by (auto simp: renew_body_def bindR_eq_Inr)
  note frame = record_lease_Inr [OF rec] and s1 = update_lease_Inr(1) [OF s1]
  from digest_lease_Inr [OF renewed] validate_authority_Inr [OF auth]
  have "lease_replaced s s' now lease renewed"
    by (auto simp: lease_replaced_def frame(1) s1 find_Some_iff)
  then show "\<exists>env now lease. ctx = Some env \<and> env_now env = Some now \<and> lease_replaced s s' now lease (lm_lease res)"
    using ctx frame(2) by (auto simp: operator_now_def)
  show "os_reservations s' = os_reservations s" "os_budgets s' = os_budgets s"
    using frame(6,7) s1 by simp_all
  show "audit_ok H base s'" if "audit_ok H base s" using frame(5) audit_ok_cong [OF that, of s1] s1 by simp
qed

lemma release_body_Inr:
  assumes "release_body H ctx r s = Inr (res, s')"
  shows "\<exists>env now lease. ctx = Some env \<and> env_now env = Some now \<and> lease_replaced s s' now lease (lm_lease res)"
    and "audit_ok H base s \<Longrightarrow> audit_ok H base s'"
    and "os_reservations s' = os_reservations s" and "os_budgets s' = os_budgets s"
proof -
  from assms obtain env now authority control lease revision released s1 where
    ctx: "ctx = Some env" "operator_now ctx = Inr now"
    and auth: "validate_authority H s authority now = Inr (control, lease)"
    and released: "digest_lease H (lease\<lparr> rl_revision := revision, rl_state := LeaseReleased,
              rl_released_at := Some now \<rparr>) = Inr released"
    and s1: "update_lease H released s = Inr s1"
    and rec: "record_lease H ctx LmReleased AkLeaseReleased now control released s1 = Inr (res, s')"
    by (auto simp: release_body_def bindR_eq_Inr split: if_splits)
  note frame = record_lease_Inr [OF rec] and s1 = update_lease_Inr(1) [OF s1]
  from digest_lease_Inr [OF released] validate_authority_Inr [OF auth]
  have "lease_replaced s s' now lease released"
    by (auto simp: lease_replaced_def frame(1) s1 find_Some_iff)
  then show "\<exists>env now lease. ctx = Some env \<and> env_now env = Some now \<and> lease_replaced s s' now lease (lm_lease res)"
    using ctx frame(2) by (auto simp: operator_now_def)
  show "os_reservations s' = os_reservations s" "os_budgets s' = os_budgets s"
    using frame(6,7) s1 by simp_all
  show "audit_ok H base s'" if "audit_ok H base s" using frame(5) audit_ok_cong [OF that, of s1] s1 by simp
qed

text \<open>The release of an expired lease is never stored: the validator of the lease wants it
  released before it expires, and \<open>reclaim\<close> runs only once it has expired.\<close>

lemma run_lease_released_late:
  assumes "rl_released_at l = Some t" and "rl_expires_at l \<le> t"
  shows "\<not> is_ok (run_lease_validate H l)"
  using assms by (auto simp: run_lease_validate_def)

lemma reclaim_body_Inl: "\<not> is_ok (reclaim_body rest H ctx r s)"
proof
  assume "is_ok (reclaim_body rest H ctx r s)"
  then obtain y where y: "reclaim_body rest H ctx r s = Inr y" by (auto simp: is_ok_iff)
  obtain now expired revision released s1 where "\<not> now < rl_expires_at expired"
    and released: "digest_lease H (expired\<lparr> rl_revision := revision, rl_state := LeaseReleased,
              rl_released_at := Some now \<rparr>) = Inr released"
    and s1: "update_lease H released s = Inr s1"
    using y by (auto simp: reclaim_body_def bindR_eq_Inr Let_def split: if_splits)
  with digest_lease_Inr [OF released] run_lease_released_late [of released now H] update_lease_Inr(2) [OF s1]
  show False by auto
qed

section \<open>Fencing\<close>

text \<open>Lease identifiers are unique, fence epochs are unique within a run, and an active lease
  has the newest epoch of its run.\<close>

definition lease_ok :: "OperatorStore \<Rightarrow> bool" where
  "lease_ok s \<longleftrightarrow> distinct (map rl_lease_id (os_leases s)) \<and>
     (\<forall>l \<in> set (os_leases s). \<forall>l' \<in> set (os_leases s). rl_run_id l = rl_run_id l' \<longrightarrow> l \<noteq> l' \<longrightarrow>
        rl_fence_epoch l \<noteq> rl_fence_epoch l' \<and> (rl_state l = LeaseActive \<longrightarrow> rl_fence_epoch l' < rl_fence_epoch l))"

lemma fold_max_ge: "m \<le> fold (\<lambda>x m. max (f x) m) xs m" for m :: "'b::linorder"
  by (induction xs arbitrary: m) (auto intro: order_trans [OF max.cobounded2])

lemma fold_max_upper: "x \<in> set xs \<Longrightarrow> f x \<le> fold (\<lambda>x m. max (f x) m) xs m" for m :: "'b::linorder"
proof (induction xs arbitrary: m)
  case (Cons y ys)
  then show ?case using fold_max_ge [of "max (f x) m" f ys] by auto
qed simp

lemma max_fence_upper: "l \<in> set (os_leases s) \<Longrightarrow> rl_fence_epoch l \<le> max_fence s (rl_run_id l)"
  unfolding max_fence_def by (rule fold_max_upper) simp

lemma max_fence_attained:
  "max_fence s run = 0 \<or> (\<exists>l \<in> set (os_leases s). rl_run_id l = run \<and> rl_fence_epoch l = max_fence s run)"
proof -
  have "fold (\<lambda>x m. max (f x) m) xs m = m \<or> (\<exists>x \<in> set xs. f x = fold (\<lambda>x m. max (f x) m) xs m)"
    for f :: "RunLease \<Rightarrow> u64" and xs m
  proof (induction xs arbitrary: m)
    case (Cons y ys)
    show ?case using Cons.IH [of "max (f y) m"] by (cases "f y \<le> m") (auto simp: max_def)
  qed simp
  from this [of rl_fence_epoch "filter (\<lambda>l. rl_run_id l = run) (os_leases s)" 0] show ?thesis
    by (auto simp: max_fence_def)
qed


lemma word_less_Suc: "x + 1 \<noteq> 0 \<Longrightarrow> x < x + 1" for x :: u64
  using unatSuc [of x] by (simp add: word_less_nat_alt add.commute)

lemma claim_lease_ok:
  assumes ok: "lease_ok s" and none: "active_leases s (rl_run_id l) = []"
    and fence: "rl_fence_epoch l = max_fence s (rl_run_id l) + 1" "rl_fence_epoch l \<noteq> 0"
    and fresh: "insert_lease l s = Inr (s\<lparr> os_leases := os_leases s @ [l] \<rparr>)"
  shows "lease_ok (s\<lparr> os_leases := os_leases s @ [l] \<rparr>)"
    and "l' \<in> set (os_leases s) \<Longrightarrow> rl_run_id l' = rl_run_id l \<Longrightarrow> rl_fence_epoch l' < rl_fence_epoch l"
proof -
  show newer: "rl_fence_epoch l' < rl_fence_epoch l" if "l' \<in> set (os_leases s)" "rl_run_id l' = rl_run_id l" for l'
    using max_fence_upper [OF that(1)] that(2) fence word_less_Suc [of "max_fence s (rl_run_id l)"] by simp
  have old: "rl_state l' \<noteq> LeaseActive" if "l' \<in> set (os_leases s)" "rl_run_id l' = rl_run_id l" for l'
    using none that by (auto simp: active_leases_def filter_empty_conv)
  from fresh have "rl_lease_id l \<notin> rl_lease_id ` set (os_leases s)"
    by (auto simp: insert_lease_def list_ex_iff split: if_splits)
  with ok newer old show "lease_ok (s\<lparr> os_leases := os_leases s @ [l] \<rparr>)"
    by (auto simp: lease_ok_def) (metis less_irrefl)+
qed

lemma lease_ok_unique: "lease_ok s \<Longrightarrow> l \<in> set (os_leases s) \<Longrightarrow> l' \<in> set (os_leases s) \<Longrightarrow>
    rl_lease_id l = rl_lease_id l' \<Longrightarrow> l = l'"
  by (auto simp: lease_ok_def distinct_map inj_on_def)

lemma lease_ok_one_active:
  assumes "lease_ok s" and "l \<in> set (os_leases s)" and "l' \<in> set (os_leases s)" and "rl_run_id l = rl_run_id l'"
    and "rl_state l = LeaseActive" and "rl_state l' = LeaseActive"
  shows "l = l'"
  using assms unfolding lease_ok_def by (metis less_asym)

lemma lease_ok_newest:
  assumes "lease_ok s" and "l \<in> set (os_leases s)" and "l' \<in> set (os_leases s)" and "rl_run_id l = rl_run_id l'"
    and "rl_state l = LeaseActive"
  shows "rl_fence_epoch l' \<le> rl_fence_epoch l"
proof (cases "l = l'")
  case False
  with assms have "rl_fence_epoch l' < rl_fence_epoch l" unfolding lease_ok_def by blast
  then show ?thesis by simp
qed simp

lemma lease_replaced_member:
  assumes "lease_ok s" and "lease_replaced s s' now lease lease'" and "x \<in> set (os_leases s')"
  obtains y where "y \<in> set (os_leases s)" and "rl_lease_id x = rl_lease_id y" and "rl_run_id x = rl_run_id y"
    and "rl_fence_epoch x = rl_fence_epoch y" and "rl_state x = LeaseActive \<longrightarrow> rl_state y = LeaseActive"
    and "x = (if y = lease then lease' else y)"
proof -
  from assms(2,3) obtain y where y: "y \<in> set (os_leases s)"
    and x: "x = (if rl_lease_id y = rl_lease_id lease then lease' else y)"
    by (auto simp: lease_replaced_def)
  moreover have "rl_lease_id y = rl_lease_id lease \<longleftrightarrow> y = lease"
    using assms(1,2) y lease_ok_unique by (auto simp: lease_replaced_def)
  ultimately show ?thesis using assms(2) by (intro that [of y]) (auto simp: lease_replaced_def)
qed

lemma lease_replaced_ok:
  assumes ok: "lease_ok s" and rep: "lease_replaced s s' now lease lease'"
  shows "lease_ok s'"
proof -
  have ids: "map rl_lease_id (os_leases s') = map rl_lease_id (os_leases s)"
    using rep by (auto simp: lease_replaced_def)
  have "rl_fence_epoch l \<noteq> rl_fence_epoch l' \<and> (rl_state l = LeaseActive \<longrightarrow> rl_fence_epoch l' < rl_fence_epoch l)"
    if m: "l \<in> set (os_leases s')" "l' \<in> set (os_leases s')" "rl_run_id l = rl_run_id l'" "l \<noteq> l'" for l l'
  proof -
    obtain y where y: "y \<in> set (os_leases s)" "rl_run_id l = rl_run_id y" "rl_fence_epoch l = rl_fence_epoch y"
      "rl_state l = LeaseActive \<longrightarrow> rl_state y = LeaseActive" "l = (if y = lease then lease' else y)"
      using lease_replaced_member [OF ok rep m(1)] by metis
    obtain y' where y': "y' \<in> set (os_leases s)" "rl_run_id l' = rl_run_id y'" "rl_fence_epoch l' = rl_fence_epoch y'"
      "l' = (if y' = lease then lease' else y')"
      using lease_replaced_member [OF ok rep m(2)] by metis
    from m(3,4) y y' have "rl_run_id y = rl_run_id y'" "y \<noteq> y'" by auto
    with ok y y' show ?thesis by (auto simp: lease_ok_def)
  qed
  with ids ok show ?thesis by (auto simp: lease_ok_def)
qed

lemma lease_replaced_max_fence:
  assumes ok: "lease_ok s" and rep: "lease_replaced s s' now lease lease'"
  shows "max_fence s' = max_fence s"
proof
  fix run
  have same: "l \<in> set (os_leases s) \<Longrightarrow>
      (if rl_lease_id l = rl_lease_id lease then lease' else l) = (if l = lease then lease' else l)" for l
    using ok rep lease_ok_unique by (auto simp: lease_replaced_def)
  have "os_leases s' = map (\<lambda>l. if l = lease then lease' else l) (os_leases s)"
    using rep same by (simp add: lease_replaced_def)
  moreover have "rl_run_id lease' = rl_run_id lease" "rl_fence_epoch lease' = rl_fence_epoch lease"
    using rep by (simp_all add: lease_replaced_def)
  moreover have "fold (\<lambda>l m. max (rl_fence_epoch l) m)
        (filter (\<lambda>l. rl_run_id l = run) (map (\<lambda>l. if l = lease then lease' else l) ls)) m
      = fold (\<lambda>l m. max (rl_fence_epoch l) m) (filter (\<lambda>l. rl_run_id l = run) ls) m"
    if "rl_run_id lease' = rl_run_id lease" "rl_fence_epoch lease' = rl_fence_epoch lease" for ls m
    using that by (induction ls arbitrary: m) auto
  ultimately show "max_fence s' run = max_fence s run" by (simp add: max_fence_def)
qed

lemma authority_newest_fence:
  assumes ok: "lease_ok s" and auth: "validate_authority H s a now = Inr (control, lease)"
  shows "la_fence_epoch a = max_fence s (la_run_id a)"
proof -
  note v = validate_authority_Inr [OF auth]
  from v(1) have l: "lease \<in> set (os_leases s)" by (auto simp: find_Some_iff)
  then have "rl_fence_epoch lease \<le> max_fence s (la_run_id a)" using max_fence_upper v(5) by metis
  moreover have "max_fence s (la_run_id a) \<le> rl_fence_epoch lease"
    using max_fence_attained [of s "la_run_id a"]
  proof
    assume "\<exists>l \<in> set (os_leases s). rl_run_id l = la_run_id a \<and> rl_fence_epoch l = max_fence s (la_run_id a)"
    then obtain l' where l': "l' \<in> set (os_leases s)" "rl_run_id l' = rl_run_id lease"
      "rl_fence_epoch l' = max_fence s (la_run_id a)" using v(5) by auto
    with lease_ok_newest [OF ok l l'(1)] v(2) show ?thesis by simp
  qed simp
  ultimately show ?thesis using v(7) by simp
qed


section \<open>From a claim to an authority\<close>

lemma find_map_replace:
  assumes "find (\<lambda>x. f x = k) xs = Some y" and "f z = k"
  shows "find (\<lambda>x. f x = k) (map (\<lambda>x. if f x = k then z else x) xs) = Some z"
  using assms by (induction xs) (auto split: if_splits)

lemma find_append_None: "find P xs = None \<Longrightarrow> find P (xs @ ys) = find P ys"
  by (induction xs) (auto split: if_splits)

lemma bump_control_Inr:
  assumes "bump_control H control now = Inr c"
  shows "safe_increment (rc_control_revision control) = Inr (rc_control_revision c)"
    and "rc_run_id c = rc_run_id control" and "rc_workspace_id c = rc_workspace_id control"
    and "rc_budget_id c = rc_budget_id control" and "is_ok (run_control_validate H c)"
  using assms by (auto simp: bump_control_def bindR_eq_Inr Let_def split: if_splits)

lemma checked_add_1: "x + 1 \<noteq> 0 \<Longrightarrow> checked_add x 1 = Some (x + 1)" for x :: u64
proof -
  assume "x + 1 \<noteq> 0"
  then have "unat (1 + x) = Suc (unat x)" by (intro unatSuc) (simp add: add.commute)
  then have "Suc (unat x) < 2 ^ LENGTH(64)" using unsigned_less [of "1 + x", where ?'a = nat] by simp
  then show ?thesis by (simp add: checked_add_def)
qed

lemma run_lease_validate_ok:
  assumes "is_ok (run_lease_validate H l)"
  shows "rl_fence_epoch l \<noteq> 0" and "rl_fence_epoch l \<le> MAX_SAFE_INTEGER"
  using assms by (auto simp: run_lease_validate_def split: if_splits)

lemma claim_then_authority:
  assumes request: "custody_claim_request H c b = Inr (r, c1)"
    and claim: "claim_body H ctx r s = Inr (res, s')" and now: "ctx = Some env" "env_now env = Some now"
    and t: "t < now + lease_seconds"
  shows "\<exists>c2 a control. bind_claim_result H c1 res = Inr c2
    \<and> custody_authority c2 (lm_control_revision res) = Inr a
    \<and> validate_authority H s' a t = Inr (control, lm_lease res)"
proof -
  from request have valid: "is_ok (validate_lease_claim_binding H b)" and r: "lr_binding r = b" "lr_lease_token r = lc_token c"
    and c1: "c1 = c\<lparr> lc_establishment := Some (EstClaim b), lc_proof_state := 1 \<rparr>" "lc_bound c = None"
    by (auto simp: custody_claim_request_def begin_establishment_def bindR_eq_Inr is_ok_iff split: if_splits)
  from claim obtain control lease where control: "load_control H s (lb_run_id b) = Inr control"
    "rc_workspace_id control = lb_workspace_id b" "rc_control_revision control = lb_expected_control_revision b"
    and lease: "digest_lease H (new_lease H r now) = Inr lease" "is_ok (run_lease_validate H lease)"
    and fresh: "insert_lease lease s = Inr (s\<lparr> os_leases := os_leases s @ [lease] \<rparr>)"
    and rec: "record_lease H ctx LmAcquired AkLeaseAcquired now control lease
           (s\<lparr> os_leases := os_leases s @ [lease] \<rparr>) = Inr (res, s')"
    using now by (elim claim_body_Inr) (auto simp: r)
  note frame = record_lease_Inr [OF rec]
  obtain c' where c': "bump_control H control now = Inr c'" "lm_control_revision res = rc_control_revision c'"
    "os_controls s' = map (\<lambda>x. if rc_run_id x = rc_run_id c' then c' else x) (os_controls s)"
    using frame(8) by auto
  note bump = bump_control_Inr [OF c'(1)] and inc = safe_increment_Inr [OF bump_control_Inr(1) [OF c'(1)]]
  from control(1) have found: "find (\<lambda>x. rc_run_id x = lb_run_id b) (os_controls s) = Some control"
    by (auto simp: load_control_def bindR_eq_Inr split: if_splits)
  then have run: "rc_run_id control = lb_run_id b" by (auto simp: find_Some_iff)
  then have control': "load_control H s' (lb_run_id b) = Inr c'"
    using find_map_replace [OF found, of c'] bump(2,5) c'(3) by (simp add: load_control_def)
  obtain d where d: "lease = (new_lease H r now)\<lparr> rl_lease_digest := d \<rparr>" using digest_lease_Inr [OF lease(1)] by blast
  note fence = run_lease_validate_ok [OF lease(2)]
  have "find (\<lambda>l. rl_lease_id l = lb_lease_id b) (os_leases s) = None"
    using fresh by (auto simp: find_None_iff insert_lease_def list_ex_iff d new_lease_def r split: if_splits)
  then have "find (\<lambda>l. rl_lease_id l = lb_lease_id b) (os_leases s') = Some lease"
    using frame(1) by (simp add: find_append_None d new_lease_def r)
  moreover have "checked_add (lb_expected_control_revision b) 1 = Some (rc_control_revision c')"
    using bump(1) control(3) by (auto simp: safe_increment_def split: option.splits if_splits)
  moreover have "checked_add (lb_expected_fence_epoch b) 1 = Some (lb_expected_fence_epoch b + 1)"
    using fence(1) by (intro checked_add_1) (simp add: d new_lease_def r)
  ultimately show ?thesis
    using valid lease(2) control' control(2) frame(2,3,4) c'(2) inc(3) bump(3) fence t
    by (simp add: bind_claim_result_def c1 lease_mutation_validate_def validate_bound_lease_def d new_lease_def r
        custody_authority_def validate_authority_def load_lease_def invalid_if_def validate_lease_claim_binding_def
        is_ok_iff split: if_splits) (simp add: not_less)
qed

end
