(* ===== verification/OperatorBudget.thy ===== *)
theory OperatorBudget
  imports OperatorLease
begin

text \<open>
  Aggregate budgets of the operator control plane: reserving a dispatch ceiling against a
  budget account and releasing a reservation that was never dispatched,
  \<open>reserve_aggregate_budget\<close> and \<open>settle_budget_reservation\<close> of
  \<^verbatim>\<open>crates/proof-storage/src/sqlite/operator_store.rs\<close>. A refused reservation is recorded
  in the audit log, so these operations may commit and still return an error. The lemmas show
  that an account always holds exactly what its open reservations reserve, within its limits.
\<close>

section \<open>Amounts and rows\<close>

definition add_amounts :: "BudgetAmounts \<Rightarrow> BudgetAmounts \<Rightarrow> OperatorStoreError + BudgetAmounts" where
  "add_amounts target v =
     bindR (ok_or OsCorrupt (amounts_lift checked_add target v)) (\<lambda>n.
       if amounts_is_safe n then Inr n else Inl OsCorrupt)"

definition subtract_amounts :: "BudgetAmounts \<Rightarrow> BudgetAmounts \<Rightarrow> OperatorStoreError + BudgetAmounts" where
  "subtract_amounts target v = ok_or OsCorrupt (amounts_lift checked_sub target v)"

abbreviation account_id :: "BudgetAccount \<Rightarrow> uuid" where
  "account_id b \<equiv> pol_budget_id (acc_policy b)"

definition load_budget :: "host \<Rightarrow> OperatorStore \<Rightarrow> uuid \<Rightarrow> OperatorStoreError + BudgetAccount" where
  "load_budget H s budget =
     bindR (ok_or OsNotFound (find (\<lambda>b. account_id b = budget) (os_budgets s))) (\<lambda>b.
       if is_ok (budget_account_validate H b) then Inr b else Inl OsCorrupt)"

definition update_budget :: "host \<Rightarrow> BudgetAccount \<Rightarrow> OperatorStore \<Rightarrow> OperatorStoreError + OperatorStore" where
  "update_budget H b s =
     (if \<not> is_ok (budget_account_validate H b) then Inl OsCorrupt
      else if \<not> list_ex (\<lambda>b'. account_id b' = account_id b) (os_budgets s) then Inl OsCorrupt
      else Inr (s\<lparr> os_budgets := map (\<lambda>b'. if account_id b' = account_id b then b else b') (os_budgets s) \<rparr>))"

definition load_reservation :: "host \<Rightarrow> OperatorStore \<Rightarrow> uuid \<Rightarrow> OperatorStoreError + BudgetReservation" where
  "load_reservation H s reservation =
     bindR (ok_or OsNotFound (find (\<lambda>r. br_reservation_id r = reservation) (os_reservations s))) (\<lambda>r.
       if is_ok (budget_reservation_validate H r) then Inr r else Inl OsCorrupt)"

definition insert_reservation :: "BudgetReservation \<Rightarrow> OperatorStore \<Rightarrow> OperatorStoreError + OperatorStore" where
  "insert_reservation r s =
     (if list_ex (\<lambda>r'. br_reservation_id r' = br_reservation_id r
            \<or> (br_budget_id r' = br_budget_id r \<and> br_idempotency_key r' = br_idempotency_key r)
            \<or> (br_recovery r \<noteq> None
               \<and> map_option rd_directive_id (br_recovery r') = map_option rd_directive_id (br_recovery r))
            \<or> (br_permit_id r \<noteq> None \<and> br_permit_id r' = br_permit_id r)
            \<or> (br_run_id r' = br_run_id r \<and> is_open r' \<and> is_open r)) (os_reservations s)
         \<or> \<not> references (map_option rb_claimed_by (br_replay r)) (os_principals s)
         \<or> br_budget_id r \<notin> account_id ` set (os_budgets s)
      then Inl OsUnavailable
      else Inr (s\<lparr> os_reservations := os_reservations s @ [r] \<rparr>))"

definition update_reservation :: "host \<Rightarrow> BudgetReservation \<Rightarrow> OperatorStore \<Rightarrow> OperatorStoreError + OperatorStore" where
  "update_reservation H r s =
     (if \<not> is_ok (budget_reservation_validate H r) then Inl OsCorrupt
      else if list_ex (\<lambda>r'. br_reservation_id r' \<noteq> br_reservation_id r
             \<and> ((br_run_id r' = br_run_id r \<and> is_open r' \<and> is_open r)
                \<or> (br_permit_id r \<noteq> None \<and> br_permit_id r' = br_permit_id r))) (os_reservations s)
      then Inl OsUnavailable
      else if \<not> list_ex (\<lambda>r'. br_reservation_id r' = br_reservation_id r) (os_reservations s) then Inl OsCorrupt
      else Inr (s\<lparr> os_reservations :=
             map (\<lambda>r'. if br_reservation_id r' = br_reservation_id r then r else r') (os_reservations s) \<rparr>))"

section \<open>Requests\<close>

record BudgetReserveRequest =
  bq_schema :: string
  bq_authority :: LeaseAuthority
  bq_reservation_id :: uuid
  bq_idempotency_key :: uuid
  bq_intent :: DispatchIntent
  bq_intent_digest :: ControlDigest
  bq_replay :: "ReplayClaimBinding option"
  bq_recovery :: "RecoveryDirective option"

definition validate_budget_request :: "host \<Rightarrow> BudgetReserveRequest \<Rightarrow> OperatorStoreError + unit" where
  "validate_budget_request H q =
     invalid_if (bq_schema q \<noteq> ''proof.operator.budget-reserve-request/v1''
       \<or> \<not> uuid_is_v7 H (bq_reservation_id q) \<or> \<not> uuid_is_v7 H (bq_idempotency_key q)
       \<or> \<not> is_ok (dispatch_intent_validate (bq_intent q))
       \<or> (case bq_replay q of None \<Rightarrow> False | Some b \<Rightarrow> \<not> is_ok (replay_binding_validate H b))
       \<or> (case bq_recovery q of None \<Rightarrow> False | Some d \<Rightarrow> \<not> is_ok (recovery_directive_validate H d))
       \<or> digest_record H ''Proof-Operator-Dispatch-Intent-v1'' (dispatch_intent_fields (bq_intent q))
           \<noteq> Some (bq_intent_digest q))"

text \<open>The plain (not strict) serialization of identifiers and revisions.\<close>

abbreviation uuid_value :: "host \<Rightarrow> uuid \<Rightarrow> json option" where
  "uuid_value H u \<equiv> Some (json_uuid H u)"

definition authority_binding_fields :: "host \<Rightarrow> LeaseAuthority \<Rightarrow> wire_fields" where
  "authority_binding_fields H a =
     [(''schema'', text_value (la_schema a)), (''workspace_id'', uuid_value H (la_workspace_id a)),
      (''run_id'', uuid_value H (la_run_id a)), (''lease_id'', uuid_value H (la_lease_id a)),
      (''owner_instance_id'', uuid_value H (la_owner_instance_id a)),
      (''process_epoch_id'', uuid_value H (la_process_epoch_id a)),
      (''fence_epoch'', Some (JNumber (PosInt (la_fence_epoch a)))),
      (''expected_control_revision'', Some (JNumber (PosInt (la_expected_control_revision a))))]"

definition budget_request_fields :: "host \<Rightarrow> BudgetReserveRequest \<Rightarrow> wire_fields" where
  "budget_request_fields H q =
     [(''schema'', text_value (bq_schema q)),
      (''authority'', strict_object (authority_binding_fields H (bq_authority q))),
      (''reservation_id'', uuid_value H (bq_reservation_id q)),
      (''idempotency_key'', uuid_value H (bq_idempotency_key q)),
      (''intent'', strict_object (dispatch_intent_fields (bq_intent q))),
      (''intent_digest'', control_value (bq_intent_digest q)),
      (''replay'', strict_optional (\<lambda>b. strict_object (replay_binding_fields H b)) (bq_replay q)),
      (''recovery'', strict_optional (\<lambda>d. strict_object (recovery_directive_fields H d)) (bq_recovery q))]"

definition budget_request_digest :: "host \<Rightarrow> BudgetReserveRequest \<Rightarrow> OperatorStoreError + ControlDigest" where
  "budget_request_digest H q =
     ok_or OsInvalid (digest_record H ''Proof-Operator-Budget-Reservation-v1'' (budget_request_fields H q))"

datatype BudgetReserveOutcome = BroExactExisting | BroReserved

record BudgetReserveResult =
  bv_schema :: string
  bv_outcome :: BudgetReserveOutcome
  bv_reservation :: BudgetReservation
  bv_budget_revision :: u64
  bv_control_revision :: u64

text \<open>\<open>BudgetSettlementRequest\<close> and its result: the disposition and the outcome have one value
  each.\<close>

record BudgetSettlementRequest =
  bs_schema :: string
  bs_authority :: LeaseAuthority
  bs_reservation_id :: uuid

record BudgetSettlementResult =
  bt_schema :: string
  bt_reservation :: BudgetReservation
  bt_budget_revision :: u64
  bt_control_revision :: u64

section \<open>Operations\<close>

definition budget_event :: "RunControl \<Rightarrow> RunLease \<Rightarrow> uuid \<Rightarrow> uuid \<Rightarrow> ControlDigest \<Rightarrow> AuditEventKind
    \<Rightarrow> AuditOutcome \<Rightarrow> utc \<Rightarrow> AuditEvent" where
  "budget_event control lease event reservation intent kind outcome now =
     (event_base (rc_workspace_id control) event kind outcome now)
       \<lparr> ae_run_id := Some (rc_run_id control), ae_budget_id := Some (rc_budget_id control),
         ae_reservation_id := Some reservation, ae_lease_id := Some (rl_lease_id lease),
         ae_fence_epoch := Some (rl_fence_epoch lease), ae_intent_digest := Some intent \<rparr>"

definition append_budget_event :: "host \<Rightarrow> OperatorEnv option \<Rightarrow> nat \<Rightarrow> RunControl \<Rightarrow> RunLease \<Rightarrow> uuid
    \<Rightarrow> ControlDigest \<Rightarrow> AuditEventKind \<Rightarrow> AuditOutcome \<Rightarrow> utc \<Rightarrow> OperatorStore \<Rightarrow> OperatorStoreError + OperatorStore" where
  "append_budget_event H ctx draw control lease reservation intent kind outcome now s =
     bindR (operator_uuid ctx draw) (\<lambda>event.
       append_audit_event H (budget_event control lease event reservation intent kind outcome now) s)"

text \<open>A refusal that is recorded: the event is committed and the call fails.\<close>

definition reject_budget :: "host \<Rightarrow> OperatorEnv option \<Rightarrow> RunControl \<Rightarrow> RunLease \<Rightarrow> uuid \<Rightarrow> ControlDigest \<Rightarrow> utc
    \<Rightarrow> OperatorStoreError \<Rightarrow> OperatorStore \<Rightarrow> OperatorStoreError + (OperatorStoreError + 'a) \<times> OperatorStore" where
  "reject_budget H ctx control lease reservation intent now error s =
     bindR (append_budget_event H ctx 0 control lease reservation intent AkBudgetRejected AoRejected now s)
       (\<lambda>s1. Inr (Inl error, s1))"

definition load_agent_run_exact :: "OperatorStore \<Rightarrow> uuid \<Rightarrow> OperatorStoreError + AgentRun" where
  "load_agent_run_exact s run =
     bindR (ok_or OsNotFound (find (\<lambda>r. AgentRun.run_id r = run) (os_runs s))) (\<lambda>r.
       if run_revision r > MAX_SAFE_INTEGER then Inl OsCorrupt else Inr r)"

definition load_agent_step_exact :: "OperatorStore \<Rightarrow> uuid \<Rightarrow> OperatorStoreError + AgentRunStep" where
  "load_agent_step_exact s step =
     bindR (ok_or OsNotFound (find (\<lambda>x. AgentRun.step_id x = step) (os_steps s))) (\<lambda>x.
       if step_revision x > MAX_SAFE_INTEGER then Inl OsCorrupt else Inr x)"

definition check_replay :: "OperatorStore \<Rightarrow> RunControl \<Rightarrow> AgentRun \<Rightarrow> uuid \<times> u64 \<times> ContentDigest
    \<Rightarrow> BudgetReserveRequest \<Rightarrow> OperatorStoreError + unit" where
  "check_replay s control run checkpoint q =
     (case bq_replay q of
        None \<Rightarrow> Inr ()
      | Some b \<Rightarrow>
          bindR (load_agent_step_exact s (rb_step_id b)) (\<lambda>step.
            invalid_if (rb_workspace_id b \<noteq> rc_workspace_id control \<or> rb_run_id b \<noteq> rc_run_id control
              \<or> (rb_checkpoint_id b, rb_checkpoint_sequence b, rb_checkpoint_digest b) \<noteq> checkpoint
              \<or> rb_operation b \<noteq> di_operation (bq_intent q) \<or> rb_version b \<noteq> di_version (bq_intent q)
              \<or> rb_input_digest b \<noteq> step_input_digest step \<or> rb_claimed_by b \<noteq> run_actor run
              \<or> step_run_id step \<noteq> AgentRun.run_id run \<or> step_status step \<noteq> StepRunning)))"

definition load_recovery_directive :: "host \<Rightarrow> OperatorStore \<Rightarrow> uuid \<Rightarrow> OperatorStoreError + RecoveryDirective" where
  "load_recovery_directive H s directive =
     bindR (ok_or OsCorrupt (find (\<lambda>d. rd_directive_id d = directive) (os_directives s))) (\<lambda>d.
       if is_ok (recovery_directive_validate H d) then Inr d else Inl OsCorrupt)"

definition check_recovery :: "host \<Rightarrow> OperatorStore \<Rightarrow> RunControl \<Rightarrow> BudgetReserveRequest \<Rightarrow> OperatorStoreError + unit" where
  "check_recovery H s control q =
     (case bq_recovery q of
        None \<Rightarrow>
          if rc_recovery_directive_id control \<noteq> None \<or> rc_recovery_directive_digest control \<noteq> None
          then Inl OsNotActionable else Inr ()
      | Some recovery \<Rightarrow>
          bindR (load_recovery_directive H s (rd_directive_id recovery)) (\<lambda>stored.
          bindR (load_reservation H s (rd_source_reservation_id recovery)) (\<lambda>source.
            let reused = filter (\<lambda>r. map_option rd_directive_id (br_recovery r) = Some (rd_directive_id recovery))
                           (os_reservations s);
                resumed = filter (\<lambda>e. ae_run_id e = Some (rc_run_id control)
                            \<and> ae_recovery_directive_id e = Some (rd_directive_id recovery)
                            \<and> ae_kind e \<in> {AkRecoveryCompleted, AkRunResumed}) (os_events s)
            in if stored \<noteq> recovery \<or> rc_recovery_directive_id control \<noteq> None
                  \<or> rc_recovery_directive_digest control \<noteq> None
                  \<or> br_state source \<noteq> BrReleased
                  \<or> br_reservation_id source \<noteq> rd_source_reservation_id recovery
                  \<or> br_budget_id source \<noteq> rd_source_budget_id recovery
                  \<or> br_idempotency_key source \<noteq> rd_source_idempotency_key recovery
                  \<or> br_request_digest source \<noteq> rd_source_request_digest recovery
                  \<or> br_intent_digest source \<noteq> rd_intent_digest recovery
                  \<or> br_replay source \<noteq> rd_replay recovery
                  \<or> bq_intent_digest q \<noteq> rd_intent_digest recovery \<or> bq_replay q \<noteq> rd_replay recovery
                  \<or> reused \<noteq> [] \<or> length resumed < 2
               then Inl OsNotActionable else Inr ())))"

definition new_reservation :: "RunControl \<Rightarrow> RunLease \<Rightarrow> BudgetReserveRequest \<Rightarrow> ControlDigest \<Rightarrow> utc
    \<Rightarrow> BudgetReservation" where
  "new_reservation control lease q request_digest now =
     \<lparr> br_schema = ''proof-operator-budget-reservation/v1'', br_reservation_id = bq_reservation_id q,
       br_budget_id = rc_budget_id control, br_run_id = rc_run_id control, br_lease_id = rl_lease_id lease,
       br_fence_epoch = rl_fence_epoch lease, br_idempotency_key = bq_idempotency_key q,
       br_request_digest = request_digest, br_kind = di_kind (bq_intent q), br_intent = bq_intent q,
       br_intent_digest = bq_intent_digest q, br_replay = bq_replay q, br_recovery = bq_recovery q,
       br_state = BrReserved, br_reserved = di_ceiling (bq_intent q), br_charged = zero_amounts,
       br_created_at = now, br_permit_id = None, br_dispatch_token_digest = None, br_call_digest = None,
       br_prepared_execution_digest = None, br_result_digest = None, br_prepared_binding = None,
       br_runtime_commit = None, br_dispatch_started_at = None, br_settled_at = None \<rparr>"

text \<open>The tail that both operations share: control revision, projection, audit event.\<close>

definition record_budget :: "host \<Rightarrow> OperatorEnv option \<Rightarrow> RunControl \<Rightarrow> RunLease \<Rightarrow> BudgetReservation
    \<Rightarrow> AuditEventKind \<Rightarrow> AuditOutcome \<Rightarrow> utc \<Rightarrow> OperatorStore \<Rightarrow> OperatorStoreError + u64 \<times> OperatorStore" where
  "record_budget H ctx control lease r kind outcome now s =
     bindR (bump_control H control now) (\<lambda>control1.
     bindR (update_run_control H control1 s) (\<lambda>s1.
     bindR (append_current_projection H ctx 0 control1 (rl_fence_epoch lease) now s1) (\<lambda>s2.
     bindR (append_budget_event H ctx 1 control1 lease (br_reservation_id r) (br_intent_digest r)
              kind outcome now s2) (\<lambda>s3.
       Inr (rc_control_revision control1, s3)))))"

definition reserve_commit :: "host \<Rightarrow> OperatorEnv option \<Rightarrow> BudgetReserveRequest \<Rightarrow> RunControl \<Rightarrow> RunLease
    \<Rightarrow> BudgetAccount \<Rightarrow> utc \<Rightarrow> OperatorStore
    \<Rightarrow> OperatorStoreError + (OperatorStoreError + BudgetReserveResult) \<times> OperatorStore" where
  "reserve_commit H ctx q control lease budget now s =
     bindR (budget_request_digest H q) (\<lambda>request_digest.
       let r = new_reservation control lease q request_digest now
       in if \<not> is_ok (budget_reservation_validate H r) then Inl OsInvalid
          else
     bindR (insert_reservation r s) (\<lambda>s1.
     bindR (add_amounts (acc_reserved budget) (br_reserved r)) (\<lambda>reserved.
       let budget1 = budget\<lparr> acc_reserved := reserved, acc_revision := acc_revision budget + 1,
                             acc_updated_at := now \<rparr>
       in
     bindR (update_budget H budget1 s1) (\<lambda>s2.
     bindR (record_budget H ctx control lease r AkBudgetReserved AoAccepted now s2) (\<lambda>(revision, s3).
       Inr (Inr \<lparr> bv_schema = ''proof.operator.budget-reserve-result/v1'', bv_outcome = BroReserved,
                  bv_reservation = r, bv_budget_revision = acc_revision budget1,
                  bv_control_revision = revision \<rparr>, s3))))))"

definition reserve_checked :: "host \<Rightarrow> OperatorEnv option \<Rightarrow> BudgetReserveRequest \<Rightarrow> RunControl \<Rightarrow> RunLease
    \<Rightarrow> utc \<Rightarrow> OperatorStore
    \<Rightarrow> OperatorStoreError + (OperatorStoreError + BudgetReserveResult) \<times> OperatorStore" where
  "reserve_checked H ctx q control lease now s =
     bindR (load_agent_run_exact s (rc_run_id control)) (\<lambda>run.
       if run_status run \<noteq> RunRunning then Inl OsNotActionable
       else
     bindR (ok_or OsUnavailable (latest_projection s (rc_run_id control))) (\<lambda>projection.
       if \<not> is_ok (run_projection_validate H projection)
          \<or> rp_source_run_revision projection \<noteq> run_revision run
          \<or> rp_source_control_revision projection \<noteq> rc_control_revision control
          \<or> rp_fence_epoch projection \<noteq> rl_fence_epoch lease \<or> rp_attention projection \<noteq> AtRunning
       then Inl OsCorrupt
       else
     bindR (load_latest_checkpoint_identity s (rc_run_id control)) (\<lambda>checkpoint.
       if checkpoint \<noteq> (rp_checkpoint_id projection, rp_checkpoint_sequence projection,
                          rp_checkpoint_digest projection)
       then Inl OsCorrupt
       else
     bindR (check_replay s control run checkpoint q) (\<lambda>_.
     bindR (check_recovery H s control q) (\<lambda>_.
     bindR (load_budget H s (rc_budget_id control)) (\<lambda>budget.
       if \<not> is_ok (can_reserve H budget (di_ceiling (bq_intent q)) now)
       then reject_budget H ctx control lease (bq_reservation_id q) (bq_intent_digest q) now OsNotActionable s
       else reserve_commit H ctx q control lease budget now s))))))"

definition reserve_existing :: "host \<Rightarrow> BudgetReserveRequest \<Rightarrow> RunControl \<Rightarrow> BudgetReservation \<Rightarrow> OperatorStore
    \<Rightarrow> OperatorStoreError + (OperatorStoreError + BudgetReserveResult) \<times> OperatorStore" where
  "reserve_existing H q control r s =
     (if \<not> is_ok (budget_reservation_validate H r) then Inl OsCorrupt
      else
     bindR (budget_request_digest H q) (\<lambda>expected.
       if br_request_digest r \<noteq> expected \<or> br_reservation_id r \<noteq> bq_reservation_id q then Inl OsConflict
       else
     bindR (load_budget H s (rc_budget_id control)) (\<lambda>budget.
       Inr (Inr \<lparr> bv_schema = ''proof.operator.budget-reserve-result/v1'', bv_outcome = BroExactExisting,
                  bv_reservation = r, bv_budget_revision = acc_revision budget,
                  bv_control_revision = rc_control_revision control \<rparr>, s))))"

definition reserve_body :: "host \<Rightarrow> OperatorEnv option \<Rightarrow> BudgetReserveRequest \<Rightarrow> OperatorStore
    \<Rightarrow> OperatorStoreError + (OperatorStoreError + BudgetReserveResult) \<times> OperatorStore" where
  "reserve_body H ctx q s =
     bindR (ok_or OsUnavailable ctx) (\<lambda>_.
     bindR (validate_budget_request H q) (\<lambda>_.
     bindR (operator_now ctx) (\<lambda>now.
     bindR (validate_authority H s (bq_authority q) now) (\<lambda>(control, lease).
       case find (\<lambda>r. br_budget_id r = rc_budget_id control \<and> br_idempotency_key r = bq_idempotency_key q)
              (os_reservations s) of
         Some r \<Rightarrow> reserve_existing H q control r s
       | None \<Rightarrow>
           if list_ex (\<lambda>r. br_run_id r = rc_run_id control \<and> is_open r) (os_reservations s)
              \<or> rc_active_dispatch_reservation_id control \<noteq> None
           then reject_budget H ctx control lease (bq_reservation_id q) (bq_intent_digest q) now OsConflict s
           else reserve_checked H ctx q control lease now s))))"

text \<open>A committed transaction whose result may itself be an error.\<close>

definition settle_result :: "(OperatorStoreError + (OperatorStoreError + 'a)) \<times> OperatorStore
    \<Rightarrow> (OperatorStoreError + 'a) \<times> OperatorStore" where
  "settle_result x = (bindR (fst x) id, snd x)"

definition reserve_aggregate_budget :: "host \<Rightarrow> OperatorEnv option \<Rightarrow> BudgetReserveRequest \<Rightarrow> OperatorStore
    \<Rightarrow> (OperatorStoreError + BudgetReserveResult) \<times> OperatorStore" where
  "reserve_aggregate_budget H ctx q s = settle_result (transact s (reserve_body H ctx q s))"

definition settle_commit :: "host \<Rightarrow> OperatorEnv option \<Rightarrow> RunControl \<Rightarrow> RunLease \<Rightarrow> BudgetReservation \<Rightarrow> utc
    \<Rightarrow> OperatorStore \<Rightarrow> OperatorStoreError + (OperatorStoreError + BudgetSettlementResult) \<times> OperatorStore" where
  "settle_commit H ctx control lease r now s =
     bindR (load_budget H s (br_budget_id r)) (\<lambda>budget.
     bindR (subtract_amounts (acc_reserved budget) (br_reserved r)) (\<lambda>reserved.
       let budget1 = budget\<lparr> acc_reserved := reserved, acc_revision := acc_revision budget + 1,
                             acc_updated_at := now \<rparr>;
           released = r\<lparr> br_state := BrReleased, br_settled_at := Some now \<rparr>
       in
     bindR (update_reservation H released s) (\<lambda>s1.
     bindR (update_budget H budget1 s1) (\<lambda>s2.
     bindR (record_budget H ctx control lease released AkBudgetReleased AoAccepted now s2) (\<lambda>(revision, s3).
       Inr (Inr \<lparr> bt_schema = ''proof.operator.budget-settlement-result/v1'', bt_reservation = released,
                  bt_budget_revision = acc_revision budget1, bt_control_revision = revision \<rparr>, s3))))))"

definition settle_body :: "host \<Rightarrow> OperatorEnv option \<Rightarrow> BudgetSettlementRequest \<Rightarrow> OperatorStore
    \<Rightarrow> OperatorStoreError + (OperatorStoreError + BudgetSettlementResult) \<times> OperatorStore" where
  "settle_body H ctx q s =
     bindR (ok_or OsUnavailable ctx) (\<lambda>_.
     bindR (invalid_if (bs_schema q \<noteq> ''proof.operator.budget-settlement-request/v1''
              \<or> \<not> uuid_is_v7 H (bs_reservation_id q))) (\<lambda>_.
     bindR (operator_now ctx) (\<lambda>now.
     bindR (validate_authority H s (bs_authority q) now) (\<lambda>(control, lease).
     bindR (load_reservation H s (bs_reservation_id q)) (\<lambda>r.
       if br_run_id r \<noteq> rc_run_id control \<or> br_lease_id r \<noteq> rl_lease_id lease then Inl OsNotActionable
       else if br_state r = BrDispatching then
         (if rc_active_dispatch_reservation_id control \<noteq> Some (br_reservation_id r) then Inl OsCorrupt
          else reject_budget H ctx control lease (br_reservation_id r) (br_intent_digest r) now OsNotActionable s)
       else if br_state r \<noteq> BrReserved then Inl OsNotActionable
       else settle_commit H ctx control lease r now s)))))"

definition settle_budget_reservation :: "host \<Rightarrow> OperatorEnv option \<Rightarrow> BudgetSettlementRequest \<Rightarrow> OperatorStore
    \<Rightarrow> (OperatorStoreError + BudgetSettlementResult) \<times> OperatorStore" where
  "settle_budget_reservation H ctx q s = settle_result (transact s (settle_body H ctx q s))"

section \<open>What the operations change\<close>

lemma append_audit_event_frame:
  assumes "append_audit_event H event s = Inr s'"
  shows "os_leases s' = os_leases s" and "os_controls s' = os_controls s"
    and "os_reservations s' = os_reservations s" and "os_budgets s' = os_budgets s"
  using assms by (rule append_audit_event_Inr; simp)+

lemma reject_budget_Inr:
  assumes "reject_budget H ctx control lease reservation intent now error s = Inr (r, s')"
  shows "r = Inl error" and "os_leases s' = os_leases s" and "os_reservations s' = os_reservations s"
    and "os_budgets s' = os_budgets s" and "audit_ok H base s \<Longrightarrow> audit_ok H base s'"
proof -
  from assms obtain event where step: "append_audit_event H event s = Inr s'" and "r = Inl error"
    by (auto simp: reject_budget_def append_budget_event_def bindR_eq_Inr)
  with append_audit_event_frame [OF step] append_audit_event_ok [OF _ step]
  show "r = Inl error" "os_leases s' = os_leases s" "os_reservations s' = os_reservations s"
    "os_budgets s' = os_budgets s" "audit_ok H base s \<Longrightarrow> audit_ok H base s'" by auto
qed

lemma record_budget_Inr:
  assumes "record_budget H ctx control lease r kind outcome now s = Inr (revision, s')"
  shows "os_leases s' = os_leases s" and "os_reservations s' = os_reservations s"
    and "os_budgets s' = os_budgets s" and "audit_ok H base s \<Longrightarrow> audit_ok H base s'"
proof -
  from assms obtain c s1 s2 event where s1: "update_run_control H c s = Inr s1"
    and s2: "append_current_projection H ctx 0 c (rl_fence_epoch lease) now s1 = Inr s2"
    and s3: "append_audit_event H event s2 = Inr s'"
    by (auto simp: record_budget_def append_budget_event_def bindR_eq_Inr)
  note c1 = update_run_control_Inr [OF s1] and frame = append_audit_event_frame [OF s3]
  obtain p where p: "s2 = s1\<lparr> os_projections := os_projections s1 @ [p] \<rparr>"
    using append_current_projection_Inr [OF s2] by blast
  show "os_leases s' = os_leases s" "os_reservations s' = os_reservations s" "os_budgets s' = os_budgets s"
    using frame p c1(1) by simp_all
  show "audit_ok H base s'" if "audit_ok H base s"
    using append_audit_event_ok [OF _ s3] audit_ok_cong [OF that, of s2] p c1(1) by simp
qed

lemma update_budget_Inr:
  assumes "update_budget H b s = Inr s'"
  shows "s' = s\<lparr> os_budgets := map (\<lambda>b'. if account_id b' = account_id b then b else b') (os_budgets s) \<rparr>"
    and "is_ok (budget_account_validate H b)"
  using assms by (auto simp: update_budget_def split: if_splits)

lemma update_reservation_Inr:
  assumes "update_reservation H r s = Inr s'"
  shows "s' = s\<lparr> os_reservations :=
      map (\<lambda>r'. if br_reservation_id r' = br_reservation_id r then r else r') (os_reservations s) \<rparr>"
  using assms by (auto simp: update_reservation_def split: if_splits)

lemma load_budget_Inr:
  assumes "load_budget H s budget = Inr b"
  shows "b \<in> set (os_budgets s)" and "account_id b = budget"
  using assms by (auto simp: load_budget_def bindR_eq_Inr find_Some_iff split: if_splits)

lemma load_reservation_Inr:
  assumes "load_reservation H s reservation = Inr r"
  shows "r \<in> set (os_reservations s)" and "br_reservation_id r = reservation"
  using assms by (auto simp: load_reservation_def bindR_eq_Inr find_Some_iff split: if_splits)

text \<open>A reservation is added to an account, or an open one is closed and leaves it.\<close>

definition account_changed :: "host \<Rightarrow> OperatorStore \<Rightarrow> OperatorStore \<Rightarrow> BudgetAccount \<Rightarrow> BudgetAccount \<Rightarrow> bool" where
  "account_changed H s s' b b' \<longleftrightarrow>
     b \<in> set (os_budgets s) \<and> acc_policy b' = acc_policy b \<and> is_ok (budget_account_validate H b')
     \<and> os_budgets s' = map (\<lambda>x. if account_id x = account_id b then b' else x) (os_budgets s)"

definition reserved_in :: "host \<Rightarrow> OperatorStore \<Rightarrow> OperatorStore \<Rightarrow> bool" where
  "reserved_in H s s' \<longleftrightarrow>
     (\<exists>b b' r. account_changed H s s' b b' \<and> amounts_lift checked_add (acc_reserved b) (br_reserved r) = Some (acc_reserved b')
       \<and> acc_committed b' = acc_committed b \<and> br_budget_id r = account_id b \<and> br_state r = BrReserved
       \<and> br_charged r = zero_amounts \<and> br_reservation_id r \<notin> br_reservation_id ` set (os_reservations s)
       \<and> os_reservations s' = os_reservations s @ [r])"

definition closed_in :: "host \<Rightarrow> OperatorStore \<Rightarrow> OperatorStore \<Rightarrow> bool" where
  "closed_in H s s' \<longleftrightarrow>
     (\<exists>b b' r r'. account_changed H s s' b b'
       \<and> amounts_lift checked_sub (acc_reserved b) (br_reserved r) = Some (acc_reserved b')
       \<and> amounts_lift checked_add (acc_committed b) (br_charged r') = Some (acc_committed b')
       \<and> r \<in> set (os_reservations s) \<and> br_budget_id r = account_id b \<and> is_open r \<and> br_charged r = zero_amounts
       \<and> br_reservation_id r' = br_reservation_id r \<and> br_budget_id r' = br_budget_id r \<and> \<not> is_open r'
       \<and> os_reservations s' = map (\<lambda>x. if br_reservation_id x = br_reservation_id r then r' else x) (os_reservations s))"

lemma reserve_commit_Inr:
  assumes "reserve_commit H ctx q control lease budget now s = Inr (res, s')"
    and budget: "load_budget H s (rc_budget_id control) = Inr budget"
  shows "reserved_in H s s'" and "os_leases s' = os_leases s" and "audit_ok H base s \<Longrightarrow> audit_ok H base s'"
proof -
  from assms(1) obtain d s1 reserved s2 revision where
    s1: "insert_reservation (new_reservation control lease q d now) s = Inr s1"
    and add: "add_amounts (acc_reserved budget) (di_ceiling (bq_intent q)) = Inr reserved"
    and s2: "update_budget H (budget\<lparr> acc_reserved := reserved, acc_revision := acc_revision budget + 1,
              acc_updated_at := now \<rparr>) s1 = Inr s2"
    and rec: "record_budget H ctx control lease (new_reservation control lease q d now) AkBudgetReserved AoAccepted now s2
              = Inr (revision, s')"
    by (auto simp: reserve_commit_def bindR_eq_Inr Let_def new_reservation_def split: if_splits)
  let ?r = "new_reservation control lease q d now"
  note b = load_budget_Inr [OF budget] and s2 = update_budget_Inr [OF s2] and frame = record_budget_Inr [OF rec]
  from s1 have s1: "s1 = s\<lparr> os_reservations := os_reservations s @ [?r] \<rparr>"
    and fresh: "br_reservation_id ?r \<notin> br_reservation_id ` set (os_reservations s)"
    by (auto simp: insert_reservation_def list_ex_iff split: if_splits)
  from add have add: "amounts_lift checked_add (acc_reserved budget) (br_reserved ?r) = Some reserved"
    by (auto simp: add_amounts_def bindR_eq_Inr new_reservation_def split: if_splits)
  have r: "br_budget_id ?r = account_id budget" "br_state ?r = BrReserved" "br_charged ?r = zero_amounts"
    by (simp_all add: new_reservation_def b(2))
  let ?b = "budget\<lparr> acc_reserved := reserved, acc_revision := acc_revision budget + 1, acc_updated_at := now \<rparr>"
  have "account_changed H s s' budget ?b" using b s2 frame s1 by (simp add: account_changed_def)
  then show "reserved_in H s s'"
    unfolding reserved_in_def using add r fresh s1 s2 frame
    by (intro exI [of _ budget] exI [of _ ?b] exI [of _ ?r]) simp
  show "os_leases s' = os_leases s" using s1 s2 frame by simp
  show "audit_ok H base s'" if "audit_ok H base s" using frame(4) audit_ok_cong [OF that, of s2] s1 s2 by simp
qed

lemma reserve_body_Inr:
  assumes "reserve_body H ctx q s = Inr (res, s')"
  shows "os_leases s' = os_leases s" and "audit_ok H base s \<Longrightarrow> audit_ok H base s'"
    and "(os_reservations s' = os_reservations s \<and> os_budgets s' = os_budgets s) \<or> reserved_in H s s'"
proof -
  obtain now control lease where
    body: "(case find (\<lambda>r. br_budget_id r = rc_budget_id control \<and> br_idempotency_key r = bq_idempotency_key q)
              (os_reservations s) of
         Some r \<Rightarrow> reserve_existing H q control r s
       | None \<Rightarrow>
           if list_ex (\<lambda>r. br_run_id r = rc_run_id control \<and> is_open r) (os_reservations s)
              \<or> rc_active_dispatch_reservation_id control \<noteq> None
           then reject_budget H ctx control lease (bq_reservation_id q) (bq_intent_digest q) now OsConflict s
           else reserve_checked H ctx q control lease now s) = Inr (res, s')"
    using assms by (auto simp: reserve_body_def bindR_eq_Inr simp del: option.case_eq_if)
  have existing: "s' = s" if "reserve_existing H q control r s = Inr (res, s')" for r
    using that by (auto simp: reserve_existing_def bindR_eq_Inr split: if_splits)
  have checked: "(\<exists>e. reject_budget H ctx control lease (bq_reservation_id q) (bq_intent_digest q) now e s = Inr (res, s'))
      \<or> (\<exists>budget. load_budget H s (rc_budget_id control) = Inr budget
           \<and> reserve_commit H ctx q control lease budget now s = Inr (res, s'))"
    if "reserve_checked H ctx q control lease now s = Inr (res, s')"
    using that by (auto simp: reserve_checked_def bindR_eq_Inr split: if_splits)
  from body consider "s' = s"
    | e where "reject_budget H ctx control lease (bq_reservation_id q) (bq_intent_digest q) now e s = Inr (res, s')"
    | budget where "load_budget H s (rc_budget_id control) = Inr budget"
        "reserve_commit H ctx q control lease budget now s = Inr (res, s')"
    using existing checked by (auto split: option.splits if_splits)
  note effect = this
  show "os_leases s' = os_leases s"
    using effect by cases (simp, erule reject_budget_Inr, erule (1) reserve_commit_Inr [rotated])
  show "audit_ok H base s'" if "audit_ok H base s"
    using effect that by cases (simp, erule (1) reject_budget_Inr, erule (2) reserve_commit_Inr [rotated])
  show "(os_reservations s' = os_reservations s \<and> os_budgets s' = os_budgets s) \<or> reserved_in H s s'"
    using effect by cases (simp, simp add: reject_budget_Inr, simp add: reserve_commit_Inr)
qed


lemma amounts_add_zero: "amounts_lift checked_add a zero_amounts = Some a"
  using unsigned_less [of "ba_steps a", where ?'a = nat] unsigned_less [of "ba_tokens a", where ?'a = nat]
    unsigned_less [of "ba_duration_ms a", where ?'a = nat] unsigned_less [of "ba_cost_microusd a", where ?'a = nat]
    unsigned_less [of "ba_tool_dispatches a", where ?'a = nat]
  by (simp add: amounts_lift_def zero_amounts_def checked_add_def)

lemma open_uncharged:
  assumes "is_ok (budget_reservation_validate H r)" and "is_open r"
  shows "br_charged r = zero_amounts"
  using assms by (auto simp: budget_reservation_validate_def is_ok_iff bindR_eq_Inr reservation_branch_valid_def
      is_open_def split: if_splits)

lemma settle_commit_Inr:
  assumes "settle_commit H ctx control lease r now s = Inr (res, s')"
    and load: "load_reservation H s reservation = Inr r" and reserved: "br_state r = BrReserved"
  shows "closed_in H s s'" and "os_leases s' = os_leases s" and "audit_ok H base s \<Longrightarrow> audit_ok H base s'"
proof -
  let ?r = "r\<lparr> br_state := BrReleased, br_settled_at := Some now \<rparr>"
  from assms(1) obtain budget reserved s1 s2 revision where budget: "load_budget H s (br_budget_id r) = Inr budget"
    and sub: "subtract_amounts (acc_reserved budget) (br_reserved r) = Inr reserved"
    and s1: "update_reservation H ?r s = Inr s1"
    and s2: "update_budget H (budget\<lparr> acc_reserved := reserved, acc_revision := acc_revision budget + 1,
              acc_updated_at := now \<rparr>) s1 = Inr s2"
    and rec: "record_budget H ctx control lease ?r AkBudgetReleased AoAccepted now s2 = Inr (revision, s')"
    by (auto simp: settle_commit_def bindR_eq_Inr Let_def)
  let ?b = "budget\<lparr> acc_reserved := reserved, acc_revision := acc_revision budget + 1, acc_updated_at := now \<rparr>"
  note b = load_budget_Inr [OF budget] and r = load_reservation_Inr [OF load]
  note s1 = update_reservation_Inr [OF s1] and s2 = update_budget_Inr [OF s2] and frame = record_budget_Inr [OF rec]
  have "is_ok (budget_reservation_validate H r)"
    using load by (auto simp: load_reservation_def bindR_eq_Inr split: if_splits)
  with reserved have zero: "br_charged r = zero_amounts" by (simp add: open_uncharged is_open_def)
  have "account_changed H s s' budget ?b" using b s2 frame s1 by (simp add: account_changed_def)
  then show "closed_in H s s'"
    unfolding closed_in_def using sub r b s1 s2 frame reserved zero
    by (intro exI [of _ budget] exI [of _ ?b] exI [of _ r] exI [of _ ?r])
      (simp add: subtract_amounts_def is_open_def amounts_add_zero)
  show "os_leases s' = os_leases s" using s1 s2 frame by simp
  show "audit_ok H base s'" if "audit_ok H base s" using frame(4) audit_ok_cong [OF that, of s2] s1 s2 by simp
qed

lemma settle_body_Inr:
  assumes "settle_body H ctx q s = Inr (res, s')"
  shows "os_leases s' = os_leases s" and "audit_ok H base s \<Longrightarrow> audit_ok H base s'"
    and "(os_reservations s' = os_reservations s \<and> os_budgets s' = os_budgets s) \<or> closed_in H s s'"
proof -
  from assms obtain now control lease r where load: "load_reservation H s (bs_reservation_id q) = Inr r"
    and "(\<exists>e. reject_budget H ctx control lease (br_reservation_id r) (br_intent_digest r) now e s = Inr (res, s'))
      \<or> (br_state r = BrReserved \<and> settle_commit H ctx control lease r now s = Inr (res, s'))"
    by (auto simp: settle_body_def bindR_eq_Inr split: if_splits) blast+
  then consider e where "reject_budget H ctx control lease (br_reservation_id r) (br_intent_digest r) now e s = Inr (res, s')"
    | "settle_commit H ctx control lease r now s = Inr (res, s')" "br_state r = BrReserved" by blast
  note effect = this
  show "os_leases s' = os_leases s"
    using effect by cases (erule reject_budget_Inr, rule settle_commit_Inr(2) [OF _ load])
  show "audit_ok H base s'" if "audit_ok H base s"
    using effect that by cases (erule (1) reject_budget_Inr, rule settle_commit_Inr(3) [OF _ load])
  show "(os_reservations s' = os_reservations s \<and> os_budgets s' = os_budgets s) \<or> closed_in H s s'"
    using effect by cases (simp add: reject_budget_Inr, simp add: settle_commit_Inr(1) [OF _ load])
qed

section \<open>The accounts match the reservations\<close>

definition amount_parts :: "(BudgetAmounts \<Rightarrow> u64) list" where
  "amount_parts = [ba_steps, ba_tokens, ba_duration_ms, ba_cost_microusd, ba_tool_dispatches]"

text \<open>What the open reservations of a budget reserve, and what its reservations were charged.\<close>

definition held :: "(BudgetAmounts \<Rightarrow> u64) \<Rightarrow> OperatorStore \<Rightarrow> uuid \<Rightarrow> nat" where
  "held f s budget =
     (\<Sum>r \<leftarrow> os_reservations s. if br_budget_id r = budget \<and> is_open r then unat (f (br_reserved r)) else 0)"

definition charges :: "(BudgetAmounts \<Rightarrow> u64) \<Rightarrow> OperatorStore \<Rightarrow> uuid \<Rightarrow> nat" where
  "charges f s budget = (\<Sum>r \<leftarrow> os_reservations s. if br_budget_id r = budget then unat (f (br_charged r)) else 0)"

definition account_ok :: "OperatorStore \<Rightarrow> BudgetAccount \<Rightarrow> bool" where
  "account_ok s b \<longleftrightarrow>
     (\<forall>f \<in> set amount_parts. unat (f (acc_reserved b)) = held f s (account_id b)
        \<and> unat (f (acc_committed b)) = charges f s (account_id b)
        \<and> held f s (account_id b) + charges f s (account_id b) \<le> unat (f (pol_limits (acc_policy b))))"

definition budget_ok :: "OperatorStore \<Rightarrow> bool" where
  "budget_ok s \<longleftrightarrow> distinct (map account_id (os_budgets s))
     \<and> distinct (map br_reservation_id (os_reservations s)) \<and> (\<forall>b \<in> set (os_budgets s). account_ok s b)"

lemma amounts_add_parts:
  assumes "amounts_lift checked_add a b = Some c" and "f \<in> set amount_parts"
  shows "unat (f c) = unat (f a) + unat (f b)"
  using assms by (auto simp: amounts_lift_def amount_parts_def bind_eq_Some_conv unat_checked_add)

lemma unat_checked_sub: "checked_sub a b = Some c \<Longrightarrow> unat c + unat b = unat a" for a :: "'a::len word"
  by (auto simp: checked_sub_def unat_sub word_le_nat_alt split: if_splits)

lemma amounts_sub_parts:
  assumes "amounts_lift checked_sub a b = Some c" and "f \<in> set amount_parts"
  shows "unat (f c) + unat (f b) = unat (f a)"
  using assms by (auto simp: amounts_lift_def amount_parts_def bind_eq_Some_conv unat_checked_sub)

lemma account_within_limits:
  assumes "is_ok (budget_account_validate H b)" and "f \<in> set amount_parts"
  shows "unat (f (acc_reserved b)) + unat (f (acc_committed b)) \<le> unat (f (pol_limits (acc_policy b)))"
proof -
  from assms(1) obtain used where used: "amounts_lift checked_add (acc_reserved b) (acc_committed b) = Some used"
    and "fits_within used (pol_limits (acc_policy b))"
    by (auto simp: budget_account_validate_def is_ok_iff bindR_eq_Inr split: if_splits)
  then have "unat (f used) \<le> unat (f (pol_limits (acc_policy b)))"
    using assms(2) by (auto simp: fits_within_def amount_parts_def word_le_nat_alt)
  then show ?thesis using amounts_add_parts [OF used assms(2)] by simp
qed

lemma sum_replace:
  assumes "distinct (map k xs)" and "x \<in> set xs" and "k y = k x"
  shows "(\<Sum>z \<leftarrow> map (\<lambda>z. if k z = k x then y else z) xs. g z) + g x = (\<Sum>z \<leftarrow> xs. g z) + (g y :: nat)"
  using assms
proof (induction xs)
  case (Cons z zs)
  show ?case
  proof (cases "k z = k x")
    case True
    with Cons.prems have "z = x" by (auto simp: image_iff)
    moreover from True Cons.prems(1) have "map (\<lambda>z. if k z = k x then y else z) zs = zs"
      by (intro map_idI) (auto simp: image_iff)
    ultimately show ?thesis by (simp add: algebra_simps)
  next
    case False
    with Cons show ?thesis by (auto simp: algebra_simps)
  qed
qed simp


lemma account_changed_member:
  assumes "budget_ok s" and "account_changed H s s' b b'" and "x \<in> set (os_budgets s')"
  shows "x = b' \<or> (x \<in> set (os_budgets s) \<and> account_id x \<noteq> account_id b)"
  using assms by (auto simp: account_changed_def)

lemma account_changed_distinct:
  assumes "account_changed H s s' b b'"
  shows "map account_id (os_budgets s') = map account_id (os_budgets s)"
  using assms by (auto simp: account_changed_def)

lemma reserved_in_ok:
  assumes ok: "budget_ok s" and step: "reserved_in H s s'"
  shows "budget_ok s'"
proof -
  from step obtain b b' r where change: "account_changed H s s' b b'"
    and add: "amounts_lift checked_add (acc_reserved b) (br_reserved r) = Some (acc_reserved b')"
    and com: "acc_committed b' = acc_committed b"
    and r: "br_budget_id r = account_id b" "br_state r = BrReserved" "br_charged r = zero_amounts"
      "br_reservation_id r \<notin> br_reservation_id ` set (os_reservations s)"
    and rows: "os_reservations s' = os_reservations s @ [r]"
    by (auto simp: reserved_in_def)
  have held: "held f s' k = held f s k + (if k = account_id b then unat (f (br_reserved r)) else 0)" for f k
    using r by (auto simp: held_def rows is_open_def)
  have charges: "charges f s' k = charges f s k" if "f \<in> set amount_parts" for f k
    using r(3) that by (auto simp: charges_def rows amount_parts_def zero_amounts_def)
  from change have b: "b \<in> set (os_budgets s)" "account_id b' = account_id b"
    and valid: "is_ok (budget_account_validate H b')" by (auto simp: account_changed_def)
  have "account_ok s' b'"
    unfolding account_ok_def
  proof
    fix f assume f: "f \<in> set amount_parts"
    from ok b f have "unat (f (acc_reserved b)) = held f s (account_id b)"
      "unat (f (acc_committed b)) = charges f s (account_id b)" by (auto simp: budget_ok_def account_ok_def)
    with amounts_add_parts [OF add f] account_within_limits [OF valid f]
    show "unat (f (acc_reserved b')) = held f s' (account_id b')
        \<and> unat (f (acc_committed b')) = charges f s' (account_id b')
        \<and> held f s' (account_id b') + charges f s' (account_id b') \<le> unat (f (pol_limits (acc_policy b')))"
      by (simp add: held charges [OF f] b com)
  qed
  moreover have "account_ok s' x" if "x \<in> set (os_budgets s)" "account_id x \<noteq> account_id b" for x
    using ok that by (auto simp: budget_ok_def account_ok_def held charges)
  ultimately have "\<forall>x \<in> set (os_budgets s'). account_ok s' x"
    using account_changed_member [OF ok change] by blast
  with ok r(4) show ?thesis
    by (auto simp: budget_ok_def rows account_changed_distinct [OF change])
qed

lemma closed_in_ok:
  assumes ok: "budget_ok s" and step: "closed_in H s s'"
  shows "budget_ok s'"
proof -
  from step obtain b b' r r' where change: "account_changed H s s' b b'"
    and sub: "amounts_lift checked_sub (acc_reserved b) (br_reserved r) = Some (acc_reserved b')"
    and add: "amounts_lift checked_add (acc_committed b) (br_charged r') = Some (acc_committed b')"
    and r: "r \<in> set (os_reservations s)" "br_budget_id r = account_id b" "is_open r" "br_charged r = zero_amounts"
    and r': "br_reservation_id r' = br_reservation_id r" "br_budget_id r' = account_id b" "\<not> is_open r'"
    and rows: "os_reservations s' = map (\<lambda>x. if br_reservation_id x = br_reservation_id r then r' else x) (os_reservations s)"
    by (auto simp: closed_in_def)
  have dist: "distinct (map br_reservation_id (os_reservations s))" using ok by (simp add: budget_ok_def)
  note replace = sum_replace [OF dist r(1) r'(1), folded rows]
  have held: "held f s' k + (if k = account_id b then unat (f (br_reserved r)) else 0) = held f s k" for f k
    using replace [of "\<lambda>r. if br_budget_id r = k \<and> is_open r then unat (f (br_reserved r)) else 0"] r r'
    by (auto simp: held_def)
  have charges: "charges f s' k = charges f s k + (if k = account_id b then unat (f (br_charged r')) else 0)"
    if "f \<in> set amount_parts" for f k
  proof -
    have "f (br_charged r) = 0" using that r(4) by (auto simp: amount_parts_def zero_amounts_def)
    then show ?thesis
      using replace [of "\<lambda>r. if br_budget_id r = k then unat (f (br_charged r)) else 0"] r r'
      by (auto simp: charges_def split: if_splits)
  qed
  from change have b: "b \<in> set (os_budgets s)" "account_id b' = account_id b"
    and valid: "is_ok (budget_account_validate H b')" by (auto simp: account_changed_def)
  have "account_ok s' b'"
    unfolding account_ok_def
  proof
    fix f assume f: "f \<in> set amount_parts"
    from ok b f have "unat (f (acc_reserved b)) = held f s (account_id b)"
      "unat (f (acc_committed b)) = charges f s (account_id b)" by (auto simp: budget_ok_def account_ok_def)
    with amounts_sub_parts [OF sub f] amounts_add_parts [OF add f] account_within_limits [OF valid f]
      held [of f "account_id b"]
    show "unat (f (acc_reserved b')) = held f s' (account_id b')
        \<and> unat (f (acc_committed b')) = charges f s' (account_id b')
        \<and> held f s' (account_id b') + charges f s' (account_id b') \<le> unat (f (pol_limits (acc_policy b')))"
      by (simp add: charges [OF f] b)
  qed
  moreover have "account_ok s' x" if "x \<in> set (os_budgets s)" "account_id x \<noteq> account_id b" for x
    using ok that held [of _ "account_id x"] by (auto simp: budget_ok_def account_ok_def charges)
  ultimately have "\<forall>x \<in> set (os_budgets s'). account_ok s' x"
    using account_changed_member [OF ok change] by blast
  moreover have "map br_reservation_id (os_reservations s') = map br_reservation_id (os_reservations s)"
    using r'(1) by (auto simp: rows)
  ultimately show ?thesis
    using ok by (auto simp: budget_ok_def account_changed_distinct [OF change])
qed

lemma budget_ok_cong:
  assumes "budget_ok s" and "os_budgets s' = os_budgets s" and "os_reservations s' = os_reservations s"
  shows "budget_ok s'"
  using assms by (simp add: budget_ok_def account_ok_def held_def charges_def)

end
