(* ===== verification/OperatorDispatch.thy ===== *)
theory OperatorDispatch
  imports OperatorBudget
begin

text \<open>
  Dispatching a reserved call and forfeiting a dispatched one, \<open>begin_dispatch\<close>,
  \<open>apply_forfeit\<close> and \<open>settle_runtime_failure\<close> of
  \<^verbatim>\<open>crates/proof-storage/src/sqlite/operator_store.rs\<close>, with the replay claim of
  \<^verbatim>\<open>replay.rs\<close> beside it. A reservation is dispatched at most once; a dispatch whose
  result is unknown is charged in full.

  Two reads of the replay tables are arguments: \<open>verified\<close>, the completion that
  \<open>load_verified_replay\<close> finds for a binding, and \<open>outcome_ok\<close>, whether
  \<open>load_completed_outcome\<close> accepts a completed row.
\<close>

section \<open>Dispatching\<close>

definition dispatch_token_digest :: "host \<Rightarrow> string \<Rightarrow> ControlDigest" where
  "dispatch_token_digest H token = control_digest H ''Proof-Operator-Dispatch-Token-v1'' token"

record BeginDispatchRequest =
  bd_schema :: string
  bd_authority :: LeaseAuthority
  bd_reservation_id :: uuid
  bd_dispatch_token :: string
  bd_intent :: DispatchIntent
  bd_intent_digest :: ControlDigest
  bd_replay :: "ReplayClaimBinding option"
  bd_replay_claim_token :: "uuid option"
  bd_call_digest :: ControlDigest

datatype DispatchOutcome =
  DispatchAuthorized | ExactReplay | ReplayConflict | ReplayFailed | ReplayInProgress | ReplayUnsupported

record 'c DispatchResult =
  dr_schema :: string
  dr_outcome :: DispatchOutcome
  dr_permit :: "DispatchPermit option"
  dr_replay_completion :: "'c option"
  dr_control_revision :: u64

definition latest_agent_step :: "OperatorStore \<Rightarrow> uuid \<Rightarrow> AgentRunStep option" where
  "latest_agent_step s run =
     last_row (\<lambda>a b. step_ordinal a < step_ordinal b
         \<or> (step_ordinal a = step_ordinal b
            \<and> (step_attempt a < step_attempt b
               \<or> (step_attempt a = step_attempt b \<and> AgentRun.step_id a < AgentRun.step_id b))))
       (filter (\<lambda>x. step_run_id x = run) (os_steps s))"

definition load_latest_agent_step :: "OperatorStore \<Rightarrow> uuid \<Rightarrow> OperatorStoreError + AgentRunStep option" where
  "load_latest_agent_step s run =
     (case latest_agent_step s run of
        None \<Rightarrow> Inr None
      | Some step \<Rightarrow> bindR (load_agent_step_exact s (AgentRun.step_id step)) (\<lambda>x. Inr (Some x)))"

definition release_reservation :: "host \<Rightarrow> BudgetReservation \<Rightarrow> BudgetAccount \<Rightarrow> utc \<Rightarrow> OperatorStore
    \<Rightarrow> OperatorStoreError + BudgetReservation \<times> OperatorStore" where
  "release_reservation H r budget now s =
     bindR (invalid_if (br_state r \<noteq> BrReserved)) (\<lambda>_.
     bindR (subtract_amounts (acc_reserved budget) (br_reserved r)) (\<lambda>reserved.
     bindR (ok_or OsCorrupt (checked_add (acc_revision budget) 1)) (\<lambda>revision.
       let released = r\<lparr> br_state := BrReleased, br_settled_at := Some now \<rparr>
       in
     bindR (update_reservation H released s) (\<lambda>s1.
     bindR (update_budget H (budget\<lparr> acc_reserved := reserved, acc_revision := revision,
              acc_updated_at := now \<rparr>) s1) (\<lambda>s2.
       Inr (released, s2))))))"

text \<open>A reservation that turns out not to be dispatched: released, with its control revision,
  projection and audit event.\<close>

definition dispatch_released :: "host \<Rightarrow> OperatorEnv option \<Rightarrow> RunControl \<Rightarrow> RunLease \<Rightarrow> BudgetReservation
    \<Rightarrow> BudgetAccount \<Rightarrow> AuditEventKind \<Rightarrow> AuditOutcome \<Rightarrow> utc \<Rightarrow> OperatorStore
    \<Rightarrow> OperatorStoreError + u64 \<times> OperatorStore" where
  "dispatch_released H ctx control lease r budget kind outcome now s =
     bindR (release_reservation H r budget now s) (\<lambda>(released, s1).
       record_budget H ctx control lease released kind outcome now s1)"

datatype TransactionClaimResult = RcAcquired | RcConflict | RcFailed | RcInProgress | RcCompleted

definition load_replay :: "OperatorStore \<Rightarrow> ReplayClaimBinding \<Rightarrow> replay_row option" where
  "load_replay s b =
     find (\<lambda>y. ry_operation y = rb_operation b \<and> ry_version y = rb_version b
             \<and> ry_idempotency_key y = rb_idempotency_key b) (os_replays s)"

definition claim_execution_replay_in_transaction ::
    "(replay_row \<Rightarrow> OperatorStore \<Rightarrow> bool) \<Rightarrow> host \<Rightarrow> ReplayClaimBinding \<Rightarrow> uuid \<Rightarrow> utc \<Rightarrow> OperatorStore
      \<Rightarrow> OperatorStoreError + TransactionClaimResult \<times> OperatorStore" where
  "claim_execution_replay_in_transaction outcome_ok H b claim_token now s =
     (if host_uuid_version H (rb_idempotency_key b) \<noteq> 7 then Inl OsCorrupt
      else case load_replay s b of
        Some y \<Rightarrow>
          if ry_input_digest y \<noteq> rb_input_digest b then Inr (RcConflict, s)
          else (case ry_state y of
                  RyClaimed \<Rightarrow> Inr (RcInProgress, s)
                | RyFailed \<Rightarrow> Inr (RcFailed, s)
                | RyCompleted \<Rightarrow> if outcome_ok y s then Inr (RcCompleted, s) else Inl OsCorrupt)
      | None \<Rightarrow>
          if list_ex (\<lambda>y. ry_claim_token y = claim_token) (os_replays s) then Inl OsCorrupt
          else Inr (RcAcquired,
            s\<lparr> os_replays := os_replays s @
                 [\<lparr> ry_operation = rb_operation b, ry_version = rb_version b,
                    ry_idempotency_key = rb_idempotency_key b, ry_input_digest = rb_input_digest b,
                    ry_claim_token = claim_token, ry_claimed_by = rb_claimed_by b, ry_claimed_at = now,
                    ry_state = RyClaimed \<rparr>] \<rparr>))"

definition insert_replay_binding :: "host \<Rightarrow> ReplayClaimBinding \<Rightarrow> uuid \<Rightarrow> OperatorStore
    \<Rightarrow> OperatorStoreError + OperatorStore" where
  "insert_replay_binding H b reservation s =
     (if \<not> is_ok (replay_binding_validate H b) then Inl OsInvalid
      else if list_ex (\<lambda>(b', origin). (rb_operation b' = rb_operation b \<and> rb_version b' = rb_version b
               \<and> rb_idempotency_key b' = rb_idempotency_key b)
             \<or> (rb_run_id b' = rb_run_id b \<and> rb_step_id b' = rb_step_id b)
             \<or> origin = reservation \<or> rb_binding_digest b' = rb_binding_digest b) (os_bindings s)
         \<or> rb_claimed_by b \<notin> set (os_principals s)
      then Inl OsUnavailable
      else Inr (s\<lparr> os_bindings := os_bindings s @ [(b, reservation)] \<rparr>))"

definition dispatch_event :: "RunControl \<Rightarrow> RunLease \<Rightarrow> BudgetReservation \<Rightarrow> uuid \<Rightarrow> utc \<Rightarrow> AuditEvent" where
  "dispatch_event control lease r event now =
     (event_base (rc_workspace_id control) event AkDispatchAuthorized AoAccepted now)
       \<lparr> ae_run_id := Some (rc_run_id control), ae_server_instance_id := Some (rl_owner_instance_id lease),
         ae_budget_id := Some (rc_budget_id control), ae_reservation_id := Some (br_reservation_id r),
         ae_lease_id := Some (rl_lease_id lease), ae_process_epoch_id := Some (rl_process_epoch_id lease),
         ae_fence_epoch := Some (rl_fence_epoch lease), ae_permit_id := br_permit_id r,
         ae_intent_digest := Some (br_intent_digest r), ae_call_digest := br_call_digest r \<rparr>"

definition new_permit :: "host \<Rightarrow> BeginDispatchRequest \<Rightarrow> RunControl \<Rightarrow> RunLease \<Rightarrow> BudgetReservation
    \<Rightarrow> BudgetAccount \<Rightarrow> uuid \<Rightarrow> utc \<Rightarrow> DispatchPermit" where
  "new_permit H q control lease r budget permit now =
     \<lparr> dp_schema = ''proof.operator.dispatch-permit/v1'', dp_permit_id = permit,
       dp_run_id = rc_run_id control, dp_reservation_id = br_reservation_id r,
       dp_lease_id = rl_lease_id lease, dp_process_epoch_id = rl_process_epoch_id lease,
       dp_fence_epoch = rl_fence_epoch lease, dp_expected_control_revision = rc_control_revision control,
       dp_intent_digest = br_intent_digest r,
       dp_replay_binding_digest = map_option rb_binding_digest (br_replay r),
       dp_dispatch_token_digest = dispatch_token_digest H (bd_dispatch_token q),
       dp_call_digest = bd_call_digest q, dp_authorized_at = now,
       dp_budget_deadline_at = pol_deadline_at (acc_policy budget) \<rparr>"

definition dispatch_authorize :: "host \<Rightarrow> OperatorEnv option \<Rightarrow> BeginDispatchRequest \<Rightarrow> RunControl \<Rightarrow> RunLease
    \<Rightarrow> BudgetReservation \<Rightarrow> BudgetAccount \<Rightarrow> utc \<Rightarrow> OperatorStore
    \<Rightarrow> OperatorStoreError + (OperatorStoreError + 'c DispatchResult) \<times> OperatorStore" where
  "dispatch_authorize H ctx q control lease r budget now s =
     bindR (operator_uuid ctx 0) (\<lambda>permit_id.
       let permit = new_permit H q control lease r budget permit_id now
       in if \<not> is_ok (dispatch_permit_validate H permit) then Inl OsInvalid
          else
       let dispatching = r\<lparr> br_state := BrDispatching, br_permit_id := Some permit_id,
                            br_dispatch_token_digest := Some (dispatch_token_digest H (bd_dispatch_token q)),
                            br_call_digest := Some (bd_call_digest q), br_dispatch_started_at := Some now \<rparr>
       in
     bindR (update_reservation H dispatching s) (\<lambda>s1.
     bindR (bump_control H (control\<lparr> rc_active_dispatch_reservation_id := Some (br_reservation_id r) \<rparr>) now) (\<lambda>control1.
     bindR (update_run_control H control1 s1) (\<lambda>s2.
     bindR (append_current_projection H ctx 1 control1 (rl_fence_epoch lease) now s2) (\<lambda>s3.
     bindR (operator_uuid ctx 2) (\<lambda>event.
     bindR (append_audit_event H (dispatch_event control1 lease dispatching event now) s3) (\<lambda>s4.
       Inr (Inr \<lparr> dr_schema = ''proof.operator.dispatch-result/v1'', dr_outcome = DispatchAuthorized,
                  dr_permit = Some permit, dr_replay_completion = None,
                  dr_control_revision = rc_control_revision control1 \<rparr>, s4))))))))"

definition dispatch_exact_replay :: "host \<Rightarrow> OperatorEnv option \<Rightarrow> RunControl \<Rightarrow> RunLease \<Rightarrow> BudgetReservation
    \<Rightarrow> BudgetAccount \<Rightarrow> 'c option \<Rightarrow> utc \<Rightarrow> OperatorStore
    \<Rightarrow> OperatorStoreError + (OperatorStoreError + 'c DispatchResult) \<times> OperatorStore" where
  "dispatch_exact_replay H ctx control lease r budget completion now s =
     bindR (dispatch_released H ctx control lease r budget AkBudgetReleased AoAccepted now s) (\<lambda>(revision, s1).
       Inr (Inr \<lparr> dr_schema = ''proof.operator.dispatch-result/v1'', dr_outcome = ExactReplay,
                  dr_permit = None, dr_replay_completion = completion, dr_control_revision = revision \<rparr>, s1))"

definition dispatch_replay_refused :: "host \<Rightarrow> OperatorEnv option \<Rightarrow> RunControl \<Rightarrow> RunLease \<Rightarrow> BudgetReservation
    \<Rightarrow> BudgetAccount \<Rightarrow> DispatchOutcome \<Rightarrow> utc \<Rightarrow> OperatorStore
    \<Rightarrow> OperatorStoreError + (OperatorStoreError + 'c DispatchResult) \<times> OperatorStore" where
  "dispatch_replay_refused H ctx control lease r budget outcome now s =
     bindR (dispatch_released H ctx control lease r budget AkBudgetRejected AoRejected now s) (\<lambda>(revision, s1).
       Inr (Inr \<lparr> dr_schema = ''proof.operator.dispatch-result/v1'', dr_outcome = outcome,
                  dr_permit = None, dr_replay_completion = None, dr_control_revision = revision \<rparr>, s1))"

text \<open>The claim of a replayable tool call, after the deadline check.\<close>

definition dispatch_claimed :: "(ReplayClaimBinding \<Rightarrow> OperatorStore \<Rightarrow> OperatorStoreError + 'c option)
    \<Rightarrow> (replay_row \<Rightarrow> OperatorStore \<Rightarrow> bool) \<Rightarrow> host \<Rightarrow> OperatorEnv option \<Rightarrow> BeginDispatchRequest \<Rightarrow> RunControl
    \<Rightarrow> RunLease \<Rightarrow> BudgetReservation \<Rightarrow> BudgetAccount \<Rightarrow> utc \<Rightarrow> OperatorStore
    \<Rightarrow> OperatorStoreError + (OperatorStoreError + 'c DispatchResult) \<times> OperatorStore" where
  "dispatch_claimed verified outcome_ok H ctx q control lease r budget now s =
     (case bd_replay q of
        None \<Rightarrow> dispatch_authorize H ctx q control lease r budget now s
      | Some b \<Rightarrow>
          bindR (ok_or OsInvalid (bd_replay_claim_token q)) (\<lambda>claim_token.
          bindR (claim_execution_replay_in_transaction outcome_ok H b claim_token now s) (\<lambda>(claim, s1).
            case claim of
              RcAcquired \<Rightarrow>
                bindR (insert_replay_binding H b (br_reservation_id r) s1) (\<lambda>s2.
                  dispatch_authorize H ctx q control lease r budget now s2)
            | RcCompleted \<Rightarrow>
                bindR (verified b s1) (\<lambda>completion.
                  dispatch_exact_replay H ctx control lease r budget completion now s1)
            | RcConflict \<Rightarrow> dispatch_replay_refused H ctx control lease r budget ReplayConflict now s1
            | RcFailed \<Rightarrow> dispatch_replay_refused H ctx control lease r budget ReplayFailed now s1
            | RcInProgress \<Rightarrow> dispatch_replay_refused H ctx control lease r budget ReplayInProgress now s1)))"

definition dispatch_deadline :: "(ReplayClaimBinding \<Rightarrow> OperatorStore \<Rightarrow> OperatorStoreError + 'c option)
    \<Rightarrow> (replay_row \<Rightarrow> OperatorStore \<Rightarrow> bool) \<Rightarrow> host \<Rightarrow> OperatorEnv option \<Rightarrow> BeginDispatchRequest \<Rightarrow> RunControl
    \<Rightarrow> RunLease \<Rightarrow> BudgetReservation \<Rightarrow> BudgetAccount \<Rightarrow> utc \<Rightarrow> OperatorStore
    \<Rightarrow> OperatorStoreError + (OperatorStoreError + 'c DispatchResult) \<times> OperatorStore" where
  "dispatch_deadline verified outcome_ok H ctx q control lease r budget now s =
     (if now \<ge> pol_deadline_at (acc_policy budget) then
        bindR (dispatch_released H ctx control lease r budget AkBudgetRejected AoRejected now s)
          (\<lambda>(revision, s1). Inr (Inl OsNotActionable, s1))
      else dispatch_claimed verified outcome_ok H ctx q control lease r budget now s)"

text \<open>The conditions under which a reserved call may leave: the run, its projection, checkpoint
  and step are the ones the reservation was made for.\<close>

definition dispatch_actionable :: "OperatorEnv \<Rightarrow> OperatorStore \<Rightarrow> BeginDispatchRequest \<Rightarrow> RunControl \<Rightarrow> RunLease
    \<Rightarrow> AgentRun \<Rightarrow> RunProjection \<Rightarrow> uuid \<times> u64 \<times> ContentDigest \<Rightarrow> AgentRunStep \<Rightarrow> bool" where
  "dispatch_actionable env s q control lease run projection checkpoint step =
     (length (filter (\<lambda>x. br_run_id x = rc_run_id control \<and> is_open x) (os_reservations s)) = 1
      \<and> rc_active_dispatch_reservation_id control = None \<and> run_status run = RunRunning
      \<and> rp_source_run_revision projection = run_revision run
      \<and> rp_source_control_revision projection = rc_control_revision control
      \<and> rp_fence_epoch projection = rl_fence_epoch lease \<and> rp_attention projection = AtRunning
      \<and> checkpoint = (rp_checkpoint_id projection, rp_checkpoint_sequence projection, rp_checkpoint_digest projection)
      \<and> step_run_id step = AgentRun.run_id run \<and> step_status step = StepRunning
      \<and> step_operation step = di_operation (bd_intent q) \<and> step_version step = di_version (bd_intent q)
      \<and> (di_operation (bd_intent q), di_version (bd_intent q)) \<in> set (env_catalog env))"

definition begin_dispatch_body :: "(ReplayClaimBinding \<Rightarrow> OperatorStore \<Rightarrow> OperatorStoreError + 'c option)
    \<Rightarrow> (replay_row \<Rightarrow> OperatorStore \<Rightarrow> bool) \<Rightarrow> host \<Rightarrow> OperatorEnv option \<Rightarrow> BeginDispatchRequest \<Rightarrow> OperatorStore
    \<Rightarrow> OperatorStoreError + (OperatorStoreError + 'c DispatchResult) \<times> OperatorStore" where
  "begin_dispatch_body verified outcome_ok H ctx q s =
     bindR (ok_or OsUnavailable ctx) (\<lambda>env.
     bindR (invalid_if (bd_schema q \<noteq> ''proof.operator.begin-dispatch-request/v1''
         \<or> \<not> uuid_is_v7 H (bd_reservation_id q) \<or> \<not> is_ok (dispatch_intent_validate (bd_intent q))
         \<or> digest_record H ''Proof-Operator-Dispatch-Intent-v1'' (dispatch_intent_fields (bd_intent q))
             \<noteq> Some (bd_intent_digest q)
         \<or> digest_record H ''Proof-Operator-Dispatch-Call-v1'' (dispatch_intent_fields (bd_intent q))
             \<noteq> Some (bd_call_digest q))) (\<lambda>_.
     bindR (operator_now ctx) (\<lambda>now.
     bindR (validate_authority H s (bd_authority q) now) (\<lambda>(control, lease).
     bindR (load_reservation H s (bd_reservation_id q)) (\<lambda>r.
       if br_state r \<noteq> BrReserved \<or> br_run_id r \<noteq> rc_run_id control \<or> br_lease_id r \<noteq> rl_lease_id lease
          \<or> br_fence_epoch r \<noteq> rl_fence_epoch lease \<or> br_intent r \<noteq> bd_intent q
          \<or> br_intent_digest r \<noteq> bd_intent_digest q \<or> br_replay r \<noteq> bd_replay q
       then Inl OsNotActionable
       else
     bindR (load_budget H s (br_budget_id r)) (\<lambda>budget.
     bindR (load_agent_run_exact s (rc_run_id control)) (\<lambda>run.
     bindR (ok_or OsUnavailable (latest_projection s (rc_run_id control))) (\<lambda>projection.
     bindR (load_latest_checkpoint_identity s (rc_run_id control)) (\<lambda>checkpoint.
     bindR (case bd_replay q of
              Some b \<Rightarrow> load_agent_step_exact s (rb_step_id b)
            | None \<Rightarrow> bindR (load_latest_agent_step s (rc_run_id control)) (ok_or OsNotActionable)) (\<lambda>step.
       if \<not> dispatch_actionable env s q control lease run projection checkpoint step then Inl OsNotActionable
       else case bd_replay q of
         None \<Rightarrow>
           if bd_replay_claim_token q \<noteq> None then Inl OsInvalid
           else dispatch_deadline verified outcome_ok H ctx q control lease r budget now s
       | Some b \<Rightarrow>
           if rb_workspace_id b \<noteq> rc_workspace_id control \<or> rb_run_id b \<noteq> AgentRun.run_id run
              \<or> rb_step_id b \<noteq> AgentRun.step_id step
              \<or> (rb_checkpoint_id b, rb_checkpoint_sequence b, rb_checkpoint_digest b) \<noteq> checkpoint
              \<or> rb_input_digest b \<noteq> step_input_digest step \<or> rb_claimed_by b \<noteq> run_actor run
              \<or> bd_replay_claim_token q = None
           then Inl OsInvalid
           else
         bindR (verified b s) (\<lambda>completed.
           case completed of
             Some completion \<Rightarrow> dispatch_exact_replay H ctx control lease r budget (Some completion) now s
           | None \<Rightarrow> dispatch_deadline verified outcome_ok H ctx q control lease r budget now s)))))))))))"

definition begin_dispatch :: "(ReplayClaimBinding \<Rightarrow> OperatorStore \<Rightarrow> OperatorStoreError + 'c option)
    \<Rightarrow> (replay_row \<Rightarrow> OperatorStore \<Rightarrow> bool) \<Rightarrow> host \<Rightarrow> OperatorEnv option \<Rightarrow> BeginDispatchRequest \<Rightarrow> OperatorStore
    \<Rightarrow> (OperatorStoreError + 'c DispatchResult) \<times> OperatorStore" where
  "begin_dispatch verified outcome_ok H ctx q s =
     settle_result (transact s (begin_dispatch_body verified outcome_ok H ctx q s))"

section \<open>Forfeiting\<close>

datatype RuntimeFailureCode = DispatchAmbiguous | HandlerFailure | ProcessShutdown | ResultInvalid

fun failure_code_text :: "RuntimeFailureCode \<Rightarrow> string" where
  "failure_code_text DispatchAmbiguous = ''dispatch_ambiguous''"
| "failure_code_text HandlerFailure = ''handler_failed''"
| "failure_code_text ProcessShutdown = ''process_shutdown''"
| "failure_code_text ResultInvalid = ''result_invalid''"

text \<open>The field \<open>classification\<close> has one value, which every body carries.\<close>

record RuntimeFailureBody =
  fb_schema :: string
  fb_reservation_id :: uuid
  fb_permit_id :: uuid
  fb_failure_code :: RuntimeFailureCode
  fb_intent_digest :: ControlDigest
  fb_call_digest :: ControlDigest

definition failure_body_fields :: "host \<Rightarrow> RuntimeFailureBody \<Rightarrow> wire_fields" where
  "failure_body_fields H f =
     [(''schema'', text_value (fb_schema f)), (''reservation_id'', strict_uuid_v7 H (fb_reservation_id f)),
      (''permit_id'', strict_uuid_v7 H (fb_permit_id f)),
      (''classification'', text_value ''ambiguous_forfeit_required''),
      (''failure_code'', text_value (failure_code_text (fb_failure_code f))),
      (''intent_digest'', control_value (fb_intent_digest f)),
      (''call_digest'', control_value (fb_call_digest f))]"

record RuntimeFailureRequest =
  ff_schema :: string
  ff_authority :: LeaseAuthority
  ff_permit :: DispatchPermit
  ff_dispatch_token :: string
  ff_failure :: RuntimeFailureBody
  ff_error_digest :: ControlDigest

record RuntimeFailureResult =
  fr_schema :: string
  fr_run_revision :: u64
  fr_control_revision :: u64
  fr_budget_revision :: u64
  fr_directive :: "RecoveryDirective option"

definition failure_result_validate :: "RuntimeFailureResult \<Rightarrow> OperatorStoreError + unit" where
  "failure_result_validate x =
     (if fr_schema x \<noteq> ''proof.operator.runtime-failure-result/v1''
         \<or> list_ex (\<lambda>v. v > MAX_SAFE_INTEGER) [fr_run_revision x, fr_control_revision x, fr_budget_revision x]
         \<or> fr_directive x \<noteq> None
      then Inl OsInvalid else Inr ())"

definition update_agent_run_exact :: "AgentRun \<Rightarrow> u64 \<Rightarrow> OperatorStore \<Rightarrow> OperatorStoreError + OperatorStore" where
  "update_agent_run_exact run previous s =
     bindR (invalid_if (run_revision run > MAX_SAFE_INTEGER \<or> previous > MAX_SAFE_INTEGER)) (\<lambda>_.
       if \<not> list_ex (\<lambda>x. AgentRun.run_id x = AgentRun.run_id run \<and> run_revision x = previous) (os_runs s)
       then Inl OsStaleRevision
       else Inr (s\<lparr> os_runs := map (\<lambda>x. if AgentRun.run_id x = AgentRun.run_id run \<and> run_revision x = previous
                                      then run else x) (os_runs s) \<rparr>))"

definition update_agent_step_exact :: "AgentRunStep \<Rightarrow> u64 \<Rightarrow> OperatorStore \<Rightarrow> OperatorStoreError + OperatorStore" where
  "update_agent_step_exact step previous s =
     bindR (invalid_if (step_revision step > MAX_SAFE_INTEGER \<or> previous > MAX_SAFE_INTEGER)) (\<lambda>_.
       if \<not> list_ex (\<lambda>x. AgentRun.step_id x = AgentRun.step_id step \<and> step_revision x = previous) (os_steps s)
       then Inl OsStaleRevision
       else Inr (s\<lparr> os_steps := map (\<lambda>x. if AgentRun.step_id x = AgentRun.step_id step \<and> step_revision x = previous
                                       then step else x) (os_steps s) \<rparr>))"

definition validate_permit_reservation :: "host \<Rightarrow> BudgetReservation \<Rightarrow> DispatchPermit \<Rightarrow> OperatorStoreError + unit" where
  "validate_permit_reservation H r p =
     (if \<not> is_ok (dispatch_permit_validate H p) then Inl OsInvalid
      else invalid_if (br_reservation_id r \<noteq> dp_reservation_id p \<or> br_run_id r \<noteq> dp_run_id p
             \<or> br_lease_id r \<noteq> dp_lease_id p \<or> br_fence_epoch r \<noteq> dp_fence_epoch p
             \<or> br_permit_id r \<noteq> Some (dp_permit_id p)
             \<or> br_dispatch_token_digest r \<noteq> Some (dp_dispatch_token_digest p)
             \<or> br_intent_digest r \<noteq> dp_intent_digest p
             \<or> map_option rb_binding_digest (br_replay r) \<noteq> dp_replay_binding_digest p
             \<or> br_call_digest r \<noteq> Some (dp_call_digest p)
             \<or> br_dispatch_started_at r \<noteq> Some (dp_authorized_at p)))"

definition mark_bound_replay_failed :: "ReplayClaimBinding option \<Rightarrow> OperatorStore
    \<Rightarrow> OperatorStoreError + OperatorStore" where
  "mark_bound_replay_failed binding s =
     (case binding of
        None \<Rightarrow> Inr s
      | Some b \<Rightarrow>
          bindR (ok_or OsCorrupt (load_replay s b)) (\<lambda>y.
            if ry_input_digest y \<noteq> rb_input_digest b \<or> ry_claimed_by y \<noteq> rb_claimed_by b then Inl OsCorrupt
            else case ry_state y of
              RyClaimed \<Rightarrow>
                Inr (s\<lparr> os_replays := map (\<lambda>x.
                  if ry_operation x = rb_operation b \<and> ry_version x = rb_version b
                     \<and> ry_idempotency_key x = rb_idempotency_key b \<and> ry_state x = RyClaimed
                     \<and> ry_input_digest x = rb_input_digest b
                  then x\<lparr> ry_state := RyFailed \<rparr> else x) (os_replays s) \<rparr>)
            | RyFailed \<Rightarrow> Inr s
            | RyCompleted \<Rightarrow> Inl OsCorrupt))"

definition forfeit_event :: "RunControl \<Rightarrow> RunLease \<Rightarrow> BudgetReservation \<Rightarrow> uuid \<Rightarrow> utc \<Rightarrow> AuditEvent" where
  "forfeit_event control lease r event now =
     (event_base (rc_workspace_id control) event AkBudgetForfeited AoFailed now)
       \<lparr> ae_run_id := Some (rc_run_id control), ae_budget_id := Some (rc_budget_id control),
         ae_reservation_id := Some (br_reservation_id r), ae_lease_id := Some (rl_lease_id lease),
         ae_permit_id := br_permit_id r, ae_fence_epoch := Some (rl_fence_epoch lease),
         ae_intent_digest := Some (br_intent_digest r), ae_call_digest := br_call_digest r \<rparr>"

definition failure_event :: "RunControl \<Rightarrow> RunLease \<Rightarrow> BudgetReservation \<Rightarrow> uuid \<Rightarrow> utc \<Rightarrow> AuditEvent" where
  "failure_event control lease r event now =
     (event_base (rc_workspace_id control) event AkControlFailure AoFailed now)
       \<lparr> ae_server_instance_id := Some (rl_owner_instance_id lease), ae_run_id := Some (rc_run_id control),
         ae_budget_id := Some (rc_budget_id control), ae_reservation_id := Some (br_reservation_id r),
         ae_lease_id := Some (rl_lease_id lease), ae_process_epoch_id := Some (rl_process_epoch_id lease),
         ae_permit_id := br_permit_id r, ae_fence_epoch := Some (rl_fence_epoch lease),
         ae_intent_digest := Some (br_intent_digest r), ae_call_digest := br_call_digest r,
         ae_failure_scope := Some AfRuntime \<rparr>"

definition append_forfeit_events :: "host \<Rightarrow> OperatorEnv option \<Rightarrow> RunControl \<Rightarrow> RunLease \<Rightarrow> BudgetReservation
    \<Rightarrow> utc \<Rightarrow> OperatorStore \<Rightarrow> OperatorStoreError + OperatorStore" where
  "append_forfeit_events H ctx control lease r now s =
     bindR (operator_uuid ctx 1) (\<lambda>event.
     bindR (append_audit_event H (forfeit_event control lease r event now) s) (\<lambda>s1.
     bindR (operator_uuid ctx 2) (\<lambda>failure.
       append_audit_event H (failure_event control lease r failure now) s1)))"

definition fail_run :: "uuid \<Rightarrow> utc \<Rightarrow> OperatorStore \<Rightarrow> OperatorStoreError + AgentRun \<times> OperatorStore" where
  "fail_run run_key now s =
     bindR (load_agent_run_exact s run_key) (\<lambda>run.
       if run_status_is_terminal (run_status run) then Inr (run, s)
       else bindR (map_err (\<lambda>_. OsCorrupt) (run_fail run now)) (\<lambda>failed.
            bindR (update_agent_run_exact failed (run_revision run) s) (\<lambda>s1. Inr (failed, s1))))"

definition fail_latest_step :: "uuid \<Rightarrow> utc \<Rightarrow> OperatorStore \<Rightarrow> OperatorStoreError + OperatorStore" where
  "fail_latest_step run_key now s =
     bindR (load_latest_agent_step s run_key) (\<lambda>latest.
       case latest of
         None \<Rightarrow> Inr s
       | Some step \<Rightarrow>
           if step_status_is_terminal (step_status step) then Inr s
           else bindR (map_err (\<lambda>_. OsCorrupt) (step_fail step ''governed runtime settlement failed'' now)) (\<lambda>failed.
                  update_agent_step_exact failed (step_revision step) s))"

definition apply_forfeit :: "host \<Rightarrow> OperatorEnv option \<Rightarrow> RunControl \<Rightarrow> RunLease \<Rightarrow> BudgetReservation \<Rightarrow> utc
    \<Rightarrow> OperatorStore \<Rightarrow> OperatorStoreError + (AgentRun \<times> BudgetAccount \<times> RunControl) \<times> OperatorStore" where
  "apply_forfeit H ctx control lease r now s =
     bindR (load_budget H s (br_budget_id r)) (\<lambda>budget.
     bindR (subtract_amounts (acc_reserved budget) (br_reserved r)) (\<lambda>reserved.
     bindR (add_amounts (acc_committed budget) (br_reserved r)) (\<lambda>committed.
     bindR (safe_increment (acc_revision budget)) (\<lambda>revision.
       let budget1 = budget\<lparr> acc_reserved := reserved, acc_committed := committed, acc_revision := revision,
                             acc_updated_at := now \<rparr>;
           r1 = r\<lparr> br_state := BrForfeited, br_charged := br_reserved r, br_settled_at := Some now \<rparr>
       in
     bindR (update_budget H budget1 s) (\<lambda>s1.
     bindR (update_reservation H r1 s1) (\<lambda>s2.
     bindR (mark_bound_replay_failed (br_replay r1) s2) (\<lambda>s3.
     bindR (fail_run (rc_run_id control) now s3) (\<lambda>(run, s4).
     bindR (fail_latest_step (rc_run_id control) now s4) (\<lambda>s5.
     bindR (bump_control H (control\<lparr> rc_active_dispatch_reservation_id := None \<rparr>) now) (\<lambda>control1.
     bindR (update_run_control H control1 s5) (\<lambda>s6.
     bindR (append_current_projection H ctx 0 control1 (rl_fence_epoch lease) now s6) (\<lambda>s7.
     bindR (append_forfeit_events H ctx control1 lease r1 now s7) (\<lambda>s8.
       Inr ((run, budget1, control1), s8))))))))))))))"

text \<open>The dispatched reservation that a permit names, if the token is the one it was dispatched
  with.\<close>

definition permitted_reservation :: "host \<Rightarrow> DispatchPermit \<Rightarrow> string \<Rightarrow> OperatorStore
    \<Rightarrow> OperatorStoreError + BudgetReservation" where
  "permitted_reservation H p token s =
     bindR (ok_or OsStaleFence (find (\<lambda>x. br_reservation_id x = dp_reservation_id p
                                       \<and> br_permit_id x = Some (dp_permit_id p)) (os_reservations s))) (\<lambda>row.
     bindR (ok_or OsUnavailable (br_dispatch_token_digest row)) (\<lambda>stored.
       if dispatch_token_digest H token \<noteq> stored then Inl OsStaleFence
       else
     bindR (load_reservation H s (dp_reservation_id p)) (\<lambda>r.
     bindR (validate_permit_reservation H r p) (\<lambda>_. Inr r))))"

definition forfeit_dispatching :: "host \<Rightarrow> OperatorEnv option \<Rightarrow> LeaseAuthority \<Rightarrow> DispatchPermit \<Rightarrow> BudgetReservation
    \<Rightarrow> OperatorStore \<Rightarrow> OperatorStoreError + (AgentRun \<times> BudgetAccount \<times> RunControl) \<times> OperatorStore" where
  "forfeit_dispatching H ctx a p r s =
     (if br_state r \<noteq> BrDispatching then Inl OsNotActionable
      else
     bindR (operator_now ctx) (\<lambda>now.
     bindR (validate_authority H s a now) (\<lambda>(control, lease).
     bindR (ok_or OsCorrupt (checked_add (dp_expected_control_revision p) 1)) (\<lambda>expected.
     bindR (invalid_if (rc_active_dispatch_reservation_id control \<noteq> Some (br_reservation_id r)
              \<or> rc_control_revision control \<noteq> expected)) (\<lambda>_.
       apply_forfeit H ctx control lease r now s)))))"

definition forfeit_failure_body :: "host \<Rightarrow> OperatorEnv option \<Rightarrow> RuntimeFailureRequest \<Rightarrow> OperatorStore
    \<Rightarrow> OperatorStoreError + (OperatorStoreError + RuntimeFailureResult) \<times> OperatorStore" where
  "forfeit_failure_body H ctx q s =
     bindR (invalid_if (ff_schema q \<noteq> ''proof.operator.runtime-failure-request/v1''
         \<or> fb_schema (ff_failure q) \<noteq> ''proof.operator.runtime-failure-body/v1''
         \<or> fb_reservation_id (ff_failure q) \<noteq> dp_reservation_id (ff_permit q)
         \<or> fb_permit_id (ff_failure q) \<noteq> dp_permit_id (ff_permit q)
         \<or> fb_intent_digest (ff_failure q) \<noteq> dp_intent_digest (ff_permit q)
         \<or> fb_call_digest (ff_failure q) \<noteq> dp_call_digest (ff_permit q)
         \<or> digest_record H ''Proof-Operator-Runtime-Failure-v1'' (failure_body_fields H (ff_failure q))
             \<noteq> Some (ff_error_digest q))) (\<lambda>_.
     bindR (permitted_reservation H (ff_permit q) (ff_dispatch_token q) s) (\<lambda>r.
       if br_state r = BrForfeited then
         bindR (load_agent_run_exact s (br_run_id r)) (\<lambda>run.
         bindR (load_budget H s (br_budget_id r)) (\<lambda>budget.
         bindR (load_control H s (br_run_id r)) (\<lambda>control.
           Inr (Inr \<lparr> fr_schema = ''proof.operator.runtime-failure-result/v1'', fr_run_revision = run_revision run,
                      fr_control_revision = rc_control_revision control, fr_budget_revision = acc_revision budget,
                      fr_directive = None \<rparr>, s))))
       else
         bindR (forfeit_dispatching H ctx (ff_authority q) (ff_permit q) r s) (\<lambda>((run, budget, control), s1).
           let result = \<lparr> fr_schema = ''proof.operator.runtime-failure-result/v1'', fr_run_revision = run_revision run,
                          fr_control_revision = rc_control_revision control, fr_budget_revision = acc_revision budget,
                          fr_directive = None \<rparr>
           in Inr (bindR (failure_result_validate result) (\<lambda>_. Inr result), s1))))"

definition settle_runtime_failure :: "host \<Rightarrow> OperatorEnv option \<Rightarrow> RuntimeFailureRequest \<Rightarrow> OperatorStore
    \<Rightarrow> (OperatorStoreError + RuntimeFailureResult) \<times> OperatorStore" where
  "settle_runtime_failure H ctx q s = settle_result (transact s (forfeit_failure_body H ctx q s))"

text \<open>A runtime commit whose prepared result does not match its dispatch forfeits the call: it
  changes the store and returns an error. The other commits are not modelled.\<close>

definition forfeit_commit :: "host \<Rightarrow> OperatorEnv option \<Rightarrow> string \<Rightarrow> LeaseAuthority \<Rightarrow> DispatchPermit \<Rightarrow> string
    \<Rightarrow> OperatorStore \<Rightarrow> (OperatorStoreError + unit) \<times> OperatorStore" where
  "forfeit_commit H ctx schema a p token s =
     settle_result (transact s (
       bindR (invalid_if (schema \<noteq> ''proof.operator.runtime-commit-request/v1'')) (\<lambda>_.
       bindR (permitted_reservation H p token s) (\<lambda>r.
       bindR (forfeit_dispatching H ctx a p r s) (\<lambda>(_, s1). Inr (Inl OsNotActionable, s1))))))"

section \<open>What dispatching and forfeiting change\<close>

text \<open>An open reservation is replaced by one that is still open and holds the same amounts.\<close>

definition dispatched_in :: "uuid \<Rightarrow> OperatorStore \<Rightarrow> OperatorStore \<Rightarrow> bool" where
  "dispatched_in k s s' \<longleftrightarrow> os_budgets s' = os_budgets s
     \<and> (\<exists>r r'. r \<in> set (os_reservations s) \<and> br_reservation_id r = k \<and> br_state r = BrReserved
       \<and> br_state r' = BrDispatching
       \<and> br_reservation_id r' = br_reservation_id r \<and> br_budget_id r' = br_budget_id r
       \<and> br_reserved r' = br_reserved r \<and> br_charged r' = br_charged r
       \<and> os_reservations s' = map (\<lambda>x. if br_reservation_id x = br_reservation_id r then r' else x) (os_reservations s))"

definition reservations_step :: "host \<Rightarrow> OperatorStore \<Rightarrow> OperatorStore \<Rightarrow> bool" where
  "reservations_step H s s' \<longleftrightarrow>
     (os_reservations s' = os_reservations s \<and> os_budgets s' = os_budgets s)
     \<or> reserved_in H s s' \<or> closed_in H s s' \<or> (\<exists>k. dispatched_in k s s')"

lemma closed_inI:
  assumes "load_budget H s (br_budget_id r) = Inr b" and "load_reservation H s k = Inr r" and "is_open r"
    and "br_reservation_id r' = br_reservation_id r" and "br_budget_id r' = br_budget_id r" and "\<not> is_open r'"
    and "amounts_lift checked_sub (acc_reserved b) (br_reserved r) = Some (acc_reserved b')"
    and "amounts_lift checked_add (acc_committed b) (br_charged r') = Some (acc_committed b')"
    and "acc_policy b' = acc_policy b" and "is_ok (budget_account_validate H b')"
    and "os_budgets s' = map (\<lambda>x. if account_id x = account_id b then b' else x) (os_budgets s)"
    and "os_reservations s' = map (\<lambda>x. if br_reservation_id x = br_reservation_id r then r' else x) (os_reservations s)"
  shows "closed_in H s s'"
proof -
  have "is_ok (budget_reservation_validate H r)"
    using assms(2) by (auto simp: load_reservation_def bindR_eq_Inr split: if_splits)
  then have "br_charged r = zero_amounts" using assms(3) by (simp add: open_uncharged)
  with assms load_budget_Inr [OF assms(1)] load_reservation_Inr [OF assms(2)] show ?thesis
    unfolding closed_in_def account_changed_def
    by (intro exI [of _ b] exI [of _ b'] exI [of _ r] exI [of _ r']) simp
qed

lemma dispatch_released_Inr:
  assumes run: "dispatch_released H ctx control lease r budget kind outcome now s = Inr (revision, s')"
    and budget: "load_budget H s (br_budget_id r) = Inr budget" and load: "load_reservation H s k = Inr r"
    and reserved: "br_state r = BrReserved"
  shows "closed_in H s s'" and "os_leases s' = os_leases s" and "audit_ok H base s \<Longrightarrow> audit_ok H base s'"
proof -
  let ?r = "r\<lparr> br_state := BrReleased, br_settled_at := Some now \<rparr>"
  from run obtain reserved next_revision s1 s2 where
    sub: "subtract_amounts (acc_reserved budget) (br_reserved r) = Inr reserved"
    and s1: "update_reservation H ?r s = Inr s1"
    and s2: "update_budget H (budget\<lparr> acc_reserved := reserved, acc_revision := next_revision,
              acc_updated_at := now \<rparr>) s1 = Inr s2"
    and rec: "record_budget H ctx control lease ?r kind outcome now s2 = Inr (revision, s')"
    by (auto simp: dispatch_released_def release_reservation_def bindR_eq_Inr Let_def)
  note s1 = update_reservation_Inr [OF s1] and s2 = update_budget_Inr [OF s2] and frame = record_budget_Inr [OF rec]
  have "is_ok (budget_reservation_validate H r)"
    using load by (auto simp: load_reservation_def bindR_eq_Inr split: if_splits)
  with reserved have zero: "br_charged r = zero_amounts" by (simp add: open_uncharged is_open_def)
  show "closed_in H s s'"
    by (rule closed_inI [OF budget load, where r' = ?r
        and b' = "budget\<lparr> acc_reserved := reserved, acc_revision := next_revision, acc_updated_at := now \<rparr>"])
      (use sub s1 s2 frame reserved zero in \<open>simp_all add: subtract_amounts_def is_open_def amounts_add_zero\<close>)
  show "os_leases s' = os_leases s" using s1 s2 frame by simp
  show "audit_ok H base s'" if "audit_ok H base s" using frame(4) audit_ok_cong [OF that, of s2] s1 s2 by simp
qed

lemma dispatch_authorize_Inr:
  assumes run: "dispatch_authorize H ctx q control lease r budget now s = Inr (res, s')"
    and row: "r \<in> set (os_reservations s)" and reserved: "br_state r = BrReserved"
  shows "dispatched_in (br_reservation_id r) s s'" and "os_leases s' = os_leases s" and "audit_ok H base s \<Longrightarrow> audit_ok H base s'"
proof -
  from run obtain permit c s1 s2 s3 event where
    s1: "update_reservation H (r\<lparr> br_state := BrDispatching, br_permit_id := Some permit,
           br_dispatch_token_digest := Some (dispatch_token_digest H (bd_dispatch_token q)),
           br_call_digest := Some (bd_call_digest q), br_dispatch_started_at := Some now \<rparr>) s = Inr s1"
    and s2: "update_run_control H c s1 = Inr s2"
    and s3: "append_current_projection H ctx 1 c (rl_fence_epoch lease) now s2 = Inr s3"
    and s4: "append_audit_event H event s3 = Inr s'"
    by (auto simp: dispatch_authorize_def bindR_eq_Inr Let_def split: if_splits)
  note s1 = update_reservation_Inr [OF s1] and c = update_run_control_Inr [OF s2]
    and frame = append_audit_event_frame [OF s4]
  let ?r = "r\<lparr> br_state := BrDispatching, br_permit_id := Some permit,
      br_dispatch_token_digest := Some (dispatch_token_digest H (bd_dispatch_token q)),
      br_call_digest := Some (bd_call_digest q), br_dispatch_started_at := Some now \<rparr>"
  obtain p where p: "s3 = s2\<lparr> os_projections := os_projections s2 @ [p] \<rparr>"
    using append_current_projection_Inr [OF s3] by blast
  show "dispatched_in (br_reservation_id r) s s'"
    unfolding dispatched_in_def using s1 c(1) p frame row reserved
    by - (rule conjI, simp, rule exI [of _ r], rule exI [of _ ?r], simp)
  show "os_leases s' = os_leases s" using s1 c(1) p frame by simp
  show "audit_ok H base s'" if "audit_ok H base s"
    using append_audit_event_ok [OF _ s4] audit_ok_cong [OF that, of s3] p c(1) s1 by simp
qed

text \<open>The replay tables may have changed before a call is authorized, nothing else.\<close>

lemma dispatched_in_cong:
  assumes "dispatched_in k s0 s'" and "os_reservations s0 = os_reservations s" and "os_budgets s0 = os_budgets s"
  shows "dispatched_in k s s'"
  using assms by (simp add: dispatched_in_def)

definition replays_only :: "OperatorStore \<Rightarrow> OperatorStore \<Rightarrow> bool" where
  "replays_only s s' \<longleftrightarrow> (\<exists>y b. s' = s\<lparr> os_replays := y, os_bindings := b \<rparr>)"

lemma replays_only_refl: "replays_only s s"
  unfolding replays_only_def by (rule exI [of _ "os_replays s"], rule exI [of _ "os_bindings s"]) simp

lemma replays_only_claim: "replays_only s (s\<lparr> os_replays := y \<rparr>)"
  unfolding replays_only_def by (rule exI [of _ y], rule exI [of _ "os_bindings s"]) simp

lemma claim_execution_replay_Inr:
  assumes "claim_execution_replay_in_transaction outcome_ok H b token now s = Inr (claim, s')"
  shows "replays_only s s'" and "claim \<noteq> RcAcquired \<Longrightarrow> s' = s"
  using assms by (auto simp: claim_execution_replay_in_transaction_def replays_only_refl replays_only_claim
      split: option.splits if_splits ReplayRowState.splits)

lemma insert_replay_binding_Inr:
  assumes "insert_replay_binding H b k s = Inr s'" and "replays_only s0 s"
  shows "replays_only s0 s'"
  using assms by (auto simp: insert_replay_binding_def replays_only_def split: if_splits)

lemma replays_only_frame:
  assumes "replays_only s s'"
  shows "os_reservations s' = os_reservations s" and "os_budgets s' = os_budgets s" and "os_leases s' = os_leases s"
    and "audit_ok H base s \<Longrightarrow> audit_ok H base s'"
  using assms by (auto simp: replays_only_def intro: audit_ok_cong)

lemma dispatch_claimed_Inr:
  assumes run: "dispatch_claimed verified outcome_ok H ctx q control lease r budget now s = Inr (res, s')"
  shows "(\<exists>kind outcome revision. dispatch_released H ctx control lease r budget kind outcome now s = Inr (revision, s')
            \<and> (\<forall>d. res = Inr d \<longrightarrow> dr_outcome d \<noteq> DispatchAuthorized))
      \<or> (\<exists>s2. replays_only s s2 \<and> dispatch_authorize H ctx q control lease r budget now s2 = Inr (res, s'))"
proof (cases "bd_replay q")
  case None
  with run replays_only_refl [of s] show ?thesis by (auto simp: dispatch_claimed_def)
next
  case (Some b)
  with run obtain token claim s1 where
    claim: "claim_execution_replay_in_transaction outcome_ok H b token now s = Inr (claim, s1)"
    and rest: "(case claim of
          RcAcquired \<Rightarrow>
            bindR (insert_replay_binding H b (br_reservation_id r) s1) (\<lambda>s2.
              dispatch_authorize H ctx q control lease r budget now s2)
        | RcCompleted \<Rightarrow>
            bindR (verified b s1) (\<lambda>completion.
              dispatch_exact_replay H ctx control lease r budget completion now s1)
        | RcConflict \<Rightarrow> dispatch_replay_refused H ctx control lease r budget ReplayConflict now s1
        | RcFailed \<Rightarrow> dispatch_replay_refused H ctx control lease r budget ReplayFailed now s1
        | RcInProgress \<Rightarrow> dispatch_replay_refused H ctx control lease r budget ReplayInProgress now s1)
      = Inr (res, s')"
    by (auto simp: dispatch_claimed_def bindR_eq_Inr)
  note c = claim_execution_replay_Inr [OF claim]
  show ?thesis
  proof (cases "claim = RcAcquired")
    case True
    with rest show ?thesis using insert_replay_binding_Inr [OF _ c(1)] by (auto simp: bindR_eq_Inr)
  next
    case False
    with rest c(2) show ?thesis
      by (cases claim) (auto simp: bindR_eq_Inr dispatch_exact_replay_def dispatch_replay_refused_def)
  qed
qed

lemma dispatch_deadline_Inr:
  assumes run: "dispatch_deadline verified outcome_ok H ctx q control lease r budget now s = Inr (res, s')"
    and budget: "load_budget H s (br_budget_id r) = Inr budget" and load: "load_reservation H s k = Inr r"
    and reserved: "br_state r = BrReserved"
  shows "(closed_in H s s' \<and> (\<forall>d. res = Inr d \<longrightarrow> dr_outcome d \<noteq> DispatchAuthorized)) \<or> dispatched_in (br_reservation_id r) s s'"
    and "os_leases s' = os_leases s" and "audit_ok H base s \<Longrightarrow> audit_ok H base s'"
proof -
  from run consider kind outcome revision where
      "dispatch_released H ctx control lease r budget kind outcome now s = Inr (revision, s')"
      "\<forall>d. res = Inr d \<longrightarrow> dr_outcome d \<noteq> DispatchAuthorized"
    | s2 where "replays_only s s2" "dispatch_authorize H ctx q control lease r budget now s2 = Inr (res, s')"
    using dispatch_claimed_Inr [of verified outcome_ok H ctx q control lease r budget now s res s']
    by (auto simp: dispatch_deadline_def bindR_eq_Inr split: if_splits)
  note effect = this
  show "(closed_in H s s' \<and> (\<forall>d. res = Inr d \<longrightarrow> dr_outcome d \<noteq> DispatchAuthorized)) \<or> dispatched_in (br_reservation_id r) s s'"
    using effect
  proof cases
    case 1 then show ?thesis using dispatch_released_Inr(1) [OF 1(1) budget load reserved] by simp
  next
    case (2 s2)
    note f = replays_only_frame [OF 2(1)]
    have "dispatched_in (br_reservation_id r) s2 s'"
      using dispatch_authorize_Inr(1) [OF 2(2) _ reserved] load_reservation_Inr [OF load] f(1) by simp
    then show ?thesis using dispatched_in_cong [OF _ f(1,2)] by simp
  qed
  have *: "os_leases s' = os_leases s \<and> (audit_ok H base s \<longrightarrow> audit_ok H base s')"
    using effect
  proof cases
    case 1 then show ?thesis using dispatch_released_Inr(2,3) [OF 1(1) budget load reserved] by simp
  next
    case (2 s2)
    note f = replays_only_frame [OF 2(1)]
    have r: "r \<in> set (os_reservations s2)" using load_reservation_Inr(1) [OF load] f(1) by simp
    show ?thesis
      using dispatch_authorize_Inr(2,3) [OF 2(2) r reserved] f(3) f(4) [of H] by simp
  qed
  then show "os_leases s' = os_leases s" and "audit_ok H base s \<Longrightarrow> audit_ok H base s'" by simp_all
qed

lemma begin_dispatch_body_Inr:
  assumes run: "begin_dispatch_body verified outcome_ok H ctx q s = Inr (res, s')"
  obtains r where "load_reservation H s (bd_reservation_id q) = Inr r" and "br_state r = BrReserved"
    and "(closed_in H s s' \<and> (\<forall>d. res = Inr d \<longrightarrow> dr_outcome d \<noteq> DispatchAuthorized)) \<or> dispatched_in (bd_reservation_id q) s s'"
    and "os_leases s' = os_leases s" and "audit_ok H base s \<longrightarrow> audit_ok H base s'"
proof -
  from run obtain now control lease r budget completion where
    load: "load_reservation H s (bd_reservation_id q) = Inr r" and reserved: "br_state r = BrReserved"
    and budget: "load_budget H s (br_budget_id r) = Inr budget"
    and rest: "dispatch_exact_replay H ctx control lease r budget completion now s = Inr (res, s')
       \<or> dispatch_deadline verified outcome_ok H ctx q control lease r budget now s = Inr (res, s')"
    by (auto simp: begin_dispatch_body_def bindR_eq_Inr split: if_splits option.splits) blast+
  from rest show thesis
  proof
    assume "dispatch_exact_replay H ctx control lease r budget completion now s = Inr (res, s')"
    then obtain revision where
      rel: "dispatch_released H ctx control lease r budget AkBudgetReleased AoAccepted now s = Inr (revision, s')"
      and no: "\<forall>d. res = Inr d \<longrightarrow> dr_outcome d \<noteq> DispatchAuthorized"
      by (auto simp: dispatch_exact_replay_def bindR_eq_Inr)
    note f = dispatch_released_Inr [OF rel budget load reserved]
    show thesis by (rule that [OF load reserved _ f(2)]) (use f no in simp_all)
  next
    assume "dispatch_deadline verified outcome_ok H ctx q control lease r budget now s = Inr (res, s')"
    note f = dispatch_deadline_Inr [OF this budget load reserved]
    show thesis by (rule that [OF load reserved _ f(2)]) (use f load_reservation_Inr(2) [OF load] in simp_all)
  qed
qed

lemma mark_bound_replay_failed_Inr:
  "mark_bound_replay_failed b s = Inr s' \<Longrightarrow> replays_only s s'"
  by (auto simp: mark_bound_replay_failed_def bindR_eq_Inr replays_only_refl replays_only_claim
      split: option.splits if_splits ReplayRowState.splits)

lemma fail_run_Inr:
  "fail_run k now s = Inr (run, s') \<Longrightarrow> \<exists>rows. s' = s\<lparr> os_runs := rows \<rparr>"
proof -
  assume run: "fail_run k now s = Inr (run, s')"
  have same: "\<exists>rows. x = x\<lparr> os_runs := rows \<rparr>" for x :: OperatorStore by (rule exI [of _ "os_runs x"]) simp
  show ?thesis
    using run by (auto simp: fail_run_def update_agent_run_exact_def bindR_eq_Inr intro: same split: if_splits)
qed

lemma fail_latest_step_Inr:
  "fail_latest_step k now s = Inr s' \<Longrightarrow> \<exists>rows. s' = s\<lparr> os_steps := rows \<rparr>"
proof -
  assume run: "fail_latest_step k now s = Inr s'"
  have same: "\<exists>rows. x = x\<lparr> os_steps := rows \<rparr>" for x :: OperatorStore by (rule exI [of _ "os_steps x"]) simp
  show ?thesis
    using run by (auto simp: fail_latest_step_def update_agent_step_exact_def bindR_eq_Inr intro: same
        split: if_splits option.splits)
qed

lemma apply_forfeit_Inr:
  assumes run: "apply_forfeit H ctx control lease r now s = Inr (res, s')"
    and load: "load_reservation H s k = Inr r" and dispatching: "br_state r = BrDispatching"
  shows "closed_in H s s'" and "os_leases s' = os_leases s" and "audit_ok H base s \<Longrightarrow> audit_ok H base s'"
proof -
  let ?r = "r\<lparr> br_state := BrForfeited, br_charged := br_reserved r, br_settled_at := Some now \<rparr>"
  from run obtain budget reserved committed revision s1 s2 s3 failed s4 s5 c s6 s7 where
    budget: "load_budget H s (br_budget_id r) = Inr budget"
    and sub: "subtract_amounts (acc_reserved budget) (br_reserved r) = Inr reserved"
    and add: "add_amounts (acc_committed budget) (br_reserved r) = Inr committed"
    and s1: "update_budget H (budget\<lparr> acc_reserved := reserved, acc_committed := committed,
               acc_revision := revision, acc_updated_at := now \<rparr>) s = Inr s1"
    and s2: "update_reservation H ?r s1 = Inr s2"
    and s3: "mark_bound_replay_failed (br_replay ?r) s2 = Inr s3"
    and s4: "fail_run (rc_run_id control) now s3 = Inr (failed, s4)"
    and s5: "fail_latest_step (rc_run_id control) now s4 = Inr s5"
    and s6: "update_run_control H c s5 = Inr s6"
    and s7: "append_current_projection H ctx 0 c (rl_fence_epoch lease) now s6 = Inr s7"
    and s8: "append_forfeit_events H ctx c lease ?r now s7 = Inr s'"
    by (auto simp: apply_forfeit_def bindR_eq_Inr Let_def)
  note s1 = update_budget_Inr [OF s1] and s2 = update_reservation_Inr [OF s2]
    and s3 = replays_only_frame [OF mark_bound_replay_failed_Inr [OF s3]] and s6 = update_run_control_Inr(1) [OF s6]
  from s8 obtain e e' s7' where e: "append_audit_event H e s7 = Inr s7'" "append_audit_event H e' s7' = Inr s'"
    by (auto simp: append_forfeit_events_def bindR_eq_Inr)
  note frame = append_audit_event_frame [OF e(1)] append_audit_event_frame [OF e(2)]
  obtain p where p: "s7 = s6\<lparr> os_projections := os_projections s6 @ [p] \<rparr>"
    using append_current_projection_Inr [OF s7] by blast
  from fail_run_Inr [OF s4] fail_latest_step_Inr [OF s5] obtain x y where
    x: "s4 = s3\<lparr> os_runs := x \<rparr>" "s5 = s4\<lparr> os_steps := y \<rparr>" by blast
  show "closed_in H s s'"
    by (rule closed_inI [OF budget load, where r' = ?r
        and b' = "budget\<lparr> acc_reserved := reserved, acc_committed := committed, acc_revision := revision,
                   acc_updated_at := now \<rparr>"])
      (use sub add s1 s2 s3(1,2) s6 x p frame dispatching in
        \<open>auto simp: subtract_amounts_def add_amounts_def is_open_def bindR_eq_Inr split: if_splits\<close>)
  show "os_leases s' = os_leases s" using s1(1) s2 s3(3) s6 x p frame by simp
  show "audit_ok H base s'" if "audit_ok H base s"
  proof -
    have "audit_ok H base s3" using s3(4) audit_ok_cong [OF that, of s2] s1(1) s2 by simp
    then have "audit_ok H base s7" using s6 x p by (auto intro: audit_ok_cong)
    then show ?thesis using append_audit_event_ok [OF _ e(1)] append_audit_event_ok [OF _ e(2)] by blast
  qed
qed

lemma permitted_reservation_Inr:
  "permitted_reservation H p token s = Inr r \<Longrightarrow> load_reservation H s (dp_reservation_id p) = Inr r"
  by (auto simp: permitted_reservation_def bindR_eq_Inr split: if_splits)

lemma forfeit_dispatching_Inr:
  assumes "forfeit_dispatching H ctx a p r s = Inr (res, s')" and "load_reservation H s k = Inr r"
  shows "closed_in H s s'" and "os_leases s' = os_leases s" and "audit_ok H base s \<Longrightarrow> audit_ok H base s'"
proof -
  from assms(1) obtain now control lease where "br_state r = BrDispatching"
    and "apply_forfeit H ctx control lease r now s = Inr (res, s')"
    by (auto simp: forfeit_dispatching_def bindR_eq_Inr split: if_splits)
  from apply_forfeit_Inr [OF this(2) assms(2) this(1)]
  show "closed_in H s s'" and "os_leases s' = os_leases s" and "audit_ok H base s \<Longrightarrow> audit_ok H base s'" by simp_all
qed

lemma forfeit_failure_body_Inr:
  assumes "forfeit_failure_body H ctx q s = Inr (res, s')"
  shows "s' = s \<or> closed_in H s s'" and "os_leases s' = os_leases s" and "audit_ok H base s \<Longrightarrow> audit_ok H base s'"
proof -
  from assms obtain r where r: "permitted_reservation H (ff_permit q) (ff_dispatch_token q) s = Inr r"
    and "s' = s \<or> (\<exists>x. forfeit_dispatching H ctx (ff_authority q) (ff_permit q) r s = Inr (x, s'))"
    by (auto simp: forfeit_failure_body_def bindR_eq_Inr Let_def split: if_splits)
  then consider "s' = s" | x where "forfeit_dispatching H ctx (ff_authority q) (ff_permit q) r s = Inr (x, s')"
    by blast
  then have "(s' = s \<or> closed_in H s s') \<and> os_leases s' = os_leases s \<and> (audit_ok H base s \<longrightarrow> audit_ok H base s')"
    by cases (simp, use forfeit_dispatching_Inr [OF _ permitted_reservation_Inr [OF r]] in blast)
  then show "s' = s \<or> closed_in H s s'" and "os_leases s' = os_leases s" and "audit_ok H base s \<Longrightarrow> audit_ok H base s'"
    by simp_all
qed

section \<open>Reservations over many calls\<close>

lemma dispatched_in_ok:
  assumes ok: "budget_ok s" and step: "dispatched_in k s s'"
  shows "budget_ok s'"
proof -
  from step obtain r r' where b: "os_budgets s' = os_budgets s" and r: "r \<in> set (os_reservations s)"
    "br_state r = BrReserved" "br_state r' = BrDispatching" "br_reservation_id r' = br_reservation_id r"
    "br_budget_id r' = br_budget_id r" "br_reserved r' = br_reserved r" "br_charged r' = br_charged r"
    and rows: "os_reservations s' = map (\<lambda>x. if br_reservation_id x = br_reservation_id r then r' else x) (os_reservations s)"
    by (auto simp: dispatched_in_def)
  from ok have d: "distinct (map br_reservation_id (os_reservations s))" by (simp add: budget_ok_def)
  note replaced = sum_replace [OF d r(1) r(4)]
  have "is_open r" "is_open r'" using r by (simp_all add: is_open_def)
  then have "held f s' b = held f s b" "charges f s' b = charges f s b" for f b
    using replaced [of "\<lambda>r. if br_budget_id r = b \<and> is_open r then unat (f (br_reserved r)) else 0"]
      replaced [of "\<lambda>r. if br_budget_id r = b then unat (f (br_charged r)) else 0"]
    unfolding held_def charges_def rows by (simp_all add: r del: map_map cong: if_cong)
  moreover have "map br_reservation_id (os_reservations s') = map br_reservation_id (os_reservations s)"
    using r(4) by (simp add: rows)
  ultimately show ?thesis using ok by (simp add: budget_ok_def account_ok_def b)
qed

lemma reservations_step_ok:
  assumes "budget_ok s" and "reservations_step H s s'"
  shows "budget_ok s'"
  using assms reserved_in_ok closed_in_ok dispatched_in_ok budget_ok_cong
  unfolding reservations_step_def by metis

text \<open>A reservation that exists and is no longer \<open>Reserved\<close>.\<close>

definition spent :: "uuid \<Rightarrow> OperatorStore \<Rightarrow> bool" where
  "spent k s \<longleftrightarrow> k \<in> br_reservation_id ` set (os_reservations s)
     \<and> list_all (\<lambda>r. br_reservation_id r = k \<longrightarrow> br_state r \<noteq> BrReserved) (os_reservations s)"

lemma spent_replace:
  assumes "br_state r' \<noteq> BrReserved" and "br_reservation_id r' = br_reservation_id r"
    and "os_reservations s' = map (\<lambda>x. if br_reservation_id x = br_reservation_id r then r' else x) (os_reservations s)"
  shows "spent k s \<Longrightarrow> spent k s'" and "r \<in> set (os_reservations s) \<Longrightarrow> spent (br_reservation_id r) s'"
proof -
  have "map br_reservation_id (os_reservations s') = map br_reservation_id (os_reservations s)"
    using assms(2) by (simp add: assms(3))
  then have ids: "br_reservation_id ` set (os_reservations s') = br_reservation_id ` set (os_reservations s)"
    by (metis set_map)
  show "spent k s'" if "spent k s"
    using that assms(1) by (simp add: spent_def ids list_all_iff) (auto simp: assms(3))
  show "spent (br_reservation_id r) s'" if "r \<in> set (os_reservations s)"
    using that assms(1) by (simp add: spent_def ids list_all_iff) (auto simp: assms(3))
qed

lemma spent_step:
  assumes "spent k s" and "reservations_step H s s'"
  shows "spent k s'"
  using assms(2) unfolding reservations_step_def
proof (elim disjE)
  assume "reserved_in H s s'"
  with assms(1) show ?thesis by (auto simp: reserved_in_def spent_def)
next
  assume "closed_in H s s'"
  then show ?thesis
    unfolding closed_in_def
    by (elim exE conjE) (rule spent_replace(1) [OF _ _ _ assms(1), rotated 2], assumption, auto simp: is_open_def)
next
  assume "\<exists>k. dispatched_in k s s'"
  then show ?thesis
    unfolding dispatched_in_def
    by (elim exE conjE) (rule spent_replace(1) [OF _ _ _ assms(1), rotated 2], assumption, simp_all)
qed (use assms(1) in \<open>simp add: spent_def\<close>)

lemma dispatched_in_spent:
  assumes "dispatched_in k s s'" shows "spent k s'"
  using assms unfolding dispatched_in_def
  by (elim exE conjE) (drule spent_replace(2) [rotated 2], simp_all)

lemma spent_not_dispatched:
  assumes "spent (bd_reservation_id q) s"
  shows "\<not> is_ok (begin_dispatch_body verified outcome_ok H ctx q s)"
proof
  assume "is_ok (begin_dispatch_body verified outcome_ok H ctx q s)"
  then obtain res s' where "begin_dispatch_body verified outcome_ok H ctx q s = Inr (res, s')" by (auto simp: is_ok_iff)
  then obtain r where "load_reservation H s (bd_reservation_id q) = Inr r" "br_state r = BrReserved"
    by (rule begin_dispatch_body_Inr)
  with assms load_reservation_Inr [OF this(1)] show False by (auto simp: spent_def list_all_iff)
qed

end
