(* ===== verification/OperatorCalls.thy ===== *)
theory OperatorCalls
  imports OperatorDispatch
begin

text \<open>
  Sequences of calls of the operator store: every interleaving of lease, budget, dispatch and
  failure calls by any number of holders, each call being one transaction. The registration of
  a run, the commands of a human operator and the commit of a matching runtime result are not
  among the calls. The locale
  \<open>guarded_calls\<close> lifts what one call keeps to what a sequence keeps; it is interpreted for
  the audit log, the fence epochs, the budget accounts, the dispatched reservations and the
  leases of a run whose lease has expired.
\<close>

section \<open>Calls\<close>

datatype operator_call =
  ClaimRunLease "OperatorEnv option" LeaseClaimRequest
| RenewRunLease "OperatorEnv option" LeaseRenewRequest
| ReleaseRunLease "OperatorEnv option" LeaseReleaseRequest
| ReclaimRun "OperatorEnv option" ReclaimRequest
| ReserveAggregateBudget "OperatorEnv option" BudgetReserveRequest
| SettleBudgetReservation "OperatorEnv option" BudgetSettlementRequest
| BeginDispatch "OperatorEnv option" BeginDispatchRequest
| SettleRuntimeFailure "OperatorEnv option" RuntimeFailureRequest
| ForfeitCommit "OperatorEnv option" string LeaseAuthority DispatchPermit string

text \<open>The parts of the store that a call reads through a parameter of the model.\<close>

record ('c, 'r) store_code =
  code_verified :: "ReplayClaimBinding \<Rightarrow> OperatorStore \<Rightarrow> OperatorStoreError + 'c option"
  code_outcome_ok :: "replay_row \<Rightarrow> OperatorStore \<Rightarrow> bool"
  code_rest :: "RunControl \<Rightarrow> RunLease \<Rightarrow> BudgetReservation list \<Rightarrow> utc \<Rightarrow> OperatorStore
     \<Rightarrow> OperatorStoreError + 'r \<times> OperatorStore"

fun call_store :: "('c, 'r) store_code \<Rightarrow> host \<Rightarrow> operator_call \<Rightarrow> OperatorStore \<Rightarrow> OperatorStore" where
  "call_store C H (ClaimRunLease ctx r) s = snd (claim_run_lease H ctx r s)"
| "call_store C H (RenewRunLease ctx r) s = snd (renew_run_lease H ctx r s)"
| "call_store C H (ReleaseRunLease ctx r) s = snd (release_run_lease H ctx r s)"
| "call_store C H (ReclaimRun ctx r) s = snd (reclaim (code_rest C) H ctx r s)"
| "call_store C H (ReserveAggregateBudget ctx q) s = snd (reserve_aggregate_budget H ctx q s)"
| "call_store C H (SettleBudgetReservation ctx q) s = snd (settle_budget_reservation H ctx q s)"
| "call_store C H (BeginDispatch ctx q) s = snd (begin_dispatch (code_verified C) (code_outcome_ok C) H ctx q s)"
| "call_store C H (SettleRuntimeFailure ctx q) s = snd (settle_runtime_failure H ctx q s)"
| "call_store C H (ForfeitCommit ctx schema a p token) s = snd (forfeit_commit H ctx schema a p token s)"

abbreviation call_all :: "('c, 'r) store_code \<Rightarrow> host \<Rightarrow> operator_call list \<Rightarrow> OperatorStore \<Rightarrow> OperatorStore" where
  "call_all C H \<equiv> fold (call_store C H)"

fun call_env :: "operator_call \<Rightarrow> OperatorEnv option" where
  "call_env (ClaimRunLease ctx r) = ctx"
| "call_env (RenewRunLease ctx r) = ctx"
| "call_env (ReleaseRunLease ctx r) = ctx"
| "call_env (ReclaimRun ctx r) = ctx"
| "call_env (ReserveAggregateBudget ctx q) = ctx"
| "call_env (SettleBudgetReservation ctx q) = ctx"
| "call_env (BeginDispatch ctx q) = ctx"
| "call_env (SettleRuntimeFailure ctx q) = ctx"
| "call_env (ForfeitCommit ctx schema a p token) = ctx"

text \<open>The clock of the call shows \<open>t\<close> or a later time.\<close>

definition called_from :: "utc \<Rightarrow> operator_call \<Rightarrow> bool" where
  "called_from t c =
     (case call_env c of None \<Rightarrow> True | Some env \<Rightarrow> (case env_now env of None \<Rightarrow> True | Some now \<Rightarrow> t \<le> now))"

section \<open>What a sequence of calls keeps\<close>

locale guarded_calls =
  fixes call :: "'c \<Rightarrow> 's \<Rightarrow> 's" and allowed :: "'c \<Rightarrow> bool" and good :: "'s \<Rightarrow> bool" and le :: "'s \<Rightarrow> 's \<Rightarrow> bool"
  assumes call_keeps: "good s \<Longrightarrow> allowed c \<Longrightarrow> good (call c s)"
    and call_advances: "good s \<Longrightarrow> allowed c \<Longrightarrow> le s (call c s)"
    and le_refl: "le s s"
    and le_trans: "le s t \<Longrightarrow> le t u \<Longrightarrow> le s u"
begin

lemma calls_keep: "good s \<Longrightarrow> list_all allowed cs \<Longrightarrow> good (fold call cs s)"
  by (induction cs arbitrary: s) (auto simp: call_keeps)

lemma calls_advance: "good s \<Longrightarrow> list_all allowed cs \<Longrightarrow> le s (fold call cs s)"
proof (induction cs arbitrary: s)
  case (Cons c cs)
  then have "le s (call c s)" and "le (call c s) (fold call cs (call c s))" by (simp_all add: call_keeps call_advances)
  then show ?case by (auto intro: le_trans)
qed (simp add: le_refl)

end

lemma snd_transact: "snd (transact s body) = (case body of Inl _ \<Rightarrow> s | Inr (_, s') \<Rightarrow> s')"
  by (auto simp: transact_def split: sum.splits)

lemma snd_settle_result: "snd (settle_result x) = snd x"
  by (simp add: settle_result_def)

lemma claim_body_frame:
  assumes "claim_body H ctx r s = Inr (res, s')"
  shows "audit_ok H base s \<Longrightarrow> audit_ok H base s'"
    and "os_reservations s' = os_reservations s" and "os_budgets s' = os_budgets s"
proof -
  from assms obtain now control lease where
    rec: "record_lease H ctx LmAcquired AkLeaseAcquired now control lease
           (s\<lparr> os_leases := os_leases s @ [lease] \<rparr>) = Inr (res, s')" by (rule claim_body_Inr)
  note frame = record_lease_Inr [OF rec]
  show "os_reservations s' = os_reservations s" "os_budgets s' = os_budgets s" using frame(6,7) by simp_all
  show "audit_ok H base s'" if "audit_ok H base s" using frame(5) audit_ok_cong [OF that] by simp
qed

text \<open>The effect of one call: it fails and changes nothing, or one of the transactions commits.\<close>

lemma call_store_cases:
  obtains "call_store C H c s = s"
  | (Claim) ctx r res where "c = ClaimRunLease ctx r" and "claim_body H ctx r s = Inr (res, call_store C H c s)"
  | (Renew) ctx r res where "c = RenewRunLease ctx r" and "renew_body H ctx r s = Inr (res, call_store C H c s)"
  | (Release) ctx r res where "c = ReleaseRunLease ctx r" and "release_body H ctx r s = Inr (res, call_store C H c s)"
  | (Reserve) ctx q res where "c = ReserveAggregateBudget ctx q"
      and "reserve_body H ctx q s = Inr (res, call_store C H c s)"
  | (Settle) ctx q res where "c = SettleBudgetReservation ctx q"
      and "settle_body H ctx q s = Inr (res, call_store C H c s)"
  | (Dispatch) ctx q res where "c = BeginDispatch ctx q"
      and "begin_dispatch_body (code_verified C) (code_outcome_ok C) H ctx q s = Inr (res, call_store C H c s)"
  | (Failed) ctx q res where "c = SettleRuntimeFailure ctx q"
      and "forfeit_failure_body H ctx q s = Inr (res, call_store C H c s)"
  | (Forfeit) ctx schema a p token r res where "c = ForfeitCommit ctx schema a p token"
      and "permitted_reservation H p token s = Inr r"
      and "forfeit_dispatching H ctx a p r s = Inr (res, call_store C H c s)"
proof (cases c)
  case (ClaimRunLease ctx r)
  then show thesis
    by (cases "claim_body H ctx r s") (auto simp: claim_run_lease_def snd_transact intro: that(1,2))
next
  case (RenewRunLease ctx r)
  then show thesis
    by (cases "renew_body H ctx r s") (auto simp: renew_run_lease_def snd_transact intro: that(1,3))
next
  case (ReleaseRunLease ctx r)
  then show thesis
    by (cases "release_body H ctx r s") (auto simp: release_run_lease_def snd_transact intro: that(1,4))
next
  case (ReclaimRun ctx r)
  then show thesis
    using reclaim_body_Inl [of "code_rest C" H ctx r s]
    by (auto simp: reclaim_def snd_transact is_ok_iff split: sum.splits intro: that(1))
next
  case (ReserveAggregateBudget ctx q)
  then show thesis
    by (cases "reserve_body H ctx q s")
      (auto simp: reserve_aggregate_budget_def snd_settle_result snd_transact intro: that(1,5))
next
  case (SettleBudgetReservation ctx q)
  then show thesis
    by (cases "settle_body H ctx q s")
      (auto simp: settle_budget_reservation_def snd_settle_result snd_transact intro: that(1,6))
next
  case (BeginDispatch ctx q)
  then show thesis
    by (cases "begin_dispatch_body (code_verified C) (code_outcome_ok C) H ctx q s")
      (auto simp: begin_dispatch_def snd_settle_result snd_transact intro: that(1,7))
next
  case (SettleRuntimeFailure ctx q)
  then show thesis
    by (cases "forfeit_failure_body H ctx q s")
      (auto simp: settle_runtime_failure_def snd_settle_result snd_transact intro: that(1,8))
next
  case (ForfeitCommit ctx schema a p token)
  show thesis
  proof (cases "call_store C H c s = s")
    case False
    with ForfeitCommit obtain r res where "permitted_reservation H p token s = Inr r"
      and "forfeit_dispatching H ctx a p r s = Inr (res, call_store C H c s)"
      by (auto simp: forfeit_commit_def snd_settle_result snd_transact bindR_eq_Inr split: sum.splits)
    with ForfeitCommit show thesis by (rule that(9))
  qed (rule that(1))
qed

lemma call_audit_ok: "audit_ok H base s \<Longrightarrow> audit_ok H base (call_store C H c s)"
proof (cases rule: call_store_cases [of C H c s])
  case (Dispatch ctx q res)
  assume "audit_ok H base s"
  then show ?thesis using begin_dispatch_body_Inr [OF Dispatch(2)] by metis
qed (auto dest: claim_body_frame(1) renew_body_Inr(2) release_body_Inr(2) reserve_body_Inr(2) settle_body_Inr(2)
    forfeit_failure_body_Inr(3) forfeit_dispatching_Inr(3) [OF _ permitted_reservation_Inr])

lemma call_reservations_step: "reservations_step H s (call_store C H c s)"
proof (cases rule: call_store_cases [of C H c s])
  case (Dispatch ctx q res)
  from begin_dispatch_body_Inr [OF Dispatch(2)] show ?thesis unfolding reservations_step_def by metis
next
  case (Forfeit ctx schema a p token r res)
  then show ?thesis
    using forfeit_dispatching_Inr(1) [OF Forfeit(3) permitted_reservation_Inr [OF Forfeit(2)]]
    by (simp add: reservations_step_def)
next
  case (Failed ctx q res)
  from forfeit_failure_body_Inr(1) [OF Failed(2)] show ?thesis by (auto simp: reservations_step_def)
qed (auto simp: reservations_step_def dest: claim_body_frame(2,3) renew_body_Inr(3,4) release_body_Inr(3,4)
    reserve_body_Inr(3) settle_body_Inr(3))

lemma call_leases_cases:
  obtains (Same) "os_leases (call_store C H c s) = os_leases s"
  | (Claimed) ctx r res where "c = ClaimRunLease ctx r" and "claim_body H ctx r s = Inr (res, call_store C H c s)"
  | (Replaced) env now l l' where "call_env c = Some env" and "env_now env = Some now"
      and "lease_replaced s (call_store C H c s) now l l'"
proof (cases rule: call_store_cases [of C H c s])
  case (Dispatch ctx q res)
  from begin_dispatch_body_Inr [OF Dispatch(2)] show thesis by (metis Same)
next
  case (Renew ctx r res)
  then show thesis using renew_body_Inr(1) [OF Renew(2)] Replaced by fastforce
next
  case (Release ctx r res)
  then show thesis using release_body_Inr(1) [OF Release(2)] Replaced by fastforce
next
  case (Claim ctx r res)
  then show thesis by (rule Claimed)
next
  case (Forfeit ctx schema a p token r res)
  show thesis by (rule Same [OF forfeit_dispatching_Inr(2) [OF Forfeit(3) permitted_reservation_Inr [OF Forfeit(2)]]])
next
  case (Reserve ctx q res)
  show thesis by (rule Same [OF reserve_body_Inr(1) [OF Reserve(2)]])
next
  case (Settle ctx q res)
  show thesis by (rule Same [OF settle_body_Inr(1) [OF Settle(2)]])
next
  case (Failed ctx q res)
  show thesis by (rule Same [OF forfeit_failure_body_Inr(2) [OF Failed(2)]])
qed (simp add: Same)

text \<open>A claim appends an active lease of its run with the next fence epoch.\<close>

lemma claim_body_lease:
  assumes "lease_ok s" and "claim_body H ctx r s = Inr (res, s')"
  shows "lease_ok s'" and "os_leases s' = os_leases s @ [lm_lease res]"
    and "rl_run_id (lm_lease res) = lb_run_id (lr_binding r)" and "active_leases s (lb_run_id (lr_binding r)) = []"
    and "max_fence s (lb_run_id (lr_binding r)) < rl_fence_epoch (lm_lease res)"
proof -
  from assms(2) obtain now control lease where none: "active_leases s (lb_run_id (lr_binding r)) = []"
    and fence: "max_fence s (lb_run_id (lr_binding r)) = lb_expected_fence_epoch (lr_binding r)"
    and lease: "digest_lease H (new_lease H r now) = Inr lease" "is_ok (run_lease_validate H lease)"
    and fresh: "insert_lease lease s = Inr (s\<lparr> os_leases := os_leases s @ [lease] \<rparr>)"
    and rec: "record_lease H ctx LmAcquired AkLeaseAcquired now control lease
           (s\<lparr> os_leases := os_leases s @ [lease] \<rparr>) = Inr (res, s')" by (rule claim_body_Inr)
  note frame = record_lease_Inr [OF rec]
  obtain d where d: "lease = (new_lease H r now)\<lparr> rl_lease_digest := d \<rparr>" using digest_lease_Inr [OF lease(1)] by blast
  then have run: "rl_run_id lease = lb_run_id (lr_binding r)"
    and epoch: "rl_fence_epoch lease = max_fence s (rl_run_id lease) + 1"
    using fence by (simp_all add: new_lease_def)
  have "lease_ok (s\<lparr> os_leases := os_leases s @ [lease] \<rparr>)"
    using claim_lease_ok(1) [OF assms(1) _ epoch run_lease_validate_ok(1) [OF lease(2)] fresh] none run by simp
  then show "lease_ok s'" using frame(1) by (simp add: lease_ok_def)
  show "os_leases s' = os_leases s @ [lm_lease res]" using frame(1,2) by simp
  show "rl_run_id (lm_lease res) = lb_run_id (lr_binding r)" using frame(2) run by simp
  show "active_leases s (lb_run_id (lr_binding r)) = []" by (rule none)
  show "max_fence s (lb_run_id (lr_binding r)) < rl_fence_epoch (lm_lease res)"
    using frame(2) run epoch run_lease_validate_ok(1) [OF lease(2)] word_less_Suc by simp
qed

lemma call_lease_ok: "lease_ok s \<Longrightarrow> lease_ok (call_store C H c s)"
proof (cases rule: call_leases_cases [of C H c s])
  case Same
  assume "lease_ok s"
  then show ?thesis using Same by (simp add: lease_ok_def)
qed (auto intro: claim_body_lease lease_replaced_ok)

lemma max_fence_append: "max_fence s run \<le> max_fence s' run" if "os_leases s' = os_leases s @ [l]"
  unfolding max_fence_def that by simp

lemma call_max_fence: "lease_ok s \<Longrightarrow> max_fence s run \<le> max_fence (call_store C H c s) run"
proof (cases rule: call_leases_cases [of C H c s])
  case Same
  then show ?thesis by (simp add: max_fence_def)
next
  case (Claimed ctx r res)
  assume "lease_ok s"
  from claim_body_lease(2) [OF this Claimed(2)] show ?thesis by (rule max_fence_append)
next
  case (Replaced env now l l')
  assume "lease_ok s"
  from lease_replaced_max_fence [OF this Replaced(3)] show ?thesis by simp
qed

text \<open>A run has an active lease that has expired at \<open>t\<close>, and its leases are the given ones.\<close>

definition expired_run :: "uuid \<Rightarrow> RunLease list \<Rightarrow> utc \<Rightarrow> OperatorStore \<Rightarrow> bool" where
  "expired_run run ls t s \<longleftrightarrow> lease_ok s \<and> filter (\<lambda>l. rl_run_id l = run) (os_leases s) = ls
     \<and> list_ex (\<lambda>l. rl_state l = LeaseActive \<and> rl_expires_at l \<le> t) ls"

lemma expired_runE:
  assumes "expired_run run ls t s"
  obtains l where "l \<in> set (os_leases s)" and "rl_run_id l = run" and "rl_state l = LeaseActive"
    and "rl_expires_at l \<le> t"
  using assms by (auto simp: expired_run_def list_ex_iff)

lemma call_expired_run:
  assumes stuck: "expired_run run ls t s" and late: "called_from t c"
  shows "expired_run run ls t (call_store C H c s)"
proof -
  from stuck have ok: "lease_ok s" by (simp add: expired_run_def)
  obtain l where l: "l \<in> set (os_leases s)" "rl_run_id l = run" "rl_state l = LeaseActive" "rl_expires_at l \<le> t"
    using stuck by (rule expired_runE)
  have "filter (\<lambda>l. rl_run_id l = run) (os_leases (call_store C H c s)) = filter (\<lambda>l. rl_run_id l = run) (os_leases s)"
  proof (cases rule: call_leases_cases [of C H c s])
    case (Claimed ctx r res)
    note f = claim_body_lease [OF ok Claimed(2)]
    from f(4) l have "lb_run_id (lr_binding r) \<noteq> run" by (auto simp: active_leases_def filter_empty_conv)
    then show ?thesis using f(2,3) by simp
  next
    case (Replaced env now m m')
    from late Replaced(1,2) have "t \<le> now" by (simp add: called_from_def)
    moreover have m: "m \<in> set (os_leases s)" "rl_state m = LeaseActive" "now < rl_expires_at m"
      "rl_run_id m' = rl_run_id m"
      and rows: "os_leases (call_store C H c s) =
        map (\<lambda>x. if rl_lease_id x = rl_lease_id m then m' else x) (os_leases s)"
      using Replaced(3) by (simp_all add: lease_replaced_def)
    ultimately have "m \<noteq> l" using l(4) by auto
    then have other: "rl_run_id m \<noteq> run" using lease_ok_one_active [OF ok m(1) l(1)] m(2) l(2,3) by auto
    have same: "rl_run_id x \<noteq> run" if "x \<in> set (os_leases s)" "rl_lease_id x = rl_lease_id m" for x
      using lease_ok_unique [OF ok that(1) m(1) that(2)] other by simp
    have "filter (\<lambda>l. rl_run_id l = run) (map (\<lambda>x. if rl_lease_id x = rl_lease_id m then m' else x) xs)
        = filter (\<lambda>l. rl_run_id l = run) xs" if "set xs \<subseteq> set (os_leases s)" for xs
      using that other m(4) same by (induction xs) auto
    then show ?thesis by (simp add: rows)
  qed simp
  with stuck call_lease_ok [OF ok] show ?thesis by (simp add: expired_run_def)
qed

section \<open>The contracts of the store over sequences of calls\<close>

interpretation audit_calls: guarded_calls "call_store C H" "\<lambda>_. True" "audit_ok H base" "\<lambda>_ _. True" for C H base
  by unfold_locales (simp_all add: call_audit_ok)

interpretation lease_calls: guarded_calls "call_store C H" "\<lambda>_. True" lease_ok
    "\<lambda>s s'. \<forall>run. max_fence s run \<le> max_fence s' run" for C H
  by unfold_locales (auto simp: call_lease_ok call_max_fence intro: order_trans)

interpretation expired_calls: guarded_calls "call_store C H" "called_from t" "expired_run run ls t" "\<lambda>_ _. True"
  for C H t run ls
  by unfold_locales (simp_all add: call_expired_run)

interpretation budget_calls: guarded_calls "call_store C H" "\<lambda>_. True" budget_ok "\<lambda>_ _. True" for C H
  by unfold_locales (auto intro: reservations_step_ok call_reservations_step)

interpretation spent_calls: guarded_calls "call_store C H" "\<lambda>_. True" "spent k" "\<lambda>_ _. True" for C H k
  by unfold_locales (auto intro: spent_step call_reservations_step)

end
