(* ===== verification/OperatorSample.thy ===== *)
theory OperatorSample
  imports OperatorCalls
begin

text \<open>
  A concrete operator store, on which the hypotheses of the theorems about sequences of calls
  are shown to hold: one run with its control, its first projection and an empty audit log, and
  a claim of its lease that succeeds. The host writes two instants in the strict wire form, and
  every other instant as a decimal text; all digests are the same, which the laws allow.
\<close>

definition op_utc_text :: "utc \<Rightarrow> string" where
  "op_utc_text t =
     (if t = 0 then ''2026-01-01T00:00:00Z''
      else if t = lease_seconds then ''2026-01-01T00:00:30Z''
      else CHR ''t'' # show_int t)"

definition op_parse_utc :: "string \<Rightarrow> utc option" where
  "op_parse_utc s =
     (if s = ''2026-01-01T00:00:00Z'' then Some 0
      else if s = ''2026-01-01T00:00:30Z'' then Some lease_seconds
      else Some (sample_parse_int (tl s)))"

definition op_host :: host where
  "op_host = sample_host\<lparr> host_blake3 := (\<lambda>_. replicate 32 0), host_utc_text := op_utc_text,
                          host_parse_utc := op_parse_utc \<rparr>"

lemma op_host_sel [simp]:
  "host_blake3 op_host m = replicate 32 0"
  "host_utc_text op_host = op_utc_text"
  "host_parse_utc op_host = op_parse_utc"
  "host_quote op_host = sample_quote"
  "host_uuid_text op_host u = show_nat (unat u)"
  "host_parse_uuid op_host s = Some (of_nat (dec_value s))"
  by (simp_all add: op_host_def)

lemma op_host_v7 [simp]: "uuid_is_v7 op_host u = uuid_is_v7 sample_host u"
  by (simp add: op_host_def uuid_is_v7_def)

lemma op_quote_law: "quote_law op_host"
  using sample_quote_law unfolding quote_law_def op_host_sel sample_host_sel .

lemma op_text_law: "text_law op_host"
  by (simp add: text_law_def op_utc_text_def op_parse_utc_def lease_seconds_def)

abbreviation op_zero :: ControlDigest where
  "op_zero \<equiv> ControlDigest (replicate 32 0)"

lemma op_digest:
  assumes "\<forall>v \<in> snd ` set fs. v \<noteq> None \<and> exact_wire v"
  shows "digest_without_field op_host domain fs field = Inr op_zero"
proof -
  let ?ms = "map (\<lambda>(k, v). (k, the v)) fs"
  have "strict_members fs = Some ?ms" using assms by (force simp: strict_members_def list_all_iff)
  moreover have "\<forall>w \<in> snd ` set (filter (\<lambda>(k, _). k \<noteq> field) ?ms). wf_json w \<and> float_free w"
    using assms by fastforce
  then have "canonicalize_serialized op_host (jobject (filter (\<lambda>(k, _). k \<noteq> field) ?ms))
      = Inr (render op_host (jobject (filter (\<lambda>(k, _). k \<noteq> field) ?ms)))"
    by (simp only: canonicalize_serialized_def) (intro canonicalize_exact_ok wf_jobject float_free_jobject; simp)
  ultimately show ?thesis
    by (simp add: digest_without_field_def control_digest_serialized_def control_digest_def)
qed

lemma op_utc [simp]: "strict_utc op_host 0 \<noteq> None" "strict_utc op_host lease_seconds \<noteq> None"
  by (simp_all add: strict_utc_def op_utc_text_def valid_wire_def is_digit_char_def lease_seconds_def)

lemma op_uuid [simp]: "uuid_is_v7 sample_host u \<Longrightarrow> strict_uuid_v7 op_host u \<noteq> None"
  by (simp add: strict_uuid_v7_def)

definition op_control :: RunControl where
  "op_control =
     \<lparr> rc_schema = ''proof-operator-run-control/v1'', rc_run_id = sample_v7 1, rc_workspace_id = sample_v7 2,
       rc_budget_id = sample_v7 3, rc_control_revision = 0, rc_active_dispatch_reservation_id = None,
       rc_recovery_directive_id = None, rc_recovery_directive_digest = None, rc_last_command_id = None,
       rc_created_at = 0, rc_updated_at = 0, rc_binding_digest = op_zero \<rparr>"

definition op_projection :: RunProjection where
  "op_projection =
     \<lparr> rp_schema = ''proof-operator-run-projection/v1'', rp_projection_id = sample_v7 4,
       rp_projection_sequence = 1, rp_projection_revision = 0, rp_workspace_id = sample_v7 2,
       rp_run_id = sample_v7 1, rp_source_run_revision = 0, rp_source_control_revision = 0,
       rp_checkpoint_id = sample_v7 5, rp_checkpoint_sequence = 0,
       rp_checkpoint_digest = ContentDigest (replicate 32 0), rp_fence_epoch = 0, rp_run_status = RunQueued,
       rp_attention = AtRunning, rp_required_human_id = None, rp_approval_request_id = None,
       rp_recovery_directive_id = None, rp_recovery_directive_digest = None, rp_projected_at = 0,
       rp_snapshot_digest = op_zero \<rparr>"

definition op_budget :: BudgetAccount where
  "op_budget =
     \<lparr> acc_schema = ''proof-operator-budget-account/v1'',
       acc_policy = \<lparr> pol_schema = ''proof.operator.budget-policy/v1'', pol_budget_id = sample_v7 3,
         pol_workspace_id = sample_v7 2, pol_limits = zero_amounts\<lparr> ba_steps := 5 \<rparr>,
         pol_deadline_at = lease_seconds, pol_limits_digest = op_zero \<rparr>,
       acc_revision = 0, acc_state = AccActive, acc_reserved = zero_amounts, acc_committed = zero_amounts,
       acc_created_at = 0, acc_updated_at = 0 \<rparr>"

definition op_store :: OperatorStore where
  "op_store =
     \<lparr> os_controls = [op_control], os_leases = [], os_reservations = [], os_budgets = [op_budget], os_directives = [],
       os_approvals = [], os_projections = [op_projection],
       os_heads = [sample_v7 2 \<mapsto> (0, None)], os_events = [],
       os_runs = [sample_run\<lparr> AgentRun.run_id := sample_v7 1 \<rparr>], os_steps = [],
       os_checkpoints = [\<lparr> cp_id = sample_v7 5, cp_run_id = sample_v7 1, cp_sequence = 0, cp_state = JNull,
                           cp_state_digest = ContentDigest (replicate 32 0), cp_created_at = 0 \<rparr>],
       os_principals = [], os_approval_requests = [], os_proofs = [], os_replays = [], os_bindings = [] \<rparr>"

definition op_env :: OperatorEnv where
  "op_env = \<lparr> env_now = Some 0, env_uuid = (\<lambda>n. Some (sample_v7 (10 + n))), env_catalog = [] \<rparr>"

definition op_binding :: LeaseClaimBinding where
  "op_binding =
     \<lparr> lb_workspace_id = sample_v7 2, lb_run_id = sample_v7 1, lb_lease_id = sample_v7 6,
       lb_owner_instance_id = sample_v7 7, lb_process_epoch_id = sample_v7 8, lb_expected_fence_epoch = 0,
       lb_expected_control_revision = 0 \<rparr>"

definition op_claim :: LeaseClaimRequest where
  "op_claim = \<lparr> lr_schema = ''proof.operator.lease-claim-request/v1'', lr_binding = op_binding,
                lr_lease_token = ''token'' \<rparr>"

lemma op_values [simp]:
  "n \<le> MAX_SAFE_INTEGER \<Longrightarrow> strict_safe_integer n \<noteq> None"
  "strict_optional f None \<noteq> None" "plain_optional g o' \<noteq> None"
  "f x \<noteq> None \<Longrightarrow> strict_optional f (Some x) \<noteq> None"
  by (simp_all add: strict_safe_integer_def
      strict_optional_def plain_optional_def split: option.splits)

lemma op_safe [simp]: "0 \<le> MAX_SAFE_INTEGER" "1 \<le> MAX_SAFE_INTEGER" "2 \<le> MAX_SAFE_INTEGER"
  "MAX_SAFE_INTEGER \<noteq> 0" "\<not> MAX_SAFE_INTEGER < 1" "\<not> MAX_SAFE_INTEGER < 2"
  by (simp_all add: MAX_SAFE_INTEGER_def word_le_nat_alt word_less_nat_alt)

lemma op_increment [simp]: "safe_increment 0 = Inr 1" "safe_increment 1 = Inr 2"
  by (simp_all add: safe_increment_def checked_add_def)

lemma op_control_valid [simp]:
  assumes "n \<le> MAX_SAFE_INTEGER"
  shows "run_control_validate op_host (op_control\<lparr> rc_control_revision := n \<rparr>) = Inr ()"
    and "digest_without_field op_host domain (run_control_fields op_host (op_control\<lparr> rc_control_revision := n \<rparr>)) f
       = Inr op_zero"
proof -
  show d: "digest_without_field op_host domain
      (run_control_fields op_host (op_control\<lparr> rc_control_revision := n \<rparr>)) f = Inr op_zero" for domain f
    using assms by (intro op_digest) (simp add: run_control_fields_def op_control_def sample_v7_is_v7 del: not_None_eq)
  show "run_control_validate op_host (op_control\<lparr> rc_control_revision := n \<rparr>) = Inr ()"
    using assms by (simp add: run_control_validate_def d) (simp add: op_control_def sample_v7_is_v7 some_not_v7_def)
qed


lemma op_bump: "bump_control op_host op_control 0 = Inr (op_control\<lparr> rc_control_revision := 1 \<rparr>)"
proof -
  have "op_control\<lparr> rc_control_revision := 1, rc_updated_at := 0, rc_binding_digest := op_zero \<rparr>
      = op_control\<lparr> rc_control_revision := 1 \<rparr>" "op_control\<lparr> rc_control_revision := 1, rc_updated_at := 0 \<rparr>
      = op_control\<lparr> rc_control_revision := 1 \<rparr>" "rc_control_revision op_control = 0"
    by (simp_all add: op_control_def)
  then show ?thesis by (simp add: bump_control_def store_digest_def)
qed

definition op_lease :: RunLease where
  "op_lease = new_lease op_host op_claim 0"

lemma op_lease_valid:
  "digest_lease op_host op_lease = Inr op_lease" "is_ok (run_lease_validate op_host op_lease)"
proof -
  have d: "digest_without_field op_host domain (run_lease_fields op_host op_lease) f = Inr op_zero" for domain f
    by (intro op_digest) (simp add: run_lease_fields_def op_lease_def new_lease_def op_claim_def op_binding_def
        sample_v7_is_v7 del: not_None_eq)
  then show "digest_lease op_host op_lease = Inr op_lease"
    by (simp add: digest_lease_def store_digest_def) (simp add: op_lease_def new_lease_def)
  show "is_ok (run_lease_validate op_host op_lease)"
    by (simp add: run_lease_validate_def d)
      (simp add: op_lease_def new_lease_def op_claim_def op_binding_def sample_v7_is_v7 lease_seconds_def)
qed

definition op_next_projection :: RunProjection where
  "op_next_projection =
     op_projection\<lparr> rp_projection_id := sample_v7 10, rp_projection_sequence := 2, rp_projection_revision := 1,
                    rp_source_control_revision := 1, rp_fence_epoch := 1 \<rparr>"

lemma op_projection_valid:
  "is_ok (run_projection_validate op_host op_projection)"
  "is_ok (run_projection_validate op_host op_next_projection)"
  "digest_without_field op_host domain (run_projection_fields op_host op_next_projection) f = Inr op_zero"
proof -
  have d: "digest_without_field op_host domain (run_projection_fields op_host op_projection) f = Inr op_zero"
    for domain f
    by (intro op_digest) (simp add: run_projection_fields_def op_projection_def sample_v7_is_v7 del: not_None_eq)
  show d': "digest_without_field op_host domain (run_projection_fields op_host op_next_projection) f = Inr op_zero"
    for domain f
    by (intro op_digest) (simp add: run_projection_fields_def op_projection_def op_next_projection_def
        sample_v7_is_v7 del: not_None_eq)
  show "is_ok (run_projection_validate op_host op_projection)"
    by (simp add: run_projection_validate_def d)
      (simp add: op_projection_def sample_v7_is_v7 some_not_v7_def projection_branch_valid_def not_less)
  show "is_ok (run_projection_validate op_host op_next_projection)"
    by (simp add: run_projection_validate_def d')
      (simp add: op_projection_def op_next_projection_def sample_v7_is_v7 some_not_v7_def projection_branch_valid_def
        not_less)
qed


definition op_event :: AuditEvent where
  "op_event = lease_event op_lease (sample_v7 11) AkLeaseAcquired 0"

lemma op_event_valid:
  "event_digest_of op_host op_event = Inr op_zero"
  "is_ok (validate_chain_link op_host op_event 1 None)"
proof -
  show d: "event_digest_of op_host op_event = Inr op_zero"
    unfolding event_digest_of_def
    by (intro op_digest) (simp add: audit_event_fields_def op_event_def lease_event_def event_base_def op_lease_def
        new_lease_def op_claim_def op_binding_def sample_v7_is_v7 del: not_None_eq)
  show "is_ok (validate_chain_link op_host op_event 1 None)"
    by (simp add: validate_chain_link_def d)
      (simp add: op_event_def lease_event_def event_base_def op_lease_def new_lease_def op_claim_def op_binding_def
        sample_v7_is_v7 some_not_v7_def event_ids_def event_profile_def profile_mask_def)
qed

definition op_claimed :: OperatorStore where
  "op_claimed = op_store\<lparr> os_leases := [op_lease], os_controls := [op_control\<lparr> rc_control_revision := 1 \<rparr>],
     os_projections := [op_projection, op_next_projection], os_events := [op_event],
     os_heads := [sample_v7 2 \<mapsto> (1, Some op_zero)] \<rparr>"

definition op_result :: LeaseMutationResult where
  "op_result = \<lparr> lm_schema = ''proof.operator.lease-mutation-result/v1'', lm_outcome = LmAcquired,
     lm_lease = op_lease, lm_control_revision = 1 \<rparr>"

lemma op_append_projection:
  "append_current_projection op_host (Some op_env) 0 (op_control\<lparr> rc_control_revision := 1 \<rparr>) 1 0
     (op_store\<lparr> os_leases := ls, os_controls := cs \<rparr>)
   = Inr (op_store\<lparr> os_leases := ls, os_controls := cs, os_projections := [op_projection, op_next_projection] \<rparr>)"
proof -
  have nextp: "op_projection\<lparr> rp_projection_id := sample_v7 10, rp_projection_sequence := 2,
      rp_projection_revision := 1, rp_source_control_revision := 1, rp_fence_epoch := 1,
      rp_source_run_revision := 0, rp_run_status := RunQueued, rp_checkpoint_id := sample_v7 5,
      rp_checkpoint_sequence := 0, rp_checkpoint_digest := ContentDigest (replicate 32 0),
      rp_required_human_id := None, rp_approval_request_id := None, rp_recovery_directive_id := None,
      rp_recovery_directive_digest := None, rp_attention := AtRunning, rp_projected_at := 0 \<rparr>
    = op_next_projection"
    "op_next_projection\<lparr> rp_snapshot_digest := op_zero \<rparr> = op_next_projection"
    by (simp_all add: op_next_projection_def op_projection_def)
  have sel: "rp_run_id op_projection = sample_v7 1" "rp_workspace_id op_projection = sample_v7 2"
    "rp_projection_sequence op_projection = 1" "rp_projection_revision op_projection = 0"
    by (simp_all add: op_projection_def)
  have store: "latest_projection (op_store\<lparr> os_leases := ls, os_controls := cs \<rparr>) (sample_v7 1) = Some op_projection"
    "next_projection_sequence (op_store\<lparr> os_leases := ls, os_controls := cs \<rparr>) = 2"
    "find (\<lambda>r. AgentRun.run_id r = sample_v7 1) (os_runs op_store) = Some (sample_run\<lparr> AgentRun.run_id := sample_v7 1 \<rparr>)"
    "latest_checkpoint (op_store\<lparr> os_leases := ls, os_controls := cs \<rparr>) (sample_v7 1) = Some \<lparr> cp_id = sample_v7 5,
       cp_run_id = sample_v7 1, cp_sequence = 0, cp_state = JNull,
       cp_state_digest = ContentDigest (replicate 32 0), cp_created_at = 0 \<rparr>"
    by (simp_all add: latest_projection_def next_projection_sequence_def latest_checkpoint_def op_store_def sel)
  have "insert_projection op_next_projection (op_store\<lparr> os_leases := ls, os_controls := cs \<rparr>)
      = Inr (op_store\<lparr> os_leases := ls, os_controls := cs, os_projections := [op_projection, op_next_projection] \<rparr>)"
    by (simp add: insert_projection_def op_next_projection_def op_projection_def op_store_def references_def sample_v7_eq)
  moreover have "rc_run_id op_control = sample_v7 1" "rc_workspace_id op_control = sample_v7 2"
    by (simp_all add: op_control_def)
  moreover have "u64_safe 2 = Inr 2" by (simp add: u64_safe_def MAX_SAFE_INTEGER_def)
  ultimately show ?thesis
    using op_projection_valid nextp
    by (simp add: append_current_projection_def store sel op_env_def operator_uuid_def project_attention_def
        sample_run_def store_digest_def is_ok_iff del: One_nat_def)
qed


lemma op_append_event:
  "append_audit_event op_host op_event (op_store\<lparr> os_leases := [op_lease],
     os_controls := [op_control\<lparr> rc_control_revision := 1 \<rparr>],
     os_projections := [op_projection, op_next_projection] \<rparr>) = Inr op_claimed"
proof -
  have same: "op_event\<lparr> ae_sequence := 1, ae_previous_digest := None \<rparr> = op_event"
    "op_event\<lparr> ae_event_digest := op_zero \<rparr> = op_event"
    by (simp_all add: op_event_def lease_event_def event_base_def)
  have sel: "ae_sequence op_event = 1" "ae_previous_digest op_event = None" "ae_workspace_id op_event = sample_v7 2"
    by (simp_all add: op_event_def lease_event_def event_base_def op_lease_def new_lease_def op_claim_def op_binding_def)
  have refs: "event_references op_event (op_store\<lparr> os_leases := [op_lease],
      os_controls := [op_control\<lparr> rc_control_revision := 1 \<rparr>], os_projections := ps \<rparr>)" for ps
    by (simp add: event_references_def references_def op_event_def lease_event_def event_base_def op_lease_def
        new_lease_def op_claim_def op_binding_def op_control_def)
  have tables: "os_heads op_store = [sample_v7 2 \<mapsto> (0, None)]" "os_events op_store = []" by (simp_all add: op_store_def)
  show ?thesis
    using op_event_valid refs by (simp add: append_audit_event_def sel same op_claimed_def Let_def tables)
qed

lemma op_claim_body: "claim_body op_host (Some op_env) op_claim op_store = Inr (op_result, op_claimed)"
proof -
  have "op_control\<lparr> rc_control_revision := 0 \<rparr> = op_control" and run: "rc_run_id op_control = sample_v7 1"
    by (simp_all add: op_control_def)
  then have "run_control_validate op_host op_control = Inr ()" using op_control_valid(1) [of 0] by simp
  then have control: "load_control op_host op_store (sample_v7 1) = Inr op_control"
    by (simp add: load_control_def op_store_def run)
  have lease: "digest_lease op_host (new_lease op_host op_claim 0) = Inr op_lease"
    using op_lease_valid(1) by (simp add: op_lease_def)
  have insert: "insert_lease op_lease op_store = Inr (op_store\<lparr> os_leases := [op_lease] \<rparr>)"
    by (simp add: insert_lease_def op_store_def)
  have update: "update_run_control op_host (op_control\<lparr> rc_control_revision := 1 \<rparr>)
      (op_store\<lparr> os_leases := [op_lease] \<rparr>) = Inr (op_store\<lparr> os_leases := [op_lease],
         os_controls := [op_control\<lparr> rc_control_revision := 1 \<rparr>] \<rparr>)"
    by (simp add: update_run_control_def is_ok_iff) (simp add: op_store_def)
  have fence: "rl_fence_epoch op_lease = 1" "env_now op_env = Some 0" "env_uuid op_env 1 = Some (sample_v7 11)"
    by (simp_all add: op_lease_def new_lease_def op_claim_def op_binding_def op_env_def)
  have recorded: "record_lease op_host (Some op_env) LmAcquired AkLeaseAcquired 0 op_control op_lease
      (op_store\<lparr> os_leases := [op_lease] \<rparr>) = Inr (op_result, op_claimed)"
    using op_append_projection [where ls = "[op_lease]" and cs = "[op_control\<lparr> rc_control_revision := 1 \<rparr>]"] op_append_event
    by (simp add: record_lease_def op_bump update fence operator_uuid_def op_event_def [symmetric] op_result_def
        del: One_nat_def)
  have tables: "active_leases op_store k = []" "max_fence op_store k = 0" "u64_safe 0 = Inr 0" for k
    by (simp_all add: active_leases_def max_fence_def op_store_def u64_safe_def)
  have sel: "rc_workspace_id op_control = sample_v7 2" "rc_control_revision op_control = 0"
    "lr_binding op_claim = op_binding" "lr_schema op_claim = ''proof.operator.lease-claim-request/v1''"
    "lb_workspace_id op_binding = sample_v7 2" "lb_run_id op_binding = sample_v7 1" "lb_lease_id op_binding = sample_v7 6"
    "lb_owner_instance_id op_binding = sample_v7 7" "lb_process_epoch_id op_binding = sample_v7 8"
    "lb_expected_fence_epoch op_binding = 0" "lb_expected_control_revision op_binding = 0"
    by (simp_all add: op_control_def op_claim_def op_binding_def)
  show ?thesis
    using control lease insert recorded op_lease_valid(2)
    by (simp add: claim_body_def Let_def operator_now_def sample_v7_is_v7 invalid_if_def fence tables sel del: One_nat_def)
qed

end
