(* ===== verification/OperatorSafety.thy ===== *)
theory OperatorSafety
  imports OperatorSample
begin

text \<open>
  What the operator store guarantees under every sequence of the calls of \<open>operator_call\<close>, which
  are all that write leases and all that write budgets or reservations but one: the commit of a
  matching runtime result. The guarantees are an append-only audit log
  bound by its head, fence epochs that grow and refuse stale holders, budgets that are never
  exceeded, reservations that are dispatched once, and leases that can be used until they
  expire. A run whose lease has expired is lost to every later call. The witnesses run the
  sample store of \<open>OperatorSample\<close>.
\<close>

section \<open>Observations of a sequence of calls\<close>

fun claimed_fence :: "host \<Rightarrow> uuid \<Rightarrow> operator_call \<Rightarrow> OperatorStore \<Rightarrow> u64 list" where
  "claimed_fence H run (ClaimRunLease ctx r) s =
     (case fst (claim_run_lease H ctx r s) of
        Inl _ \<Rightarrow> []
      | Inr res \<Rightarrow> if rl_run_id (lm_lease res) = run then [rl_fence_epoch (lm_lease res)] else [])"
| "claimed_fence H run _ s = []"

fun claimed_fences :: "('c, 'r) store_code \<Rightarrow> host \<Rightarrow> uuid \<Rightarrow> operator_call list \<Rightarrow> OperatorStore \<Rightarrow> u64 list" where
  "claimed_fences C H run [] s = []"
| "claimed_fences C H run (c # cs) s = claimed_fence H run c s @ claimed_fences C H run cs (call_store C H c s)"

fun authorizes :: "('c, 'r) store_code \<Rightarrow> host \<Rightarrow> uuid \<Rightarrow> operator_call \<Rightarrow> OperatorStore \<Rightarrow> bool" where
  "authorizes C H k (BeginDispatch ctx q) s =
     (bd_reservation_id q = k \<and>
      (case fst (begin_dispatch (code_verified C) (code_outcome_ok C) H ctx q s) of
         Inl _ \<Rightarrow> False
       | Inr d \<Rightarrow> dr_outcome d = DispatchAuthorized))"
| "authorizes C H k _ s = False"

fun authorizations :: "('c, 'r) store_code \<Rightarrow> host \<Rightarrow> uuid \<Rightarrow> operator_call list \<Rightarrow> OperatorStore \<Rightarrow> nat" where
  "authorizations C H k [] s = 0"
| "authorizations C H k (c # cs) s = of_bool (authorizes C H k c s) + authorizations C H k cs (call_store C H c s)"

lemma claimed_fence_bounds:
  assumes "lease_ok s" and "f \<in> set (claimed_fence H run c s)"
  shows "max_fence s run < f" and "f \<le> max_fence (call_store C H c s) run" and "length (claimed_fence H run c s) \<le> 1"
proof -
  from assms(2) obtain ctx r res s' where c: "c = ClaimRunLease ctx r" and body: "claim_body H ctx r s = Inr (res, s')"
    and f: "f = rl_fence_epoch (lm_lease res)" "rl_run_id (lm_lease res) = run"
    by (cases c) (auto simp: claim_run_lease_def transact_def split: sum.splits if_splits)
  note facts = claim_body_lease [OF assms(1) body]
  show "max_fence s run < f" using facts(3,5) f by simp
  have "call_store C H c s = s'" using body by (simp add: c claim_run_lease_def snd_transact)
  moreover have "lm_lease res \<in> set (os_leases s')" using facts(2) by simp
  ultimately show "f \<le> max_fence (call_store C H c s) run" using max_fence_upper f by metis
  show "length (claimed_fence H run c s) \<le> 1" by (simp add: c split: sum.splits)
qed

lemma claimed_fences_grow:
  assumes "lease_ok s"
  shows "sorted_wrt (<) (claimed_fences C H run cs s)
    \<and> (\<forall>f \<in> set (claimed_fences C H run cs s). max_fence s run < f \<and> f \<le> max_fence (call_all C H cs s) run)"
  using assms
proof (induction cs arbitrary: s)
  case (Cons c cs)
  let ?s = "call_store C H c s"
  note ok = call_lease_ok [OF Cons.prems, of C H c]
  note IH = Cons.IH [OF ok]
  have le: "max_fence s run \<le> max_fence ?s run" by (rule call_max_fence [OF Cons.prems])
  have later: "max_fence ?s run \<le> max_fence (call_all C H cs ?s) run" using lease_calls.calls_advance [OF ok, of cs C H]
    by (simp add: list.pred_True)
  have first: "max_fence s run < f \<and> f \<le> max_fence ?s run" if "f \<in> set (claimed_fence H run c s)" for f
    using claimed_fence_bounds [OF Cons.prems that] by blast
  have "sorted_wrt (<) (claimed_fence H run c s)"
  proof (cases "claimed_fence H run c s")
    case (Cons f fs)
    then show ?thesis using claimed_fence_bounds(3) [OF \<open>lease_ok s\<close>, of f H run c] by simp
  qed simp
  then have "sorted_wrt (<) (claimed_fences C H run (c # cs) s)"
    using IH first by (force simp: sorted_wrt_append)
  moreover have "max_fence s run < f \<and> f \<le> max_fence (call_all C H (c # cs) s) run"
    if m: "f \<in> set (claimed_fences C H run (c # cs) s)" for f
    using m IH first le later by (auto dest: order_trans intro: le_less_trans)
  ultimately show ?case by blast
qed simp

lemma authorizes_spent:
  assumes "authorizes C H k c s"
  shows "\<not> spent k s" and "spent k (call_store C H c s)"
proof -
  from assms obtain ctx q d s' where c: "c = BeginDispatch ctx q" and k: "bd_reservation_id q = k"
    and body: "begin_dispatch_body (code_verified C) (code_outcome_ok C) H ctx q s = Inr (Inr d, s')"
    and d: "dr_outcome d = DispatchAuthorized"
    by (cases c) (auto simp: begin_dispatch_def settle_result_def transact_def bindR_eq_Inr split: sum.splits)
  show "\<not> spent k s" using spent_not_dispatched [of q s "code_verified C" "code_outcome_ok C" H ctx] body k by auto
  have "dispatched_in k s s'" using begin_dispatch_body_Inr [OF body] d k by metis
  moreover have "call_store C H c s = s'" using body by (simp add: c begin_dispatch_def snd_settle_result snd_transact)
  ultimately show "spent k (call_store C H c s)" by (simp add: dispatched_in_spent)
qed

lemma spent_no_authorization: "spent k s \<Longrightarrow> authorizations C H k cs s = 0"
proof (induction cs arbitrary: s)
  case (Cons c cs)
  then have "spent k (call_store C H c s)" using spent_calls.call_keeps by simp
  moreover have "\<not> authorizes C H k c s" using authorizes_spent(1) Cons.prems by blast
  ultimately show ?case using Cons.IH by simp
qed simp

section \<open>The sample store\<close>

definition op_code :: "(unit, unit) store_code" where
  "op_code = \<lparr> code_verified = (\<lambda>_ _. Inr None), code_outcome_ok = (\<lambda>_ _. True),
               code_rest = (\<lambda>_ _ _ _ s. Inr ((), s)) \<rparr>"

lemma op_calls: "call_all op_code op_host [ClaimRunLease (Some op_env) op_claim] op_store = op_claimed"
  by (simp add: claim_run_lease_def snd_transact op_claim_body)

lemma op_store_ok: "audit_ok op_host (\<lambda>_. []) op_store" "lease_ok op_store" "budget_ok op_store"
proof -
  show "audit_ok op_host (\<lambda>_. []) op_store"
    by (simp add: audit_ok_def log_ok_def audit_log_def op_store_def chain_head_def)
  show "lease_ok op_store" by (simp add: lease_ok_def op_store_def)
  show "budget_ok op_store"
    by (simp add: budget_ok_def account_ok_def held_def charges_def op_store_def op_budget_def amount_parts_def
        zero_amounts_def)
qed

lemma op_claimed_ok: "lease_ok op_claimed"
  by (rule claim_body_lease(1) [OF op_store_ok(2) op_claim_body])

lemma op_lease_sel:
  "rl_run_id op_lease = sample_v7 1" "rl_state op_lease = LeaseActive" "rl_expires_at op_lease = lease_seconds"
  "rl_fence_epoch op_lease = 1"
  by (simp_all add: op_lease_def new_lease_def op_claim_def op_binding_def)

lemma op_claimed_sel: "os_leases op_claimed = [op_lease]" "os_heads op_claimed (sample_v7 2) = Some (1, Some op_zero)"
  "os_budgets op_claimed = [op_budget]"
  by (simp_all add: op_claimed_def op_store_def)

definition op_authority :: LeaseAuthority where
  "op_authority =
     \<lparr> la_schema = ''proof.operator.lease-authority/v1'', la_workspace_id = sample_v7 2, la_run_id = sample_v7 1,
       la_lease_id = sample_v7 6, la_owner_instance_id = sample_v7 7, la_process_epoch_id = sample_v7 8,
       la_fence_epoch = 1, la_expected_control_revision = 1, la_lease_token = ''token'' \<rparr>"

lemma op_authority_valid: "is_ok (validate_authority op_host op_claimed op_authority 0)"
proof -
  have "load_control op_host op_claimed (sample_v7 1) = Inr (op_control\<lparr> rc_control_revision := 1 \<rparr>)"
    using op_control_valid(1) [of 1] by (simp add: load_control_def op_claimed_def) (simp add: op_control_def)
  moreover have "load_lease op_host op_claimed (sample_v7 6) = Inr op_lease"
    using op_lease_valid(2) by (simp add: load_lease_def op_claimed_sel) (simp add: op_lease_def new_lease_def op_claim_def op_binding_def)
  moreover have "rl_lease_id op_lease = sample_v7 6" "rl_lease_token_digest op_lease = op_zero"
    "rl_workspace_id op_lease = sample_v7 2" "rl_owner_instance_id op_lease = sample_v7 7"
    "rl_process_epoch_id op_lease = sample_v7 8"
    by (simp_all add: op_lease_def new_lease_def op_claim_def op_binding_def lease_token_digest_def control_digest_def)
  moreover have "rc_workspace_id op_control = sample_v7 2" by (simp add: op_control_def)
  ultimately show ?thesis
    by (simp add: validate_authority_def invalid_if_def op_authority_def sample_v7_is_v7 op_claimed_sel op_lease_sel
        lease_token_digest_def control_digest_def lease_seconds_def del: One_nat_def)
qed

section \<open>Guarantees\<close>

text \<open>
  C35: The audit log of a workspace is append-only and tamper-evident. After any sequence of the
  calls of \<open>operator_call\<close> it starts with the log before them, and any chain of events that ends at the digest stored as
  the head of the workspace is that log, event by event, or two different events have messages
  with the same blake3 hash.
\<close>

theorem audit_log_tamper_evident:
  assumes "quote_law H" and "text_law H" and "audit_ok H (\<lambda>_. []) s"
    and "os_heads (call_all C H cs s) w = Some (n, d)" and "audit_chain H es" and "chain_head None es = d"
  shows "(\<exists>new. audit_log (call_all C H cs s) w = audit_log s w @ new)
    \<and> n = of_nat (length (audit_log (call_all C H cs s) w))
    \<and> (es = audit_log (call_all C H cs s) w
       \<or> (\<exists>e \<in> set es. \<exists>e' \<in> set (audit_log (call_all C H cs s) w).
            blake3_collision H (event_message H e) (event_message H e')))"
proof -
  let ?s = "call_all C H cs s"
  have "audit_ok H (audit_log s) s" using assms(3) by (simp add: audit_ok_def)
  then have ok: "audit_ok H (audit_log s) ?s"
    using audit_calls.calls_keep [of H "audit_log s" s cs C] by (simp add: list.pred_True)
  then have log: "log_ok H (Some (n, d)) (audit_log ?s w)" and new: "\<exists>new. audit_log ?s w = audit_log s w @ new"
    using assms(4) by (auto simp: audit_ok_def dest: spec [of _ w])
  from log have "audit_chain H (audit_log ?s w)" "n = of_nat (length (audit_log ?s w))" "d = chain_head None (audit_log ?s w)"
    by (simp_all add: log_ok_def)
  then show ?thesis using new audit_chain_binds [OF assms(1,2,5), of "audit_log ?s w"] assms(6) by auto
qed

theorem audit_log_tamper_evident_witness:
  "audit_log op_claimed (sample_v7 2) = [op_event] \<and> os_heads op_claimed (sample_v7 2) = Some (1, Some op_zero)
   \<and> audit_chain op_host [op_event]"
proof -
  have chain: "audit_chain op_host [op_event]" "chain_head None [op_event] = Some op_zero"
    using op_event_valid(2) by (simp_all add: chain_head_def op_event_def lease_event_def event_base_def)
  have "os_heads (call_all op_code op_host [ClaimRunLease (Some op_env) op_claim] op_store) (sample_v7 2)
      = Some (1, Some op_zero)"
    by (simp only: op_calls op_claimed_sel)
  from audit_log_tamper_evident [OF op_quote_law op_text_law op_store_ok(1) this chain, unfolded op_calls]
  have "1 = (of_nat (length (audit_log op_claimed (sample_v7 2))) :: u64)" by blast
  moreover have "audit_log op_claimed (sample_v7 2) = [op_event]"
    by (simp add: audit_log_def op_claimed_def op_event_def lease_event_def event_base_def op_lease_def new_lease_def
        op_claim_def op_binding_def)
  ultimately show ?thesis using chain op_claimed_sel(2) by simp
qed

text \<open>
  C36: Leases fence their run. The fence epochs that claims of a run return, over any sequence of
  calls, strictly grow and exceed every epoch of the run before, and only the holder of the newest
  epoch is accepted: an authority of any earlier lease is refused from the moment of a later claim.
\<close>

theorem stale_fence_refused:
  assumes "lease_ok s" and "validate_authority H (call_all C H cs s) a now = Inr x"
  shows "sorted_wrt (<) (claimed_fences C H (la_run_id a) cs s)
    \<and> list_all (\<lambda>f. max_fence s (la_run_id a) < f \<and> f \<le> la_fence_epoch a) (claimed_fences C H (la_run_id a) cs s)
    \<and> la_fence_epoch a = max_fence (call_all C H cs s) (la_run_id a)"
proof -
  obtain control lease where "x = (control, lease)" by (cases x)
  moreover have "lease_ok (call_all C H cs s)"
    using lease_calls.calls_keep [OF assms(1), of cs C H] by (simp add: list.pred_True)
  ultimately have "la_fence_epoch a = max_fence (call_all C H cs s) (la_run_id a)"
    using authority_newest_fence assms(2) by blast
  then show ?thesis using claimed_fences_grow [OF assms(1), of C H "la_run_id a" cs] by (simp add: list_all_iff)
qed

theorem stale_fence_refused_witness:
  "claimed_fences op_code op_host (sample_v7 1) [ClaimRunLease (Some op_env) op_claim] op_store = [1]
   \<and> la_fence_epoch op_authority = max_fence op_claimed (sample_v7 1)"
proof -
  let ?cs = "[ClaimRunLease (Some op_env) op_claim]"
  obtain x where "validate_authority op_host (call_all op_code op_host ?cs op_store) op_authority 0 = Inr x"
    unfolding op_calls using op_authority_valid by (auto simp: is_ok_iff)
  from stale_fence_refused [OF op_store_ok(2) this]
  have "la_fence_epoch op_authority = max_fence op_claimed (la_run_id op_authority)" by (simp only: op_calls)
  then show ?thesis
    by (simp add: claim_run_lease_def transact_def op_claim_body op_result_def op_lease_sel op_authority_def)
qed

text \<open>
  C37: A run whose active lease has expired is lost. Whatever calls are made from then on, its
  leases stay as they are, no claim of it succeeds, no authority over it is accepted, and no
  reclaim succeeds: the reclaim that is meant to free it records the release at a time the
  validator of the lease refuses.
\<close>

theorem expired_run_is_stuck:
  assumes "lease_ok s" and "l \<in> set (os_leases s)" and "rl_state l = LeaseActive"
    and "list_all (called_from (rl_expires_at l)) cs" and "rl_expires_at l \<le> now"
    and "lb_run_id (lr_binding r) = rl_run_id l" and "la_run_id a = rl_run_id l"
  shows "filter (\<lambda>m. rl_run_id m = rl_run_id l) (os_leases (call_all C H cs s))
      = filter (\<lambda>m. rl_run_id m = rl_run_id l) (os_leases s)
    \<and> \<not> is_ok (fst (claim_run_lease H ctx r (call_all C H cs s)))
    \<and> \<not> is_ok (validate_authority H (call_all C H cs s) a now)
    \<and> \<not> is_ok (fst (reclaim (code_rest C) H ctx q (call_all C H cs s)))"
proof -
  let ?ls = "filter (\<lambda>m. rl_run_id m = rl_run_id l) (os_leases s)" and ?s = "call_all C H cs s"
  have "expired_run (rl_run_id l) ?ls (rl_expires_at l) s"
    using assms(1-3) by (auto simp: expired_run_def list_ex_iff)
  then have stuck: "expired_run (rl_run_id l) ?ls (rl_expires_at l) ?s"
    using expired_calls.calls_keep assms(4) by blast
  then have ok: "lease_ok ?s" and rows: "filter (\<lambda>m. rl_run_id m = rl_run_id l) (os_leases ?s) = ?ls"
    by (simp_all add: expired_run_def)
  have "l \<in> set ?ls" using assms(2) by simp
  then have l: "l \<in> set (os_leases ?s)" unfolding rows [symmetric] by simp
  then have "active_leases ?s (rl_run_id l) \<noteq> []" using assms(3) by (auto simp: active_leases_def filter_empty_conv)
  then have "\<not> is_ok (claim_body H ctx r ?s)"
    using claim_body_lease(4) [OF ok, of H ctx r] assms(6) by (auto simp: is_ok_iff)
  moreover have "\<not> is_ok (validate_authority H ?s a now)"
  proof
    assume "is_ok (validate_authority H ?s a now)"
    then obtain control m where m: "validate_authority H ?s a now = Inr (control, m)" by (auto simp: is_ok_iff)
    note v = validate_authority_Inr [OF m]
    from v(1) have "m \<in> set (os_leases ?s)" by (auto simp: find_Some_iff)
    with lease_ok_one_active [OF ok l this] v(2,5) assms(3,7) have "m = l" by simp
    with v(3) assms(5) show False by simp
  qed
  ultimately show ?thesis
    using rows reclaim_body_Inl [of "code_rest C" H ctx q ?s]
    by (auto simp: claim_run_lease_def reclaim_def transact_def is_ok_iff split: sum.splits)
qed

definition op_reclaim :: ReclaimRequest where
  "op_reclaim =
     \<lparr> rq_schema = ''proof.operator.reclaim-request/v1'', rq_workspace_id = sample_v7 2, rq_run_id = sample_v7 1,
       rq_expired_lease_id = sample_v7 6, rq_expected_fence_epoch = 1, rq_expected_control_revision = 1,
       rq_new_lease_id = sample_v7 20, rq_owner_instance_id = sample_v7 7, rq_new_process_epoch_id = sample_v7 21,
       rq_new_lease_token = ''other'', rq_checkpoint_id = sample_v7 5, rq_checkpoint_sequence = 0,
       rq_checkpoint_digest = ContentDigest (replicate 32 0) \<rparr>"

theorem expired_run_is_stuck_witness:
  "\<not> is_ok (fst (reclaim (code_rest op_code) op_host (Some (op_env\<lparr> env_now := Some lease_seconds \<rparr>)) op_reclaim
       (call_all op_code op_host [ReclaimRun (Some (op_env\<lparr> env_now := Some lease_seconds \<rparr>)) op_reclaim] op_claimed)))
   \<and> \<not> is_ok (validate_authority op_host
       (call_all op_code op_host [ReclaimRun (Some (op_env\<lparr> env_now := Some lease_seconds \<rparr>)) op_reclaim] op_claimed)
       op_authority lease_seconds)
   \<and> is_ok (validate_authority op_host op_claimed op_authority 0)"
proof -
  let ?env = "Some (op_env\<lparr> env_now := Some lease_seconds \<rparr>)"
  have late: "list_all (called_from (rl_expires_at op_lease)) [ReclaimRun ?env op_reclaim]"
    by (simp add: called_from_def op_lease_sel)
  have run: "lb_run_id (lr_binding op_claim) = rl_run_id op_lease" "la_run_id op_authority = rl_run_id op_lease"
    by (simp_all add: op_claim_def op_binding_def op_authority_def op_lease_sel)
  have lease: "op_lease \<in> set (os_leases op_claimed)" "rl_expires_at op_lease \<le> lease_seconds"
    by (simp_all add: op_claimed_sel op_lease_sel)
  from expired_run_is_stuck [OF op_claimed_ok lease(1) op_lease_sel(2) late lease(2) run, of op_code op_host ?env op_reclaim]
  show ?thesis using op_authority_valid by blast
qed

text \<open>
  C38: A claimed lease can be used. Once the store accepts the claim that a token custody requests,
  the custody binds the result and gives an authority, and the store accepts that authority on
  the claimed lease at every time before the lease expires.
\<close>

theorem claimed_lease_is_usable:
  assumes "custody_claim_request H c b = Inr (r, c1)" and "env_now env = Some now"
    and "claim_run_lease H (Some env) r s = (Inr res, s')" and "t < now + lease_seconds"
  shows "\<exists>c2 a control. bind_claim_result H c1 res = Inr c2
    \<and> custody_authority c2 (lm_control_revision res) = Inr a
    \<and> validate_authority H s' a t = Inr (control, lm_lease res)"
proof -
  have "claim_body H (Some env) r s = Inr (res, s')"
    using assms(3) by (auto simp: claim_run_lease_def transact_def split: sum.splits)
  from claim_then_authority [OF assms(1) this refl assms(2,4)] show ?thesis .
qed

theorem claimed_lease_is_usable_witness:
  "\<exists>c2 a control. bind_claim_result op_host
       ((lease_custody_new ''token'')\<lparr> lc_establishment := Some (EstClaim op_binding), lc_proof_state := 1 \<rparr>) op_result = Inr c2
    \<and> custody_authority c2 1 = Inr a \<and> validate_authority op_host op_claimed a 29 = Inr (control, op_lease)"
proof -
  have request: "custody_claim_request op_host (lease_custody_new ''token'') op_binding = Inr (op_claim,
      (lease_custody_new ''token'')\<lparr> lc_establishment := Some (EstClaim op_binding), lc_proof_state := 1 \<rparr>)"
    by (simp add: custody_claim_request_def validate_lease_claim_binding_def begin_establishment_def
        lease_custody_new_def op_binding_def op_claim_def sample_v7_is_v7)
  have claim: "claim_run_lease op_host (Some op_env) op_claim op_store = (Inr op_result, op_claimed)"
    by (simp add: claim_run_lease_def transact_def op_claim_body)
  have "env_now op_env = Some 0" "29 < 0 + lease_seconds" by (simp_all add: op_env_def lease_seconds_def)
  from claimed_lease_is_usable [OF request this(1) claim this(2)] show ?thesis by (simp add: op_result_def)
qed

text \<open>
  C39: Budgets are never exceeded and never drift. After any sequence of the calls of
  \<open>operator_call\<close>, in each of the five
  dimensions, what an account holds as reserved is the sum over its open reservations, what it
  has committed is the sum of what its reservations were charged, and both together stay within
  the limit of its policy.
\<close>

theorem budget_within_limits:
  assumes "budget_ok s" and "b \<in> set (os_budgets (call_all C H cs s))" and "f \<in> set amount_parts"
  shows "unat (f (acc_reserved b)) = held f (call_all C H cs s) (pol_budget_id (acc_policy b))
    \<and> unat (f (acc_committed b)) = charges f (call_all C H cs s) (pol_budget_id (acc_policy b))
    \<and> unat (f (acc_reserved b)) + unat (f (acc_committed b)) \<le> unat (f (pol_limits (acc_policy b)))"
proof -
  have "budget_ok (call_all C H cs s)"
    using budget_calls.calls_keep [OF assms(1), of cs C H] by (simp add: list.pred_True)
  with assms(2,3) show ?thesis by (simp add: budget_ok_def account_ok_def)
qed

theorem budget_within_limits_witness:
  "held ba_steps op_claimed (sample_v7 3) + charges ba_steps op_claimed (sample_v7 3) \<le> 5"
proof -
  have b: "op_budget \<in> set (os_budgets (call_all op_code op_host [ClaimRunLease (Some op_env) op_claim] op_store))"
    "ba_steps \<in> set amount_parts"
    by (simp_all only: op_calls op_claimed_sel) (simp_all add: amount_parts_def)
  from budget_within_limits [OF op_store_ok(3) b, unfolded op_calls] show ?thesis
    by (simp add: op_budget_def zero_amounts_def)
qed

text \<open>
  C40: A reservation is dispatched at most once: over any sequence of the calls of
  \<open>operator_call\<close> on any store, at most
  one call returns an authorization to dispatch it.
\<close>

theorem dispatch_at_most_once: "authorizations C H k cs s \<le> 1"
proof (induction cs arbitrary: s)
  case (Cons c cs)
  then show ?case using spent_no_authorization [OF authorizes_spent(2)] by (cases "authorizes C H k c s") auto
qed simp

end
