(* ===== verification/Spec2Isabelle.thy ===== *)
theory Spec2Isabelle
  imports Execution RunStore Workflow Commerce OperatorSafety
begin

text \<open>
  A verification development of the proof platform (\<^verbatim>\<open>src/crates\<close>): a kernel that executes
  registered operations under delegated and human authority and signs evidence of each, stores
  for runs, approvals and exact replay, two sets of handlers, and the control plane that lets
  several processes drive agent runs under leases and budgets.

  \<^bold>\<open>Conventions.\<close> A struct is a record with a prefix per type, an enum a datatype, a
  \<^verbatim>\<open>Result\<close> a sum with the error on the left, a machine integer a word, a UUID a 128-bit word, an
  instant an integer of nanoseconds, a string the list of its UTF-8 bytes. The operator
  \<^verbatim>\<open>?\<close> is \<open>bindR\<close>. Clock readings and fresh identifiers are arguments. Code outside the
  repository (hashes, signatures, float and string rendering, UUID and time texts) is the record
  \<open>host\<close>; what is relied on is stated by \<open>quote_law\<close>, \<open>text_law\<close>, \<open>sign_law\<close>, \<open>hash_law\<close> and
  \<open>sha256_law\<close>, and \<open>sample_host\<close> and \<open>op_host\<close> satisfy them. Collision resistance is never
  assumed: a theorem that needs it concludes with an explicit collision.

  \<^bold>\<open>The kernel\<close> (\<^verbatim>\<open>proof-kernel/src\<close>). \<open>Canonical\<close> is \<^verbatim>\<open>canonical.rs\<close>: canonical text is injective on
  values without floats and a digest binds kind and value. \<open>Evidence\<close> is \<^verbatim>\<open>identity.rs\<close> and
  \<^verbatim>\<open>evidence.rs\<close>: proofs sign, verify and bind their body. \<open>Registry\<close> is \<^verbatim>\<open>registry.rs\<close>.
  \<open>Delegation\<close> is \<^verbatim>\<open>delegation.rs\<close>: validation equals its declarative reading, and chains
  attenuate except for the double star. \<open>Approval\<close> is \<^verbatim>\<open>approval.rs\<close>: a grant authorizes one call.
  \<open>AgentDef\<close>, \<open>AgentRun\<close> and \<open>RunStore\<close> are \<^verbatim>\<open>agent.rs\<close> and \<^verbatim>\<open>agent_run.rs\<close>: the life cycles of runs
  and steps as reachability relations, and the revisioned store. \<open>StoreContracts\<close> holds the
  locales these stores share.

  \<^bold>\<open>The engine\<close> (\<^verbatim>\<open>executor\<close>). \<open>ReplayStore\<close> is \<^verbatim>\<open>store.rs\<close>, \<open>Engine\<close> and \<open>Execution\<close> are
  \<^verbatim>\<open>engine.rs\<close>, \<^verbatim>\<open>context.rs\<close> and \<^verbatim>\<open>error.rs\<close>: calls without authority have no effect, no
  \<^verbatim>\<open>expect\<close> fails, success is evidenced, an idempotency key runs its handler at most once under
  every interleaving, and four steps finish every call.

  \<^bold>\<open>Handlers\<close>. \<open>Handlers\<close> has what \<open>Workflow\<close> (\<^verbatim>\<open>proof-workflow\<close>) and \<open>Commerce\<close>
  (\<^verbatim>\<open>proof-commerce\<close>) share. Workflow calls refine a specification of the steps, and the runs that
  can be completed are characterized; an order keeps its lines and moves at most twice, and a
  fulfillment returns verified evidence.

  \<^bold>\<open>The operator control plane\<close> (\<^verbatim>\<open>proof-kernel/src/operator\<close> and
  \<^verbatim>\<open>proof-storage/src/sqlite/operator_store.rs\<close>). \<open>OperatorBase\<close> and \<open>OperatorRecords\<close> are the strict
  wire forms and the durable records with their validators, \<open>OperatorAudit\<close> projections and audit
  events, \<open>OperatorStore\<close> the tables as lists of rows with the constraints of the schema,
  \<open>OperatorLease\<close> token custody and leases, \<open>OperatorBudget\<close> reservations, \<open>OperatorDispatch\<close>
  dispatch and forfeit. Each operation is one transaction: \<open>transact\<close> undoes a failed one, and
  \<open>settle_result\<close> is a commit that still returns an error. \<open>OperatorCalls\<close> has sequences of calls
  and the locale \<open>guarded_calls\<close>, interpreted for the audit log, the leases, expired runs, the
  budgets and spent reservations. \<open>OperatorSafety\<close> states what follows: the log is append-only and
  bound by its head, stale fences are refused, a claimed lease is usable, budgets stay within
  their limits, a reservation is dispatched at most once, and a run whose lease expired is lost.
  \<open>OperatorSample\<close> is the store on which the hypotheses are shown to hold.

  \<^bold>\<open>Bounds.\<close> All definitions are total and structurally recursive or proved to terminate; the only
  step bound is that of \<open>Execution\<close>, where four steps suffice for every call. Sequences of calls
  and interleavings are lists of any length.

  \<^bold>\<open>Not modelled.\<close> The commit of a matching runtime result, the registration of a run, operator
  commands and read pages of the operator store: they go through the session authority, the signer
  and most other tables. None of them writes leases; the commit writes budgets and reservations
  and is the one such write left out, so the theorems on sequences of operator calls do not speak
  of sequences with a commit. What \<open>reclaim\<close> does after the release of the expired lease is an
  argument, because no call gets there. The verification of a completed replay during a dispatch is an
  argument too. The SQLite backends of the other stores, row decoding and database failures; the
  permit-authorized governed path of the engine, dispatch custody and sealed plans, which rest on
  atomics and lifetimes; the asynchronous agent runtime and model clients; content and analytics
  handlers; sessions and passkeys; the control service, transports, tracing and benchmarks, which
  are I/O. Reading records from JSON is generated by serde.
\<close>

end
